(* ===== verification/StrLib.thy ===== *)
theory StrLib
  imports Prelude
begin

text \<open>
  The \<open>str\<close> methods the code calls, on strings as lists of UTF-8 bytes: prefixes and
  suffixes, the \<open>split\<close> family, \<open>replace\<close>, \<open>trim\<close>, \<open>lines\<close>, and the decimal and
  hexadecimal renderings of \<open>format!\<close>. Each comes with the law that characterises it.
\<close>

section \<open>Prefixes and suffixes\<close>

fun strip_prefix :: "'a list \<Rightarrow> 'a list \<Rightarrow> 'a list option" where
  "strip_prefix [] s = Some s"
| "strip_prefix (p # ps) [] = None"
| "strip_prefix (p # ps) (c # cs) = (if p = c then strip_prefix ps cs else None)"

definition strip_suffix :: "'a list \<Rightarrow> 'a list \<Rightarrow> 'a list option" where
  "strip_suffix p s = map_option rev (strip_prefix (rev p) (rev s))"

lemma strip_prefix_some [ok_iff]: "strip_prefix p s = Some r \<longleftrightarrow> s = p @ r"
  by (induction p s rule: strip_prefix.induct) auto

lemma strip_prefix_append [simp]: "strip_prefix p (p @ r) = Some r"
  by (simp add: strip_prefix_some)

lemma strip_prefix_none: "strip_prefix p s = None \<longleftrightarrow> (\<nexists>r. s = p @ r)"
  by (metis not_None_eq strip_prefix_some)

lemma strip_suffix_some [ok_iff]: "strip_suffix p s = Some r \<longleftrightarrow> s = r @ p"
  by (auto simp: strip_suffix_def strip_prefix_some)
    (metis rev_append rev_rev_ident)

text \<open>Single quotes around an interpolated text, for the messages of the code.\<close>

definition quoted :: "string \<Rightarrow> string" where
  "quoted s = CHR 0x27 # s @ [CHR 0x27]"

section \<open>Splitting\<close>

text \<open>\<open>str::split(c)\<close> for one ASCII character: always at least one piece.\<close>

fun split_on :: "char \<Rightarrow> string \<Rightarrow> string list" where
  "split_on c [] = [[]]"
| "split_on c (x # xs) =
     (if x = c then [] # split_on c xs
      else (x # hd (split_on c xs)) # tl (split_on c xs))"

text \<open>\<open>[\<dots>].join(c)\<close>.\<close>

fun join_with :: "string \<Rightarrow> string list \<Rightarrow> string" where
  "join_with sep [] = []"
| "join_with sep [p] = p"
| "join_with sep (p # q # ps) = p @ sep @ join_with sep (q # ps)"

fun split_once :: "char \<Rightarrow> string \<Rightarrow> (string \<times> string) option" where
  "split_once c [] = None"
| "split_once c (x # xs) =
     (if x = c then Some ([], xs)
      else map_option (\<lambda>(a, b). (x # a, b)) (split_once c xs))"

text \<open>\<open>split_once([c, d])\<close>: the first character out of a set.\<close>

fun split_once_any :: "char list \<Rightarrow> string \<Rightarrow> (string \<times> string) option" where
  "split_once_any cs [] = None"
| "split_once_any cs (x # xs) =
     (if x \<in> set cs then Some ([], xs)
      else map_option (\<lambda>(a, b). (x # a, b)) (split_once_any cs xs))"

text \<open>\<open>splitn(n, c)\<close>: at most \<open>n\<close> pieces, the last one keeps its separators.\<close>

fun splitn :: "nat \<Rightarrow> char \<Rightarrow> string \<Rightarrow> string list" where
  "splitn 0 c s = []"
| "splitn (Suc 0) c s = [s]"
| "splitn (Suc (Suc n)) c s =
     (case split_once c s of
        None \<Rightarrow> [s]
      | Some (a, b) \<Rightarrow> a # splitn (Suc n) c b)"

lemma split_on_nonempty [simp]: "split_on c s \<noteq> []"
  by (induction c s rule: split_on.induct) auto

lemma split_on_pieces: "p \<in> set (split_on c s) \<Longrightarrow> c \<notin> set p"
proof (induction c s arbitrary: p rule: split_on.induct)
  case (2 c x xs)
  have mem: "hd (split_on c xs) \<in> set (split_on c xs)" by simp
  show ?case
  proof (cases "x = c")
    case False
    with "2.prems" consider "p = x # hd (split_on c xs)" | "p \<in> set (tl (split_on c xs))"
      by auto
    then show ?thesis
      using False "2.IH" mem list.set_sel(2) [OF split_on_nonempty] by cases fastforce+
  qed (use 2 in auto)
qed auto

lemma join_with_Cons: "ps \<noteq> [] \<Longrightarrow> join_with sep (p # ps) = p @ sep @ join_with sep ps"
  by (cases ps) auto

lemma join_split [simp]: "join_with [c] (split_on c s) = s"
proof (induction c s rule: split_on.induct)
  case (2 c x xs)
  obtain h t where ht: "split_on c xs = h # t"
    by (cases "split_on c xs") auto
  show ?case
  proof (cases "x = c")
    case True
    with 2 show ?thesis by (simp add: join_with_Cons)
  next
    case False
    with 2 ht show ?thesis by (cases t) auto
  qed
qed auto

lemma split_on_no_sep [simp]: "c \<notin> set s \<Longrightarrow> split_on c s = [s]"
  by (induction c s rule: split_on.induct) auto

lemma split_on_append: "c \<notin> set a \<Longrightarrow> split_on c (a @ c # b) = a # split_on c b"
  by (induction a) auto

lemma split_join:
  "ps \<noteq> [] \<Longrightarrow> (\<And>p. p \<in> set ps \<Longrightarrow> c \<notin> set p) \<Longrightarrow> split_on c (join_with [c] ps) = ps"
  by (induction "[c]" ps rule: join_with.induct) (auto simp: split_on_append)

lemma split_once_some [ok_iff]: "split_once c s = Some (a, b) \<longleftrightarrow> s = a @ c # b \<and> c \<notin> set a"
proof (induction c s arbitrary: a rule: split_once.induct)
  case (2 c x xs)
  then show ?case by (cases a) auto
qed auto

lemma split_once_append [simp]: "c \<notin> set a \<Longrightarrow> split_once c (a @ c # b) = Some (a, b)"
  by (simp add: split_once_some)

lemma split_once_none [simp]: "split_once c s = None \<longleftrightarrow> c \<notin> set s"
  by (induction c s rule: split_once.induct) auto

lemma split_once_any_some:
  "split_once_any cs s = Some (a, b) \<longleftrightarrow> (\<exists>c \<in> set cs. s = a @ c # b \<and> set a \<inter> set cs = {})"
proof (induction cs s arbitrary: a rule: split_once_any.induct)
  case (2 cs x xs)
  then show ?case by (cases a) auto
qed auto

lemma split_once_any_none [simp]: "split_once_any cs s = None \<longleftrightarrow> set s \<inter> set cs = {}"
  by (induction cs s rule: split_once_any.induct) auto

section \<open>Replacing\<close>

text \<open>
  \<open>str::replace\<close>: the non-overlapping matches from the left. An empty pattern matches at
  every character boundary, that is before each byte that does not continue a UTF-8
  sequence, and at the end.
\<close>

definition utf8_continuation :: "char \<Rightarrow> bool" where
  "utf8_continuation c \<longleftrightarrow> 128 \<le> (of_char c :: nat) \<and> (of_char c :: nat) < 192"

function replace_nonempty :: "string \<Rightarrow> string \<Rightarrow> string \<Rightarrow> string" where
  "replace_nonempty pat new s =
     (case s of
        [] \<Rightarrow> []
      | c # cs \<Rightarrow>
          (case strip_prefix pat s of
             Some r \<Rightarrow> if pat = [] then s else new @ replace_nonempty pat new r
           | None \<Rightarrow> c # replace_nonempty pat new cs))"
  by pat_completeness auto
termination
  by (relation "measure (\<lambda>(pat, new, s). length s)") (auto simp: strip_prefix_some)

declare replace_nonempty.simps [simp del]

definition str_replace :: "string \<Rightarrow> string \<Rightarrow> string \<Rightarrow> string" where
  "str_replace pat new s =
     (if pat = []
      then concat (map (\<lambda>c. if utf8_continuation c then [c] else new @ [c]) s) @ new
      else replace_nonempty pat new s)"

text \<open>\<open>replace(c, t)\<close> for a one-character pattern.\<close>

definition replace_char :: "char \<Rightarrow> string \<Rightarrow> string \<Rightarrow> string" where
  "replace_char c t s = concat (map (\<lambda>x. if x = c then t else [x]) s)"

lemma replace_nonempty_Nil [simp]: "replace_nonempty pat new [] = []"
  by (simp add: replace_nonempty.simps)

lemma replace_nonempty_match [simp]:
  "pat \<noteq> [] \<Longrightarrow> replace_nonempty pat new (pat @ r) = new @ replace_nonempty pat new r"
  by (subst replace_nonempty.simps) (cases pat; simp)

lemma replace_nonempty_skip:
  "strip_prefix pat (c # cs) = None \<Longrightarrow>
   replace_nonempty pat new (c # cs) = c # replace_nonempty pat new cs"
  by (subst replace_nonempty.simps) simp

lemma replace_nonempty_absent:
  "hd pat \<notin> set s \<Longrightarrow> pat \<noteq> [] \<Longrightarrow> replace_nonempty pat new s = s"
proof (induction s)
  case (Cons c cs)
  then have "strip_prefix pat (c # cs) = None"
    by (cases pat) auto
  with Cons show ?case by (simp add: replace_nonempty_skip)
qed simp

lemma str_replace_absent: "hd pat \<notin> set s \<Longrightarrow> pat \<noteq> [] \<Longrightarrow> str_replace pat new s = s"
  by (simp add: str_replace_def replace_nonempty_absent)

lemma replace_char_absent [simp]: "c \<notin> set s \<Longrightarrow> replace_char c t s = s"
  unfolding replace_char_def by (induction s) auto

lemma replace_char_Nil [simp]: "replace_char c t [] = []"
  by (simp add: replace_char_def)

lemma replace_char_Cons [simp]:
  "replace_char c t (x # s) = (if x = c then t else [x]) @ replace_char c t s"
  by (simp add: replace_char_def)

lemma replace_char_append [simp]:
  "replace_char c t (s @ s') = replace_char c t s @ replace_char c t s'"
  by (simp add: replace_char_def)

section \<open>White space and lines\<close>

text \<open>The UTF-8 encodings of the characters with the Unicode property \<open>White_Space\<close>.\<close>

definition white_space :: "string list" where
  "white_space =
    [[CHR 0x09], [CHR 0x0A], [CHR 0x0B], [CHR 0x0C], [CHR 0x0D], [CHR 0x20],
     [CHR 0xC2, CHR 0x85], [CHR 0xC2, CHR 0xA0], [CHR 0xE1, CHR 0x9A, CHR 0x80],
     [CHR 0xE2, CHR 0x80, CHR 0x80], [CHR 0xE2, CHR 0x80, CHR 0x81],
     [CHR 0xE2, CHR 0x80, CHR 0x82], [CHR 0xE2, CHR 0x80, CHR 0x83],
     [CHR 0xE2, CHR 0x80, CHR 0x84], [CHR 0xE2, CHR 0x80, CHR 0x85],
     [CHR 0xE2, CHR 0x80, CHR 0x86], [CHR 0xE2, CHR 0x80, CHR 0x87],
     [CHR 0xE2, CHR 0x80, CHR 0x88], [CHR 0xE2, CHR 0x80, CHR 0x89],
     [CHR 0xE2, CHR 0x80, CHR 0x8A], [CHR 0xE2, CHR 0x80, CHR 0xA8],
     [CHR 0xE2, CHR 0x80, CHR 0xA9], [CHR 0xE2, CHR 0x80, CHR 0xAF],
     [CHR 0xE2, CHR 0x81, CHR 0x9F], [CHR 0xE3, CHR 0x80, CHR 0x80]]"

fun strip_one_of :: "string list \<Rightarrow> string \<Rightarrow> string option" where
  "strip_one_of [] s = None"
| "strip_one_of (p # ps) s =
     (case strip_prefix p s of
        Some r \<Rightarrow> if p = [] then strip_one_of ps s else Some r
      | None \<Rightarrow> strip_one_of ps s)"

lemma strip_one_of_shorter: "strip_one_of ps s = Some r \<Longrightarrow> length r < length s"
  by (induction ps s rule: strip_one_of.induct)
    (auto simp: strip_prefix_some split: option.splits if_splits)

function trim_front :: "string list \<Rightarrow> string \<Rightarrow> string" where
  "trim_front ps s = (case strip_one_of ps s of Some r \<Rightarrow> trim_front ps r | None \<Rightarrow> s)"
  by pat_completeness auto
termination
  by (relation "measure (\<lambda>(ps, s). length s)") (auto dest: strip_one_of_shorter)

declare trim_front.simps [simp del]

definition trim_start :: "string \<Rightarrow> string" where
  "trim_start s = trim_front white_space s"

definition trim_end :: "string \<Rightarrow> string" where
  "trim_end s = rev (trim_front (map rev white_space) (rev s))"

definition trim :: "string \<Rightarrow> string" where
  "trim s = trim_end (trim_start s)"

text \<open>\<open>trim_end_matches(c)\<close>.\<close>

definition trim_end_matches :: "char \<Rightarrow> string \<Rightarrow> string" where
  "trim_end_matches c s = rev (dropWhile (\<lambda>x. x = c) (rev s))"

text \<open>
  \<open>str::lines\<close>: split at line feeds, without the carriage return before one, and without
  the empty piece after a final line feed.
\<close>

definition strip_cr :: "string \<Rightarrow> string" where
  "strip_cr s = (if s \<noteq> [] \<and> last s = CHR 0x0D then butlast s else s)"

definition str_lines :: "string \<Rightarrow> string list" where
  "str_lines s =
     (let ps = split_on (CHR 0x0A) s
      in map strip_cr (butlast ps) @ (if last ps = [] then [] else [last ps]))"

lemma trim_front_idem [simp]: "trim_front ps (trim_front ps s) = trim_front ps s"
proof (induction ps s rule: trim_front.induct)
  case (1 ps s)
  then show ?case
    by (cases "strip_one_of ps s") (simp_all add: trim_front.simps [of ps s])
qed

lemma trim_front_suffix: "\<exists>a. s = a @ trim_front ps s"
proof (induction ps s rule: trim_front.induct)
  case (1 ps s)
  have pre: "\<exists>a. s = a @ r" if "strip_one_of ps s = Some r" for r
    using that
    by (induction ps s rule: strip_one_of.induct)
      (auto simp: strip_prefix_some split: option.splits if_splits)
  show ?case
  proof (cases "strip_one_of ps s")
    case None
    then show ?thesis by (simp add: trim_front.simps [of ps s])
  next
    case (Some r)
    with 1 pre [OF Some] show ?thesis
      by (simp add: trim_front.simps [of ps s]) (metis append.assoc)
  qed
qed

lemma length_trim: "length (trim s) \<le> length s"
proof -
  have *: "length (trim_front ps r) \<le> length r" for ps r
  proof -
    obtain a where "r = a @ trim_front ps r" using trim_front_suffix by metis
    then have "length r = length a + length (trim_front ps r)" by (metis length_append)
    then show ?thesis by simp
  qed
  show ?thesis
    using * [of "map rev white_space" "rev (trim_start s)"] * [of white_space s]
    by (simp add: trim_def trim_end_def trim_start_def)
qed

lemma trim_end_matches_no_end: "trim_end_matches c s = [] \<or> last (trim_end_matches c s) \<noteq> c"
  unfolding trim_end_matches_def
  by (metis (mono_tags, lifting) hd_dropWhile hd_rev rev_is_Nil_conv rev_rev_ident
      dropWhile_eq_Nil_conv last_rev)

section \<open>Decimal and hexadecimal renderings\<close>

definition digit_char :: "nat \<Rightarrow> char" where
  "digit_char d = ''0123456789abcdef'' ! d"

fun show_nat :: "nat \<Rightarrow> string" where
  "show_nat n = (if n < 10 then [digit_char n] else show_nat (n div 10) @ [digit_char (n mod 10)])"

declare show_nat.simps [simp del]

text \<open>\<open>{:04}\<close> of an unsigned number.\<close>

definition show_pad4 :: "nat \<Rightarrow> string" where
  "show_pad4 n = replicate (4 - length (show_nat n)) (CHR ''0'') @ show_nat n"

text \<open>\<open>{:02x}\<close> of a byte.\<close>

definition show_hex2 :: "u8 \<Rightarrow> string" where
  "show_hex2 b = [digit_char (unat b div 16), digit_char (unat b mod 16)]"

text \<open>
  \<open>{:?}\<close> of a string: in double quotes, with the escapes of \<open>char::escape_debug\<close> on ASCII;
  bytes of longer characters are printed as they are.
\<close>

definition hex_digits :: "nat \<Rightarrow> string" where
  "hex_digits n = (if n < 16 then [digit_char n] else [digit_char (n div 16), digit_char (n mod 16)])"

definition debug_char :: "char \<Rightarrow> string" where
  "debug_char ch =
     (if ch = CHR 0x00 then [CHR 0x5C, CHR ''0'']
      else if ch = CHR 0x09 then [CHR 0x5C, CHR ''t'']
      else if ch = CHR 0x0A then [CHR 0x5C, CHR ''n'']
      else if ch = CHR 0x0D then [CHR 0x5C, CHR ''r'']
      else if ch = CHR 0x22 \<or> ch = CHR 0x5C then [CHR 0x5C, ch]
      else if (of_char ch :: nat) < 32 \<or> (of_char ch :: nat) = 127
      then CHR 0x5C # ''u{'' @ hex_digits (of_char ch) @ ''}''
      else [ch])"

definition debug_str :: "string \<Rightarrow> string" where
  "debug_str s = CHR 0x22 # concat (map debug_char s) @ [CHR 0x22]"

fun debug_opt_str :: "string option \<Rightarrow> string" where
  "debug_opt_str None = ''None''"
| "debug_opt_str (Some s) = ''Some('' @ debug_str s @ '')''"

text \<open>Reading digits back: the value of a decimal numeral.\<close>

definition digit_value :: "char \<Rightarrow> nat option" where
  "digit_value c =
     (if 48 \<le> (of_char c :: nat) \<and> (of_char c :: nat) \<le> 57 then Some (of_char c - 48) else None)"

fun read_digits :: "nat \<Rightarrow> string \<Rightarrow> nat option" where
  "read_digits acc [] = Some acc"
| "read_digits acc (c # cs) =
     (case digit_value c of
        None \<Rightarrow> None
      | Some d \<Rightarrow> read_digits (10 * acc + d) cs)"

definition read_nat :: "string \<Rightarrow> nat option" where
  "read_nat s = (if s = [] then None else read_digits 0 s)"

lemma digit_value_digit_char: "d < 10 \<Longrightarrow> digit_value (digit_char d) = Some d"
proof -
  assume "d < 10"
  then have "d \<in> {0, 1, 2, 3, 4, 5, 6, 7, 8, 9}" by auto
  then show ?thesis by (auto simp: digit_value_def digit_char_def)
qed

lemma read_digits_append:
  "read_digits acc (s @ t) = Option.bind (read_digits acc s) (\<lambda>a. read_digits a t)"
  by (induction acc s rule: read_digits.induct) (auto split: option.splits)

lemma read_digits_show: "read_digits acc (show_nat n) = Some (10 ^ length (show_nat n) * acc + n)"
proof (induction n arbitrary: acc rule: show_nat.induct)
  case (1 n)
  show ?case
  proof (cases "n < 10")
    case True
    then show ?thesis
      by (simp add: show_nat.simps [of n] digit_value_digit_char)
  next
    case False
    then have "show_nat n = show_nat (n div 10) @ [digit_char (n mod 10)]"
      by (simp add: show_nat.simps [of n])
    with False 1 show ?thesis
      by (simp add: read_digits_append digit_value_digit_char algebra_simps)
  qed
qed

lemma show_nat_nonempty [simp]: "show_nat n \<noteq> []"
  by (simp add: show_nat.simps [of n])

lemma read_show [simp]: "read_nat (show_nat n) = Some n"
  by (simp add: read_nat_def read_digits_show)

lemma show_nat_inj [simp]: "show_nat m = show_nat n \<longleftrightarrow> m = n"
  by (metis option.inject read_show)

lemma show_nat_digits: "c \<in> set (show_nat n) \<Longrightarrow> digit_value c \<noteq> None"
proof (induction n arbitrary: c rule: show_nat.induct)
  case (1 n)
  then show ?case
    by (cases "n < 10") (auto simp: show_nat.simps [of n] digit_value_digit_char)
qed

lemma show_nat_not_dash [simp]: "CHR ''-'' \<notin> set (show_nat n)"
  using show_nat_digits [of "CHR ''-''" n] by (auto simp: digit_value_def)

end
