(* ===== verification/Did.thy ===== *)
theory Did
  imports StrLib
begin

text \<open>
  Decentralized identifiers, \<open>swiyu-core/src/did/mod.rs\<close>: the two DID methods, the record
  of a DID's parts, its validating constructors, rendering and parsing, the URL of its log
  and its percent-encoded form. The main law is \<open>did_from_str_iff\<close>: parsing accepts
  exactly the texts of well-formed DIDs, and returns the DID that was written.
\<close>

section \<open>Data\<close>

datatype did_method = Tdw | WebVh

fun method_prefix :: "did_method \<Rightarrow> string" where
  "method_prefix Tdw = ''did:tdw:''"
| "method_prefix WebVh = ''did:webvh:''"

record did =
  did_method :: did_method
  did_scid :: "string option"
  did_domain :: string
  did_path :: "string option"

datatype did_error =
    DIDMissingPrefix
  | DIDMissingSCID
  | DIDMissingDomain
  | DIDInvalidDomain
  | DIDInvalidPath

definition show_did_error :: "did_error \<Rightarrow> string" where
  "show_did_error er =
     (case er of
        DIDMissingPrefix \<Rightarrow>
           ''DID must start with '' @ quoted ''did:tdw:'' @ '' or '' @ quoted ''did:webvh:''
      | DIDMissingSCID \<Rightarrow> ''DID is missing the SCID component''
      | DIDMissingDomain \<Rightarrow> ''DID is missing the domain component''
      | DIDInvalidDomain \<Rightarrow>
           ''domain must be a '' @ quoted ''.'' @ ''-separated sequence of non-empty segments''
      | DIDInvalidPath \<Rightarrow>
           ''path must be a '' @ quoted '':'' @ ''-separated list of non-empty segments'')"

section \<open>Construction\<close>

definition is_valid_domain :: "string \<Rightarrow> bool" where
  "is_valid_domain s \<longleftrightarrow> s \<noteq> [] \<and> list_all (\<lambda>seg. seg \<noteq> []) (split_on (CHR ''.'') s)"

definition is_valid_path :: "string \<Rightarrow> bool" where
  "is_valid_path s \<longleftrightarrow> s \<noteq> [] \<and> list_all (\<lambda>seg. seg \<noteq> []) (split_on (CHR '':'') s)"

definition validate_and_build ::
  "did_method \<Rightarrow> string option \<Rightarrow> string \<Rightarrow> string option \<Rightarrow> (did, did_error) result" where
  "validate_and_build m scid dmn path =
     (if \<not> is_valid_domain dmn then Err DIDInvalidDomain
      else case path of
        Some p \<Rightarrow>
          if \<not> is_valid_path p then Err DIDInvalidPath
          else Ok \<lparr>did_method = m, did_scid = scid, did_domain = dmn, did_path = path\<rparr>
      | None \<Rightarrow> Ok \<lparr>did_method = m, did_scid = scid, did_domain = dmn, did_path = path\<rparr>)"

definition try_new_tdw ::
  "string option \<Rightarrow> string \<Rightarrow> string option \<Rightarrow> (did, did_error) result" where
  "try_new_tdw scid dmn path = validate_and_build Tdw scid dmn path"

definition try_new_webvh ::
  "string option \<Rightarrow> string \<Rightarrow> string option \<Rightarrow> (did, did_error) result" where
  "try_new_webvh scid dmn path = validate_and_build WebVh scid dmn path"

section \<open>Rendering\<close>

definition did_to_string :: "did \<Rightarrow> string" where
  "did_to_string d =
     method_prefix (did_method d)
       @ (case did_scid d of Some s \<Rightarrow> s | None \<Rightarrow> ''{SCID}'') @ '':'' @ did_domain d
       @ (case did_path d of Some p \<Rightarrow> '':'' @ p | None \<Rightarrow> [])"

definition did_log_url :: "did \<Rightarrow> string" where
  "did_log_url d =
     (let host = str_replace ''%3A'' '':'' (did_domain d)
      in case did_path d of
           Some p \<Rightarrow> ''https://'' @ host @ ''/'' @ replace_char (CHR '':'') ''/'' p @ ''/did.jsonl''
         | None \<Rightarrow> ''https://'' @ host @ ''/.well-known/did.jsonl'')"

fun percent_encode_char :: "char \<Rightarrow> string" where
  "percent_encode_char c =
     (if c = CHR '':'' then ''%3A''
      else if c = CHR ''/'' then ''%2F''
      else if c = CHR ''?'' then ''%3F''
      else if c = CHR ''#'' then ''%23''
      else if c = CHR ''%'' then ''%25''
      else if c = CHR '' '' then ''%20''
      else [c])"

definition percent_encode_path_segment :: "string \<Rightarrow> string" where
  "percent_encode_path_segment s = concat (map percent_encode_char s)"

definition url_path_segment :: "did \<Rightarrow> string" where
  "url_path_segment d = percent_encode_path_segment (did_to_string d)"

section \<open>Parsing\<close>

text \<open>The part of \<open>from_str\<close> after the prefix: SCID, domain and path of the pieces.\<close>

definition did_from_parts :: "did_method \<Rightarrow> string list \<Rightarrow> (did, did_error) result" where
  "did_from_parts m parts =
     and_then (ok_or (case parts of [] \<Rightarrow> None | p # _ \<Rightarrow> Some p) DIDMissingSCID)
       (\<lambda>scid_raw.
         let scid = (if scid_raw = [] then None else Some scid_raw)
         in and_then
              (ok_or (case tl parts of [] \<Rightarrow> None | p # _ \<Rightarrow> if p \<noteq> [] then Some p else None)
                 DIDMissingDomain)
              (\<lambda>dmn.
                if \<not> is_valid_domain dmn then Err DIDInvalidDomain
                else case tl (tl parts) of
                  p # _ \<Rightarrow>
                    if \<not> is_valid_path p then Err DIDInvalidPath
                    else Ok \<lparr>did_method = m, did_scid = scid, did_domain = dmn, did_path = Some p\<rparr>
                | [] \<Rightarrow> Ok \<lparr>did_method = m, did_scid = scid, did_domain = dmn, did_path = None\<rparr>))"

definition did_from_str :: "string \<Rightarrow> (did, did_error) result" where
  "did_from_str s =
     (case strip_prefix ''did:tdw:'' s of
        Some r \<Rightarrow> did_from_parts Tdw (splitn 3 (CHR '':'') r)
      | None \<Rightarrow>
          (case strip_prefix ''did:webvh:'' s of
             Some r \<Rightarrow> did_from_parts WebVh (splitn 3 (CHR '':'') r)
           | None \<Rightarrow> Err DIDMissingPrefix))"

section \<open>What a DID's text determines\<close>

text \<open>The contract of the parser: which records are well formed, and how they are written.\<close>

definition wf_did :: "did \<Rightarrow> bool" where
  "wf_did d \<longleftrightarrow>
     (\<forall>s. did_scid d = Some s \<longrightarrow> s \<noteq> [] \<and> CHR '':'' \<notin> set s)
       \<and> CHR '':'' \<notin> set (did_domain d) \<and> is_valid_domain (did_domain d)
       \<and> (\<forall>p. did_path d = Some p \<longrightarrow> is_valid_path p)"

definition did_text :: "did \<Rightarrow> string" where
  "did_text d =
     method_prefix (did_method d)
       @ (case did_scid d of Some s \<Rightarrow> s | None \<Rightarrow> []) @ '':'' @ did_domain d
       @ (case did_path d of Some p \<Rightarrow> '':'' @ p | None \<Rightarrow> [])"

lemma did_text_to_string: "did_scid d \<noteq> None \<Longrightarrow> did_to_string d = did_text d"
  by (auto simp: did_text_def did_to_string_def)


lemma splitn_3 [simp]:
  "c \<notin> set a \<Longrightarrow> splitn 3 c a = [a]"
  "c \<notin> set a \<Longrightarrow> c \<notin> set b \<Longrightarrow> splitn 3 c (a @ c # b) = [a, b]"
  "c \<notin> set a \<Longrightarrow> c \<notin> set b \<Longrightarrow> splitn 3 c (a @ c # b @ c # r) = [a, b, r]"
proof -
  have none: "split_once c b = None" if "c \<notin> set b" for b
    using that by simp
  show "c \<notin> set a \<Longrightarrow> splitn 3 c a = [a]"
    "c \<notin> set a \<Longrightarrow> c \<notin> set b \<Longrightarrow> splitn 3 c (a @ c # b) = [a, b]"
    "c \<notin> set a \<Longrightarrow> c \<notin> set b \<Longrightarrow> splitn 3 c (a @ c # b @ c # r) = [a, b, r]"
    by (simp_all add: numeral_3_eq_3 none del: split_once_none)
qed

lemma splitn_3_cases:
  obtains (one) "c \<notin> set s"
  | (two) a b where "s = a @ c # b" "c \<notin> set a" "c \<notin> set b"
  | (three) a b r where "s = a @ c # b @ c # r" "c \<notin> set a" "c \<notin> set b"
  by (metis split_list_first)

lemma is_valid_nonempty: "is_valid_domain s \<Longrightarrow> s \<noteq> []" "is_valid_path s \<Longrightarrow> s \<noteq> []"
  by (simp_all add: is_valid_domain_def is_valid_path_def)

lemma did_from_parts_simps:
  "did_from_parts m [a] = Err DIDMissingDomain"
  "did_from_parts m [a, b] =
     (if b = [] then Err DIDMissingDomain
      else if \<not> is_valid_domain b then Err DIDInvalidDomain
      else Ok \<lparr>did_method = m, did_scid = (if a = [] then None else Some a), did_domain = b,
               did_path = None\<rparr>)"
  "did_from_parts m [a, b, p] =
     (if b = [] then Err DIDMissingDomain
      else if \<not> is_valid_domain b then Err DIDInvalidDomain
      else if \<not> is_valid_path p then Err DIDInvalidPath
      else Ok \<lparr>did_method = m, did_scid = (if a = [] then None else Some a), did_domain = b,
               did_path = Some p\<rparr>)"
  by (simp_all add: did_from_parts_def Let_def)

lemma did_from_parts_sound:
  assumes "did_from_parts m (splitn 3 (CHR '':'') r) = Ok d"
  shows "wf_did d \<and> did_text d = method_prefix m @ r \<and> did_method d = m"
proof (cases rule: splitn_3_cases [of "CHR '':''" r])
  case one
  with assms show ?thesis by (simp add: did_from_parts_simps)
next
  case (two a b)
  with assms show ?thesis
    by (auto simp: did_from_parts_simps wf_did_def did_text_def split: if_splits)
next
  case (three a b p)
  with assms show ?thesis
    by (auto simp: did_from_parts_simps wf_did_def did_text_def split: if_splits)
qed

lemma did_from_parts_complete:
  assumes "wf_did d"
  shows "did_from_parts (did_method d) (splitn 3 (CHR '':'')
      ((case did_scid d of Some s \<Rightarrow> s | None \<Rightarrow> []) @ '':'' @ did_domain d
       @ (case did_path d of Some p \<Rightarrow> '':'' @ p | None \<Rightarrow> []))) = Ok d"
  using assms
  by (cases d; cases "did_scid d"; cases "did_path d")
    (auto simp: did_from_parts_simps wf_did_def is_valid_nonempty
      splitn_3 [of _ "[]", simplified])

text \<open>Every text the parser takes is the text of the DID it returns, and conversely.\<close>

lemma did_from_str_sound:
  assumes "did_from_str s = Ok d"
  shows "wf_did d \<and> s = did_text d"
proof (cases "strip_prefix ''did:tdw:'' s")
  case None
  with assms obtain r where "s = ''did:webvh:'' @ r"
      "did_from_parts WebVh (splitn 3 (CHR '':'') r) = Ok d"
    by (auto simp: did_from_str_def strip_prefix_some split: option.splits)
  with did_from_parts_sound [of WebVh r d] show ?thesis by simp
next
  case (Some r)
  with assms have "s = ''did:tdw:'' @ r" "did_from_parts Tdw (splitn 3 (CHR '':'') r) = Ok d"
    by (auto simp: did_from_str_def strip_prefix_some)
  with did_from_parts_sound [of Tdw r d] show ?thesis by simp
qed

lemma did_from_str_complete:
  assumes "wf_did d"
  shows "did_from_str (did_text d) = Ok d"
  using did_from_parts_complete [OF assms]
  by (cases "did_method d") (simp_all add: did_from_str_def did_text_def)


lemma did_from_str_to_string:
  assumes "wf_did d" "did_scid d \<noteq> None"
  shows "did_from_str (did_to_string d) = Ok d"
  using assms by (simp add: did_text_to_string did_from_str_complete)

lemma try_new_wf:
  assumes "validate_and_build m scid dmn path = Ok d"
    and "\<forall>s. scid = Some s \<longrightarrow> s \<noteq> [] \<and> CHR '':'' \<notin> set s" "CHR '':'' \<notin> set dmn"
  shows "wf_did d"
  using assms by (auto simp: validate_and_build_def wf_did_def split: option.splits if_splits)

section \<open>Percent encoding\<close>

text \<open>The decoder of the specification, for the six escapes the code writes.\<close>

fun percent_decode :: "string \<Rightarrow> string" where
  "percent_decode (p # a # b # s) =
     (if p = CHR ''%''
      then (if [a, b] = ''3A'' then CHR '':''
            else if [a, b] = ''2F'' then CHR ''/''
            else if [a, b] = ''3F'' then CHR ''?''
            else if [a, b] = ''23'' then CHR ''#''
            else if [a, b] = ''25'' then CHR ''%''
            else CHR '' '') # percent_decode s
      else p # percent_decode (a # b # s))"
| "percent_decode s = s"

lemma percent_decode_plain: "c \<noteq> CHR ''%'' \<Longrightarrow> percent_decode (c # s) = c # percent_decode s"
  by (cases s; cases "tl s") auto

lemma percent_encode_Cons [simp]:
  "percent_encode_path_segment [] = []"
  "percent_encode_path_segment (c # s) = percent_encode_char c @ percent_encode_path_segment s"
  by (simp_all add: percent_encode_path_segment_def)

lemma percent_roundtrip: "percent_decode (percent_encode_path_segment s) = s"
  by (induction s) (auto simp: percent_decode_plain)

lemma percent_encode_safe:
  "set (percent_encode_path_segment s) \<inter> set '':/?# '' = {}"
  by (induction s) auto

text \<open>A DID rendered as a URL path segment cannot break out of its segment (no colon,
  slash, question mark, hash or space is left in it), and the segment determines the
  DID's text: decoding the six escapes gives it back.\<close>

theorem url_path_segment_safe:
  "set (url_path_segment d) \<inter> set '':/?# '' = {}
     \<and> percent_decode (url_path_segment d) = did_to_string d"
  unfolding url_path_segment_def using percent_encode_safe percent_roundtrip by blast

section \<open>Log URLs\<close>

lemma did_log_url_well_known:
  "did_path d = None \<Longrightarrow> CHR ''%'' \<notin> set (did_domain d) \<Longrightarrow>
   did_log_url d = ''https://'' @ did_domain d @ ''/.well-known/did.jsonl''"
  by (simp add: did_log_url_def str_replace_absent)

end
