(* ===== verification/Json.thy ===== *)
theory Json
  imports StrLib
begin

text \<open>
  JSON values as \<open>serde_json::Value\<close> has them: a number is an unsigned or a negative
  integer or a float (here by its 64 bits), an object is a finite map, since the crate's
  default \<open>Map\<close> is an ordered map that keeps one value per key. The accessors of the
  crate, the field readers the code composes from them, and the interface of a type that is
  written to JSON and read back.
\<close>

section \<open>Values and accessors\<close>

datatype json_number = PosInt u64 | NegInt u64 | Float u64

datatype json =
    JNull
  | JBool bool
  | JNumber json_number
  | JString string
  | JArray "json list"
  | JObject "(string, json) fmap"

type_synonym json_map = "(string, json) fmap"

fun as_object :: "json \<Rightarrow> json_map option" where
  "as_object (JObject m) = Some m"
| "as_object _ = None"

fun as_str :: "json \<Rightarrow> string option" where
  "as_str (JString s) = Some s"
| "as_str _ = None"

fun as_u64 :: "json \<Rightarrow> u64 option" where
  "as_u64 (JNumber (PosInt n)) = Some n"
| "as_u64 _ = None"

fun as_bool :: "json \<Rightarrow> bool option" where
  "as_bool (JBool b) = Some b"
| "as_bool _ = None"

fun as_array :: "json \<Rightarrow> json list option" where
  "as_array (JArray xs) = Some xs"
| "as_array _ = None"

text \<open>\<open>Value::get\<close> with a string key: nothing for a value that is not an object.\<close>

fun json_get :: "json \<Rightarrow> string \<Rightarrow> json option" where
  "json_get (JObject m) k = fmlookup m k"
| "json_get _ k = None"

lemma as_object_some [simp]: "as_object v = Some m \<longleftrightarrow> v = JObject m"
  by (cases v) auto

lemma as_object_none: "as_object v = None \<longleftrightarrow> (\<nexists>m. v = JObject m)"
  by (cases v) auto

lemma as_str_some [simp]: "as_str v = Some s \<longleftrightarrow> v = JString s"
  by (cases v) auto

lemma as_array_some [simp]: "as_array v = Some xs \<longleftrightarrow> v = JArray xs"
  by (cases v) auto

lemma as_bool_some [simp]: "as_bool v = Some b \<longleftrightarrow> v = JBool b"
  by (cases v) auto

lemma as_u64_some [simp]: "as_u64 v = Some n \<longleftrightarrow> v = JNumber (PosInt n)"
  by (induction v rule: as_u64.induct) auto

lemma json_get_some: "json_get v k = Some x \<longleftrightarrow> (\<exists>m. v = JObject m \<and> fmlookup m k = Some x)"
  by (cases v) auto

section \<open>Building values\<close>

text \<open>An object literal of the \<open>json!\<close> macro: the entries inserted from left to right.\<close>

fun insert_all :: "(string \<times> json) list \<Rightarrow> json_map \<Rightarrow> json_map" where
  "insert_all [] m = m"
| "insert_all ((k, v) # kvs) m = insert_all kvs (fmupd k v m)"

definition json_obj :: "(string \<times> json) list \<Rightarrow> json" where
  "json_obj kvs = JObject (insert_all kvs fmempty)"

definition json_u64 :: "u64 \<Rightarrow> json" where
  "json_u64 n = JNumber (PosInt n)"

definition json_strings :: "string list \<Rightarrow> json" where
  "json_strings xs = JArray (map JString xs)"

text \<open>\<open>if let Some(v) = opt { map.insert(key, v) }\<close>.\<close>

fun insert_some :: "string \<Rightarrow> json option \<Rightarrow> json_map \<Rightarrow> json_map" where
  "insert_some k None m = m"
| "insert_some k (Some v) m = fmupd k v m"

lemma fmlookup_insert_some [simp]:
  "fmlookup (insert_some k x m) j = (if k = j \<and> x \<noteq> None then x else fmlookup m j)"
  by (cases x) auto

lemma as_u64_json_u64 [simp]: "as_u64 (json_u64 n) = Some n"
  by (simp add: json_u64_def)

lemma as_str_json_u64 [simp]: "as_str (json_u64 n) = None"
  by (simp add: json_u64_def)

lemma json_u64_inject [simp]: "json_u64 m = json_u64 n \<longleftrightarrow> m = n"
  by (simp add: json_u64_def)

section \<open>Reading fields\<close>

text \<open>
  The idiom \<open>obj.get(k).ok_or(missing)?.as_x().ok_or(wrong)?\<close>, for any of the accessors.
\<close>

definition field ::
  "(json \<Rightarrow> 'a option) \<Rightarrow> 'e \<Rightarrow> 'e \<Rightarrow> json_map \<Rightarrow> string \<Rightarrow> ('a, 'e) result" where
  "field acc missing wrong m k =
     and_then (ok_or (fmlookup m k) missing) (\<lambda>v. ok_or (acc v) wrong)"

lemma field_ok [ok_iff]:
  "field acc missing wrong m k = Ok x \<longleftrightarrow> (\<exists>v. fmlookup m k = Some v \<and> acc v = Some x)"
  by (auto simp: field_def ok_iff)

lemma field_lookup [simp]: "fmlookup m k = Some v \<Longrightarrow> field acc missing wrong m k = ok_or (acc v) wrong"
  by (simp add: field_def)

lemma field_missing [simp]: "fmlookup m k = None \<Longrightarrow> field acc missing wrong m k = Err missing"
  by (simp add: field_def)

text \<open>An optional field: absent, or of the right type.\<close>

definition opt_field ::
  "(json \<Rightarrow> 'a option) \<Rightarrow> 'e \<Rightarrow> json_map \<Rightarrow> string \<Rightarrow> ('a option, 'e) result" where
  "opt_field acc wrong m k =
     (case fmlookup m k of
        None \<Rightarrow> Ok None
      | Some v \<Rightarrow> and_then (ok_or (acc v) wrong) (\<lambda>x. Ok (Some x)))"

lemma opt_field_written:
  "fmlookup m k = map_option w x \<Longrightarrow> (\<And>y. acc (w y) = Some y) \<Longrightarrow> opt_field acc wrong m k = Ok x"
  by (cases x) (simp_all add: opt_field_def)

text \<open>\<open>arr.iter().map(|v| v.as_str()...ok_or(wrong)).collect()\<close>.\<close>

definition string_elements :: "'e \<Rightarrow> json list \<Rightarrow> (string list, 'e) result" where
  "string_elements wrong xs = collect_results (\<lambda>v. ok_or (as_str v) wrong) xs"

lemma string_elements_map [simp]: "string_elements wrong (map JString xs) = Ok xs"
  by (simp add: string_elements_def collect_results_map)

lemma string_elements_ok [ok_iff]: "string_elements wrong xs = Ok ys \<longleftrightarrow> xs = map JString ys"
  by (auto simp: string_elements_def ok_iff list_all2_conv_all_nth intro: nth_equalityI)

section \<open>The interface of types written to and read from JSON\<close>

text \<open>
  A type with an encoder, a decoder and the values for which decoding undoes encoding.
  The laws below serve every type of the library that has both directions.
\<close>

locale json_codec =
  fixes enc :: "'a \<Rightarrow> json"
    and dec :: "json \<Rightarrow> ('a, 'e) result"
    and valid :: "'a \<Rightarrow> bool"
  assumes dec_enc: "valid a \<Longrightarrow> dec (enc a) = Ok a"
begin

lemma enc_inj: "valid a \<Longrightarrow> valid b \<Longrightarrow> enc a = enc b \<Longrightarrow> a = b"
  by (metis dec_enc sum.inject(2))

lemma dec_is_ok: "valid a \<Longrightarrow> is_ok (dec (enc a))"
  by (simp add: dec_enc)

lemma dec_list: "list_all valid as \<Longrightarrow> collect_results dec (map enc as) = Ok as"
  by (rule collect_results_map) (simp add: dec_enc list_all_iff)

lemma list_inj:
  "list_all valid as \<Longrightarrow> list_all valid bs \<Longrightarrow> map enc as = map enc bs \<Longrightarrow> as = bs"
  by (metis dec_list sum.inject(2))

lemma dec_field: "valid a \<Longrightarrow> fmlookup m k = Some (enc a) \<Longrightarrow>
  and_then (ok_or (fmlookup m k) missing) dec = Ok a"
  by (simp add: dec_enc)

end

text \<open>A decoder that returns only valid values, and only from their own encoding of some
  normal form: then re-encoding what was read, and reading again, is stable.\<close>

locale json_parser = json_codec +
  assumes dec_valid: "dec v = Ok a \<Longrightarrow> valid a"
begin

lemma reparse: "dec v = Ok a \<Longrightarrow> dec (enc a) = Ok a"
  using dec_valid dec_enc by blast

lemma same_enc_same_value: "dec v = Ok a \<Longrightarrow> dec w = Ok b \<Longrightarrow> enc a = enc b \<Longrightarrow> a = b"
  using dec_valid enc_inj by blast

lemma reparse_list: "collect_results dec vs = Ok as \<Longrightarrow> collect_results dec (map enc as) = Ok as"
proof (rule dec_list)
  assume "collect_results dec vs = Ok as"
  then have "list_all2 (\<lambda>v a. dec v = Ok a) vs as" by (simp add: ok_iff)
  then show "list_all valid as"
    by (induction rule: list_all2_induct) (auto intro: dec_valid)
qed

end

end
