(* ===== verification/Externals.thy ===== *)
theory Externals
  imports Json
begin

text \<open>
  The crates the code calls, as parameters: encodings (\<open>base64\<close>, \<open>bs58\<close>, \<open>flate2\<close>),
  hashes (\<open>sha2\<close>, \<open>multihash\<close>), the JSON text formats (\<open>serde_json\<close>, \<open>serde_jcs\<close>) and the
  signature schemes (\<open>ed25519_dalek\<close>, \<open>p256\<close>). A decoder's error is the text of its
  \<open>Display\<close>. The documented laws used by theorems are the named predicates here, and the plain
  instances at the end show each of them can hold.
\<close>

section \<open>Encodings and hashes\<close>

record codecs =
  b64_encode :: "u8 list \<Rightarrow> string"
  b64_decode :: "string \<Rightarrow> (u8 list, string) result"
  bs58_encode :: "u8 list \<Rightarrow> string"
  bs58_decode :: "string \<Rightarrow> (u8 list, string) result"
  zlib_compress :: "u8 list \<Rightarrow> u8 list"
  zlib_decompress :: "u8 list \<Rightarrow> (u8 list, string) result"
  sha256 :: "u8 list \<Rightarrow> u8 list"
  multihash_sha256 :: "u8 list \<Rightarrow> u8 list"
  multihash_to_bytes :: "u64 \<Rightarrow> u8 list \<Rightarrow> u8 list"
  multihash_from_bytes :: "u8 list \<Rightarrow> (u64 \<times> u8 \<times> u8 list, string) result"
  jcs_to_vec :: "json \<Rightarrow> u8 list"
  jcs_to_string :: "json \<Rightarrow> (string, string) result"
  json_to_string :: "json \<Rightarrow> string"
  json_from_str :: "string \<Rightarrow> (json, string) result"
  json_from_slice :: "u8 list \<Rightarrow> (json, string) result"

definition b64_law :: "codecs \<Rightarrow> bool" where
  "b64_law c \<longleftrightarrow> (\<forall>bs. b64_decode c (b64_encode c bs) = Ok bs)"

definition bs58_law :: "codecs \<Rightarrow> bool" where
  "bs58_law c \<longleftrightarrow> (\<forall>bs. bs58_decode c (bs58_encode c bs) = Ok bs)"

definition zlib_law :: "codecs \<Rightarrow> bool" where
  "zlib_law c \<longleftrightarrow> (\<forall>bs. zlib_decompress c (zlib_compress c bs) = Ok bs)"

text \<open>What \<open>serde_json\<close> writes, it reads back.\<close>

definition json_text_law :: "codecs \<Rightarrow> json \<Rightarrow> bool" where
  "json_text_law c v \<longleftrightarrow>
     json_from_str c (json_to_string c v) = Ok v
       \<and> json_from_slice c (as_bytes (json_to_string c v)) = Ok v"

lemma b64_lawD [simp]: "b64_law c \<Longrightarrow> b64_decode c (b64_encode c bs) = Ok bs"
  by (simp add: b64_law_def)

lemma bs58_lawD [simp]: "bs58_law c \<Longrightarrow> bs58_decode c (bs58_encode c bs) = Ok bs"
  by (simp add: bs58_law_def)

lemma zlib_lawD [simp]: "zlib_law c \<Longrightarrow> zlib_decompress c (zlib_compress c bs) = Ok bs"
  by (simp add: zlib_law_def)

section \<open>Signature schemes\<close>

text \<open>
  Public keys are opaque: \<open>'ed\<close> an Ed25519 and \<open>'ec\<close> a P-256 verifying key. A parser of a key
  returns the key or the text of its error; \<open>ec_sig_ok\<close> is \<open>Signature::from_slice\<close> accepting
  the bytes, and the two \<open>verify\<close> functions tell whether the signature is valid.
\<close>

record ('ed, 'ec) verifiers =
  ed_from_bytes :: "u8 list \<Rightarrow> ('ed, string) result"
  ed_verify :: "'ed \<Rightarrow> u8 list \<Rightarrow> u8 list \<Rightarrow> bool"
  ec_from_sec1 :: "u8 list \<Rightarrow> ('ec, string) result"
  ec_sig_ok :: "u8 list \<Rightarrow> bool"
  ec_verify :: "'ec \<Rightarrow> u8 list \<Rightarrow> u8 list \<Rightarrow> bool"

text \<open>A signing key: its public half and the signatures it makes.\<close>

record ed_signer =
  ed_public :: "u8 list"
  ed_sign :: "u8 list \<Rightarrow> u8 list"

text \<open>What a signature scheme promises of a signer's key: 32 bytes that parse, 64-byte
  signatures, and every signature the signer makes verifies.\<close>

definition ed_sound :: "('ed, 'ec, 'x) verifiers_scheme \<Rightarrow> ed_signer \<Rightarrow> bool" where
  "ed_sound v s \<longleftrightarrow>
     length (ed_public s) = 32
       \<and> (\<exists>k. ed_from_bytes v (ed_public s) = Ok k
             \<and> (\<forall>msg. ed_verify v k msg (ed_sign s msg)))
       \<and> (\<forall>msg. length (ed_sign s msg) = 64)"

section \<open>Plain instances\<close>

text \<open>Encodings that leave bytes as they are: every law above holds of them.\<close>

definition bytes_text :: "u8 list \<Rightarrow> string" where
  "bytes_text bs = map (\<lambda>b. char_of (unat b)) bs"

lemma as_bytes_text [simp]: "as_bytes (bytes_text bs) = bs"
proof -
  have "(of_char (char_of (unat b) :: char) :: u8) = b" for b :: u8
  proof (rule unsigned_word_eqI [where ?'a = nat])
    show "unat (of_char (char_of (unat b) :: char) :: u8) = unat b"
      using unat_u8_less [of b] by (simp add: unat_of_char_u8)
  qed
  then show ?thesis by (simp add: as_bytes_def bytes_text_def comp_def)
qed

lemma bytes_text_of_bytes [simp]: "bytes_text (as_bytes s) = s"
  by (metis as_bytes_inj as_bytes_text)

definition plain_codecs :: codecs where
  "plain_codecs =
     \<lparr>b64_encode = bytes_text, b64_decode = (\<lambda>s. Ok (as_bytes s)),
      bs58_encode = bytes_text, bs58_decode = (\<lambda>s. Ok (as_bytes s)),
      zlib_compress = (\<lambda>bs. bs), zlib_decompress = (\<lambda>bs. Ok bs),
      sha256 = (\<lambda>bs. take 32 (bs @ replicate 32 0)), multihash_sha256 = (\<lambda>bs. [0x12, 0x20] @ bs),
      multihash_to_bytes = (\<lambda>code bs. ucast code # of_nat (length bs) # bs),
      multihash_from_bytes = (\<lambda>bs. case bs of
          code # n # rest \<Rightarrow>
            if n = of_nat (length rest) then Ok (ucast code, n, rest) else Err ''size''
        | _ \<Rightarrow> Err ''short''),
      jcs_to_vec = (\<lambda>v. case v of JString s \<Rightarrow> as_bytes s | _ \<Rightarrow> []),
      jcs_to_string = (\<lambda>v. case v of JString s \<Rightarrow> Ok s | _ \<Rightarrow> Ok []),
      json_to_string = (\<lambda>v. case v of JString s \<Rightarrow> s | _ \<Rightarrow> []),
      json_from_str = (\<lambda>s. Ok (JString s)),
      json_from_slice = (\<lambda>bs. Ok (JString (bytes_text bs)))\<rparr>"

lemma plain_codecs_laws [simp]: "b64_law plain_codecs" "bs58_law plain_codecs" "zlib_law plain_codecs"
  by (simp_all add: b64_law_def bs58_law_def zlib_law_def plain_codecs_def)

lemma in_bytes_text: "ch \<in> set (bytes_text bs) \<longleftrightarrow> of_char ch \<in> set bs"
proof -
  have "set (as_bytes (bytes_text bs)) = of_char ` set (bytes_text bs)"
    by (simp add: as_bytes_def)
  then have "set bs = of_char ` set (bytes_text bs)" by simp
  then show ?thesis by (auto simp: image_iff)
qed

text \<open>A signature scheme whose signatures are the key and half of the message.\<close>

definition plain_verifiers :: "(u8 list, u8 list) verifiers" where
  "plain_verifiers =
     \<lparr>ed_from_bytes = (\<lambda>bs. Ok bs), ed_verify = (\<lambda>k msg sig. sig = k @ take 32 (msg @ replicate 32 0)),
      ec_from_sec1 = (\<lambda>bs. Ok bs), ec_sig_ok = (\<lambda>bs. True),
      ec_verify = (\<lambda>k msg sig. take 32 sig = take 32 (msg @ replicate 32 0))\<rparr>"

definition plain_signer :: ed_signer where
  "plain_signer =
     \<lparr>ed_public = replicate 32 1,
      ed_sign = (\<lambda>msg. replicate 32 1 @ take 32 (msg @ replicate 32 0))\<rparr>"

lemma plain_sound: "ed_sound plain_verifiers plain_signer"
  by (auto simp: ed_sound_def plain_verifiers_def plain_signer_def min_def)

end
