(* ===== verification/DocFields.thy ===== *)
theory DocFields
  imports Externals
begin

text \<open>
  The error type and the field readers of \<open>swiyu-core/src/diddoc/mod.rs\<close> that the parsers
  of keys and of documents share, each with what it returns on a written field.
\<close>

datatype diddoc_error =
    DDMissingField string
  | DDInvalidFieldType string
  | DDInvalidFormat string

definition show_diddoc_error :: "diddoc_error \<Rightarrow> string" where
  "show_diddoc_error er =
     (case er of
        DDMissingField f \<Rightarrow> ''missing required field: '' @ f
      | DDInvalidFieldType m \<Rightarrow> ''invalid field type: '' @ m
      | DDInvalidFormat m \<Rightarrow> ''invalid format: '' @ m)"

definition must_be :: "string \<Rightarrow> string \<Rightarrow> diddoc_error" where
  "must_be key what = DDInvalidFieldType (quoted key @ what)"

definition required_string :: "json_map \<Rightarrow> string \<Rightarrow> (string, diddoc_error) result" where
  "required_string obj key =
     field as_str (DDMissingField key) (must_be key '' must be a string'') obj key"

definition optional_string :: "json_map \<Rightarrow> string \<Rightarrow> (string option, diddoc_error) result" where
  "optional_string obj key =
     (case fmlookup obj key of
        None \<Rightarrow> Ok None
      | Some v \<Rightarrow> and_then (ok_or (as_str v) (must_be key '' must be a string'')) (\<lambda>s. Ok (Some s)))"

definition optional_string_array ::
  "json_map \<Rightarrow> string \<Rightarrow> (string list option, diddoc_error) result" where
  "optional_string_array obj key =
     (case fmlookup obj key of
        None \<Rightarrow> Ok None
      | Some v \<Rightarrow>
          and_then (ok_or (as_array v) (must_be key '' must be an array'')) (\<lambda>arr.
          and_then (string_elements (must_be key '' elements must be strings'') arr) (\<lambda>ss.
            Ok (Some ss))))"

definition string_or_array :: "json_map \<Rightarrow> string \<Rightarrow> (string list, diddoc_error) result" where
  "string_or_array obj key =
     (case fmlookup obj key of
        None \<Rightarrow> Ok []
      | Some (JString s) \<Rightarrow> Ok [s]
      | Some (JArray arr) \<Rightarrow> string_elements (must_be key '' elements must be strings'') arr
      | Some _ \<Rightarrow> Err (must_be key '' must be a string or array of strings''))"

text \<open>
  The three array readers of the document parser differ in their element parser only: a
  missing array is empty, every element must parse.
\<close>

definition parse_array ::
  "(json \<Rightarrow> ('a, diddoc_error) result) \<Rightarrow> json_map \<Rightarrow> string \<Rightarrow> ('a list, diddoc_error) result" where
  "parse_array p obj key =
     (case fmlookup obj key of
        None \<Rightarrow> Ok []
      | Some v \<Rightarrow>
          and_then (ok_or (as_array v) (must_be key '' must be an array'')) (collect_results p))"

lemma required_string_written [simp]: "fmlookup m k = Some (JString s) \<Longrightarrow> required_string m k = Ok s"
  by (simp add: required_string_def)

lemma required_string_ok [ok_iff]: "required_string m k = Ok s \<longleftrightarrow> fmlookup m k = Some (JString s)"
  by (auto simp: required_string_def field_ok)

lemma optional_string_written:
  "fmlookup m k = map_option JString s \<Longrightarrow> optional_string m k = Ok s"
  by (cases s) (simp_all add: optional_string_def)

lemma optional_string_ok [ok_iff]:
  "optional_string m k = Ok s \<longleftrightarrow> fmlookup m k = map_option JString s"
  by (cases s) (auto simp: optional_string_def ok_iff split: option.splits)

lemma optional_string_array_written:
  "fmlookup m k = map_option json_strings ss \<Longrightarrow> optional_string_array m k = Ok ss"
  by (cases ss) (simp_all add: optional_string_array_def json_strings_def)

lemma optional_string_array_ok [ok_iff]:
  "optional_string_array m k = Ok ss \<longleftrightarrow> fmlookup m k = map_option json_strings ss"
  by (cases ss) (auto simp: optional_string_array_def json_strings_def ok_iff split: option.splits)

lemma parse_array_missing: "fmlookup m k = None \<Longrightarrow> parse_array p m k = Ok []"
  by (simp add: parse_array_def)

lemma parse_array_written:
  "fmlookup m k = Some (JArray (map enc xs)) \<Longrightarrow> (\<And>x. x \<in> set xs \<Longrightarrow> p (enc x) = Ok x) \<Longrightarrow>
   parse_array p m k = Ok xs"
  by (simp add: parse_array_def collect_results_map)

end
