(* ===== verification/PublicKeys.thy ===== *)
theory PublicKeys
  imports DocFields
begin

text \<open>
  Public keys of DID documents, \<open>swiyu-core/src/diddoc/public_keys.rs\<close>: JSON Web Keys of
  the three key types with their JSON forms, multibase keys with their texts, and the
  multikey encoding of Ed25519 keys.
\<close>

section \<open>Fields shared by the key types\<close>

datatype key_use = Sig | Enc

fun show_key_use :: "key_use \<Rightarrow> string" where
  "show_key_use Sig = ''sig''"
| "show_key_use Enc = ''enc''"

definition key_use_from_str :: "string \<Rightarrow> (key_use, diddoc_error) result" where
  "key_use_from_str s =
     (if s = ''sig'' then Ok Sig
      else if s = ''enc'' then Ok Enc
      else Err (DDInvalidFormat (''unknown key use '' @ quoted s @ ''; expected '' @ quoted ''sig''
             @ '' or '' @ quoted ''enc'')))"

definition parse_key_use :: "json_map \<Rightarrow> (key_use option, diddoc_error) result" where
  "parse_key_use obj =
     (case fmlookup obj ''use'' of
        None \<Rightarrow> Ok None
      | Some v \<Rightarrow>
          and_then (ok_or (as_str v) (DDInvalidFieldType (quoted ''use'' @ '' must be a string'')))
            (\<lambda>s. and_then (key_use_from_str s) (\<lambda>u. Ok (Some u))))"

definition insert_jwk_optional_fields ::
  "key_use option \<Rightarrow> string list option \<Rightarrow> string option \<Rightarrow> string option \<Rightarrow> json_map \<Rightarrow> json_map" where
  "insert_jwk_optional_fields u ops al kd m =
     insert_some ''kid'' (map_option JString kd)
      (insert_some ''alg'' (map_option JString al)
       (insert_some ''key_ops'' (map_option json_strings ops)
        (insert_some ''use'' (map_option (\<lambda>x. JString (show_key_use x)) u) m)))"

lemma key_use_roundtrip [simp]: "key_use_from_str (show_key_use u) = Ok u"
  by (cases u) (simp_all add: key_use_from_str_def)

lemma jwk_optional_lookup:
  "fmlookup (insert_jwk_optional_fields u ops al kd m) k =
     (if k = ''kid'' \<and> kd \<noteq> None then map_option JString kd
      else if k = ''alg'' \<and> al \<noteq> None then map_option JString al
      else if k = ''key_ops'' \<and> ops \<noteq> None then map_option json_strings ops
      else if k = ''use'' \<and> u \<noteq> None then map_option (\<lambda>x. JString (show_key_use x)) u
      else fmlookup m k)"
  by (auto simp: insert_jwk_optional_fields_def)

text \<open>What the readers return on a map the writer filled.\<close>

lemma jwk_optional_read:
  assumes "fmlookup m ''use'' = None" "fmlookup m ''key_ops'' = None"
    "fmlookup m ''alg'' = None" "fmlookup m ''kid'' = None"
  shows "parse_key_use (insert_jwk_optional_fields u ops al kd m) = Ok u"
    "optional_string_array (insert_jwk_optional_fields u ops al kd m) ''key_ops'' = Ok ops"
    "optional_string (insert_jwk_optional_fields u ops al kd m) ''alg'' = Ok al"
    "optional_string (insert_jwk_optional_fields u ops al kd m) ''kid'' = Ok kd"
proof -
  show "parse_key_use (insert_jwk_optional_fields u ops al kd m) = Ok u"
    using assms by (cases u) (simp_all add: parse_key_use_def jwk_optional_lookup)
  show "optional_string_array (insert_jwk_optional_fields u ops al kd m) ''key_ops'' = Ok ops"
    using assms by (auto simp: ok_iff jwk_optional_lookup)
  show "optional_string (insert_jwk_optional_fields u ops al kd m) ''alg'' = Ok al"
    using assms by (auto simp: ok_iff jwk_optional_lookup)
  show "optional_string (insert_jwk_optional_fields u ops al kd m) ''kid'' = Ok kd"
    using assms by (auto simp: ok_iff jwk_optional_lookup)
qed

section \<open>Elliptic curve keys\<close>

record ec_key =
  ec_crv :: string
  ec_x :: string
  ec_y :: string
  ec_use :: "key_use option"
  ec_key_ops :: "string list option"
  ec_alg :: "string option"
  ec_kid :: "string option"

definition ec_key_new :: "string \<Rightarrow> string \<Rightarrow> string \<Rightarrow> ec_key" where
  "ec_key_new crv x y =
     \<lparr>ec_crv = crv, ec_x = x, ec_y = y, ec_use = None, ec_key_ops = None, ec_alg = None,
      ec_kid = None\<rparr>"

definition ec_from_p256_coordinates :: "codecs \<Rightarrow> u8 list \<Rightarrow> u8 list \<Rightarrow> ec_key" where
  "ec_from_p256_coordinates c x y = ec_key_new ''P-256'' (b64_encode c x) (b64_encode c y)"

definition ec_with_kid :: "ec_key \<Rightarrow> string \<Rightarrow> ec_key" where
  "ec_with_kid k kd = k\<lparr>ec_kid := Some kd\<rparr>"

definition ec_from_map :: "json_map \<Rightarrow> (ec_key, diddoc_error) result" where
  "ec_from_map obj =
     and_then (required_string obj ''crv'') (\<lambda>crv.
     and_then (required_string obj ''x'') (\<lambda>x.
     and_then (required_string obj ''y'') (\<lambda>y.
     and_then (parse_key_use obj) (\<lambda>u.
     and_then (optional_string_array obj ''key_ops'') (\<lambda>ops.
     and_then (optional_string obj ''alg'') (\<lambda>al.
     and_then (optional_string obj ''kid'') (\<lambda>kd.
       Ok \<lparr>ec_crv = crv, ec_x = x, ec_y = y, ec_use = u, ec_key_ops = ops, ec_alg = al,
           ec_kid = kd\<rparr>)))))))"

definition ec_to_json :: "ec_key \<Rightarrow> json" where
  "ec_to_json k =
     JObject (insert_jwk_optional_fields (ec_use k) (ec_key_ops k) (ec_alg k) (ec_kid k)
       (insert_all [(''kty'', JString ''EC''), (''crv'', JString (ec_crv k)),
                    (''x'', JString (ec_x k)), (''y'', JString (ec_y k))] fmempty))"

datatype ec_key_error =
    ECUnsupportedCurve string
  | ECInvalidCoordinate string string
  | ECInvalidPublicKey string

definition show_ec_key_error :: "ec_key_error \<Rightarrow> string" where
  "show_ec_key_error er =
     (case er of
        ECUnsupportedCurve crv \<Rightarrow>
           ''unsupported curve '' @ quoted crv @ '' (expected '' @ quoted ''P-256'' @ '')''
      | ECInvalidCoordinate coord reason \<Rightarrow>
           ''JWK '' @ quoted coord @ '' not base64url: '' @ reason
      | ECInvalidPublicKey reason \<Rightarrow> ''invalid P-256 public key: '' @ reason)"

definition ec_verifying_key ::
  "codecs \<Rightarrow> ('ed, 'ec) verifiers \<Rightarrow> ec_key \<Rightarrow> ('ec, ec_key_error) result" where
  "ec_verifying_key c vs k =
     (if ec_crv k \<noteq> ''P-256'' then Err (ECUnsupportedCurve (ec_crv k))
      else
        and_then (map_err (ECInvalidCoordinate ''x'') (b64_decode c (ec_x k))) (\<lambda>x.
        and_then (map_err (ECInvalidCoordinate ''y'') (b64_decode c (ec_y k))) (\<lambda>y.
          map_err ECInvalidPublicKey (ec_from_sec1 vs ([0x04] @ x @ y)))))"

section \<open>Octet key pairs\<close>

record okp_key =
  okp_crv :: string
  okp_x :: string
  okp_use :: "key_use option"
  okp_key_ops :: "string list option"
  okp_alg :: "string option"
  okp_kid :: "string option"

definition okp_key_new :: "string \<Rightarrow> string \<Rightarrow> okp_key" where
  "okp_key_new crv x =
     \<lparr>okp_crv = crv, okp_x = x, okp_use = None, okp_key_ops = None, okp_alg = None,
      okp_kid = None\<rparr>"

definition okp_from_ed25519_bytes :: "codecs \<Rightarrow> u8 list \<Rightarrow> okp_key" where
  "okp_from_ed25519_bytes c key = okp_key_new ''Ed25519'' (b64_encode c key)"

definition okp_from_map :: "json_map \<Rightarrow> (okp_key, diddoc_error) result" where
  "okp_from_map obj =
     and_then (required_string obj ''crv'') (\<lambda>crv.
     and_then (required_string obj ''x'') (\<lambda>x.
     and_then (parse_key_use obj) (\<lambda>u.
     and_then (optional_string_array obj ''key_ops'') (\<lambda>ops.
     and_then (optional_string obj ''alg'') (\<lambda>al.
     and_then (optional_string obj ''kid'') (\<lambda>kd.
       Ok \<lparr>okp_crv = crv, okp_x = x, okp_use = u, okp_key_ops = ops, okp_alg = al,
           okp_kid = kd\<rparr>))))))"

definition okp_to_json :: "okp_key \<Rightarrow> json" where
  "okp_to_json k =
     JObject (insert_jwk_optional_fields (okp_use k) (okp_key_ops k) (okp_alg k) (okp_kid k)
       (insert_all [(''kty'', JString ''OKP''), (''crv'', JString (okp_crv k)),
                    (''x'', JString (okp_x k))] fmempty))"

section \<open>RSA keys\<close>

record rsa_key =
  rsa_n :: string
  rsa_e :: string
  rsa_use :: "key_use option"
  rsa_key_ops :: "string list option"
  rsa_alg :: "string option"
  rsa_kid :: "string option"

definition rsa_key_new :: "string \<Rightarrow> string \<Rightarrow> rsa_key" where
  "rsa_key_new n e =
     \<lparr>rsa_n = n, rsa_e = e, rsa_use = None, rsa_key_ops = None, rsa_alg = None, rsa_kid = None\<rparr>"

definition rsa_from_map :: "json_map \<Rightarrow> (rsa_key, diddoc_error) result" where
  "rsa_from_map obj =
     and_then (required_string obj ''n'') (\<lambda>n.
     and_then (required_string obj ''e'') (\<lambda>e.
     and_then (parse_key_use obj) (\<lambda>u.
     and_then (optional_string_array obj ''key_ops'') (\<lambda>ops.
     and_then (optional_string obj ''alg'') (\<lambda>al.
     and_then (optional_string obj ''kid'') (\<lambda>kd.
       Ok \<lparr>rsa_n = n, rsa_e = e, rsa_use = u, rsa_key_ops = ops, rsa_alg = al,
           rsa_kid = kd\<rparr>))))))"

definition rsa_to_json :: "rsa_key \<Rightarrow> json" where
  "rsa_to_json k =
     JObject (insert_jwk_optional_fields (rsa_use k) (rsa_key_ops k) (rsa_alg k) (rsa_kid k)
       (insert_all [(''kty'', JString ''RSA''), (''n'', JString (rsa_n k)),
                    (''e'', JString (rsa_e k))] fmempty))"

section \<open>JSON Web Keys\<close>

datatype public_key_jwk = EC ec_key | OKP okp_key | RSA rsa_key

fun jwk_kty :: "public_key_jwk \<Rightarrow> string" where
  "jwk_kty (EC _) = ''EC''"
| "jwk_kty (OKP _) = ''OKP''"
| "jwk_kty (RSA _) = ''RSA''"

fun jwk_crv :: "public_key_jwk \<Rightarrow> string option" where
  "jwk_crv (EC k) = Some (ec_crv k)"
| "jwk_crv (OKP k) = Some (okp_crv k)"
| "jwk_crv (RSA _) = None"

fun jwk_x :: "public_key_jwk \<Rightarrow> string option" where
  "jwk_x (EC k) = Some (ec_x k)"
| "jwk_x (OKP k) = Some (okp_x k)"
| "jwk_x (RSA _) = None"

fun jwk_y :: "public_key_jwk \<Rightarrow> string option" where
  "jwk_y (EC k) = Some (ec_y k)"
| "jwk_y _ = None"

fun jwk_n :: "public_key_jwk \<Rightarrow> string option" where
  "jwk_n (RSA k) = Some (rsa_n k)"
| "jwk_n _ = None"

fun jwk_e :: "public_key_jwk \<Rightarrow> string option" where
  "jwk_e (RSA k) = Some (rsa_e k)"
| "jwk_e _ = None"

fun jwk_use :: "public_key_jwk \<Rightarrow> key_use option" where
  "jwk_use (EC k) = ec_use k"
| "jwk_use (OKP k) = okp_use k"
| "jwk_use (RSA k) = rsa_use k"

fun jwk_key_ops :: "public_key_jwk \<Rightarrow> string list option" where
  "jwk_key_ops (EC k) = ec_key_ops k"
| "jwk_key_ops (OKP k) = okp_key_ops k"
| "jwk_key_ops (RSA k) = rsa_key_ops k"

fun jwk_alg :: "public_key_jwk \<Rightarrow> string option" where
  "jwk_alg (EC k) = ec_alg k"
| "jwk_alg (OKP k) = okp_alg k"
| "jwk_alg (RSA k) = rsa_alg k"

fun jwk_kid :: "public_key_jwk \<Rightarrow> string option" where
  "jwk_kid (EC k) = ec_kid k"
| "jwk_kid (OKP k) = okp_kid k"
| "jwk_kid (RSA k) = rsa_kid k"

fun jwk_to_json :: "public_key_jwk \<Rightarrow> json" where
  "jwk_to_json (EC k) = ec_to_json k"
| "jwk_to_json (OKP k) = okp_to_json k"
| "jwk_to_json (RSA k) = rsa_to_json k"

definition jwk_from_json :: "json \<Rightarrow> (public_key_jwk, diddoc_error) result" where
  "jwk_from_json v =
     and_then (ok_or (as_object v) (DDInvalidFieldType ''publicKeyJwk must be a JSON object''))
       (\<lambda>obj.
     and_then (required_string obj ''kty'') (\<lambda>kty.
       if kty = ''EC'' then and_then (ec_from_map obj) (\<lambda>k. Ok (EC k))
       else if kty = ''OKP'' then and_then (okp_from_map obj) (\<lambda>k. Ok (OKP k))
       else if kty = ''RSA'' then and_then (rsa_from_map obj) (\<lambda>k. Ok (RSA k))
       else Err (DDInvalidFormat (''unsupported JWK key type '' @ quoted kty @ ''; expected ''
              @ quoted ''EC'' @ '', '' @ quoted ''OKP'' @ '', or '' @ quoted ''RSA''))))"

lemma key_map_roundtrip:
  "as_object (ec_to_json k) = Some m \<Longrightarrow> ec_from_map m = Ok k \<and> required_string m ''kty'' = Ok ''EC''"
  "as_object (okp_to_json o') = Some m \<Longrightarrow>
     okp_from_map m = Ok o' \<and> required_string m ''kty'' = Ok ''OKP''"
  "as_object (rsa_to_json r) = Some m \<Longrightarrow>
     rsa_from_map m = Ok r \<and> required_string m ''kty'' = Ok ''RSA''"
  by (auto simp: ec_to_json_def okp_to_json_def rsa_to_json_def ec_from_map_def okp_from_map_def
      rsa_from_map_def jwk_optional_read jwk_optional_lookup)

interpretation jwk_codec: json_parser jwk_to_json jwk_from_json "\<lambda>_. True"
proof unfold_locales
  fix k show "jwk_from_json (jwk_to_json k) = Ok k"
  proof (cases k)
    case (EC e)
    obtain m where "ec_to_json e = JObject m" by (simp add: ec_to_json_def)
    with EC key_map_roundtrip(1) [of e m] show ?thesis by (simp add: jwk_from_json_def)
  next
    case (OKP e)
    obtain m where "okp_to_json e = JObject m" by (simp add: okp_to_json_def)
    with OKP key_map_roundtrip(2) [of e m] show ?thesis by (simp add: jwk_from_json_def)
  next
    case (RSA e)
    obtain m where "rsa_to_json e = JObject m" by (simp add: rsa_to_json_def)
    with RSA key_map_roundtrip(3) [of e m] show ?thesis by (simp add: jwk_from_json_def)
  qed
qed simp

lemma jwk_kty_written: "json_get (jwk_to_json k) ''kty'' = Some (JString (jwk_kty k))"
  by (cases k) (simp_all add: ec_to_json_def okp_to_json_def rsa_to_json_def jwk_optional_lookup)

text \<open>JSON Web Keys keep their fields. Every key, with any combination of its optional
  \<open>use\<close>, \<open>key_ops\<close>, \<open>alg\<close> and \<open>kid\<close>, is read back unchanged from its JSON form, which
  carries its type; and whatever JSON is accepted as a key, writing the key and reading it
  again is stable.\<close>

theorem jwk_roundtrip:
  "jwk_from_json (jwk_to_json k) = Ok k
     \<and> json_get (jwk_to_json k) ''kty'' = Some (JString (jwk_kty k))
     \<and> map_err (\<lambda>_. ()) (and_then (jwk_from_json v) (\<lambda>x. jwk_from_json (jwk_to_json x)))
         = map_err (\<lambda>_. ()) (jwk_from_json v)"
  using jwk_codec.dec_enc [of k] jwk_kty_written [of k] jwk_codec.reparse [of v]
  by (cases "jwk_from_json v") auto

section \<open>Multibase keys\<close>

record public_key_multibase =
  mb_key :: "u8 list"

definition multicodec_ed25519 :: "u8 list" where
  "multicodec_ed25519 = [0xed, 0x01]"

definition mb_new :: "u8 list \<Rightarrow> public_key_multibase" where
  "mb_new key = \<lparr>mb_key = key\<rparr>"

definition mb_from_ed25519_bytes :: "u8 list \<Rightarrow> public_key_multibase" where
  "mb_from_ed25519_bytes key = \<lparr>mb_key = multicodec_ed25519 @ key\<rparr>"

text \<open>The first character of a text is its first byte with the continuation bytes after it.\<close>

definition mb_from_str :: "codecs \<Rightarrow> string \<Rightarrow> (public_key_multibase, diddoc_error) result" where
  "mb_from_str c s =
     (case s of
        [] \<Rightarrow> Err (DDInvalidFormat ''empty multibase string'')
      | ch # rest \<Rightarrow>
          if ch \<noteq> CHR ''z''
          then Err (DDInvalidFormat (''unsupported multibase prefix ''
                 @ quoted (ch # takeWhile utf8_continuation rest) @ ''; only '' @ quoted ''z''
                 @ '' (base58btc) is supported''))
          else
            and_then
              (map_err (\<lambda>e. DDInvalidFormat (''invalid base58btc encoding: '' @ e)) (bs58_decode c rest))
              (\<lambda>key. Ok \<lparr>mb_key = key\<rparr>))"

definition mb_to_string :: "codecs \<Rightarrow> public_key_multibase \<Rightarrow> string" where
  "mb_to_string c mb = ''z'' @ bs58_encode c (mb_key mb)"

definition multikey_of :: "codecs \<Rightarrow> u8 list \<Rightarrow> string" where
  "multikey_of c key = ''z'' @ bs58_encode c (multicodec_ed25519 @ key)"

definition bs58_carries :: "codecs \<Rightarrow> u8 list \<Rightarrow> bool" where
  "bs58_carries c bs \<longleftrightarrow> bs58_decode c (bs58_encode c bs) = Ok bs"

lemma mb_roundtrip: "bs58_carries c (mb_key mb) \<Longrightarrow> mb_from_str c (mb_to_string c mb) = Ok mb"
  by (simp add: mb_from_str_def mb_to_string_def bs58_carries_def)

lemma multikey_of_mb: "multikey_of c key = mb_to_string c (mb_from_ed25519_bytes key)"
  by (simp add: multikey_of_def mb_to_string_def mb_from_ed25519_bytes_def)

interpretation multibase_codec: json_codec "\<lambda>mb. JString (mb_to_string c mb)"
    "\<lambda>v. and_then (ok_or (as_str v) (DDInvalidFormat [])) (mb_from_str c)"
    "\<lambda>mb. bs58_carries c (mb_key mb)" for c
  by unfold_locales (simp add: mb_roundtrip)

section \<open>The key of a verification method\<close>

datatype public_key = Jwk public_key_jwk | Multibase public_key_multibase

record p256_public_key =
  p256_x :: "u8 list"
  p256_y :: "u8 list"

end
