(* ===== verification/DidDoc.thy ===== *)
theory DidDoc
  imports PublicKeys
begin

text \<open>
  DID documents, \<open>swiyu-core/src/diddoc/mod.rs\<close>: verification methods, services and the
  document, their builders, the document of a new DID, and the JSON-LD production and
  consumption with the round trip between them.
\<close>

section \<open>Data\<close>

record verification_method =
  vm_id :: string
  vm_type :: string
  vm_controller :: string
  vm_public_key :: public_key

datatype verification_method_or_ref = Embedded verification_method | Reference string

record service =
  svc_id :: string
  svc_type :: "string list"
  svc_endpoint :: json

record diddoc =
  dd_context :: json
  dd_id :: string
  dd_also_known_as :: "string list"
  dd_controller :: "string list"
  dd_verification_method :: "verification_method list"
  dd_authentication :: "verification_method_or_ref list"
  dd_assertion_method :: "verification_method_or_ref list"
  dd_key_agreement :: "verification_method_or_ref list"
  dd_capability_invocation :: "verification_method_or_ref list"
  dd_capability_delegation :: "verification_method_or_ref list"
  dd_service :: "service list"

section \<open>Builders\<close>

definition diddoc_new :: "string \<Rightarrow> diddoc" where
  "diddoc_new i =
     \<lparr>dd_context = JArray [JString ''https://www.w3.org/ns/did/v1''], dd_id = i,
      dd_also_known_as = [], dd_controller = [], dd_verification_method = [],
      dd_authentication = [], dd_assertion_method = [], dd_key_agreement = [],
      dd_capability_invocation = [], dd_capability_delegation = [], dd_service = []\<rparr>"

definition with_context :: "diddoc \<Rightarrow> json \<Rightarrow> diddoc" where
  "with_context d ctx = d\<lparr>dd_context := ctx\<rparr>"

definition add_verification_method :: "diddoc \<Rightarrow> verification_method \<Rightarrow> diddoc" where
  "add_verification_method d vm =
     d\<lparr>dd_verification_method := dd_verification_method d @ [vm]\<rparr>"

definition add_authentication :: "diddoc \<Rightarrow> verification_method_or_ref \<Rightarrow> diddoc" where
  "add_authentication d r = d\<lparr>dd_authentication := dd_authentication d @ [r]\<rparr>"

definition add_assertion_method :: "diddoc \<Rightarrow> verification_method_or_ref \<Rightarrow> diddoc" where
  "add_assertion_method d r = d\<lparr>dd_assertion_method := dd_assertion_method d @ [r]\<rparr>"

definition add_capability_invocation :: "diddoc \<Rightarrow> verification_method_or_ref \<Rightarrow> diddoc" where
  "add_capability_invocation d r =
     d\<lparr>dd_capability_invocation := dd_capability_invocation d @ [r]\<rparr>"

definition add_capability_delegation :: "diddoc \<Rightarrow> verification_method_or_ref \<Rightarrow> diddoc" where
  "add_capability_delegation d r =
     d\<lparr>dd_capability_delegation := dd_capability_delegation d @ [r]\<rparr>"

definition diddoc_new_genesis ::
  "codecs \<Rightarrow> string \<Rightarrow> p256_public_key \<Rightarrow> p256_public_key \<Rightarrow> diddoc" where
  "diddoc_new_genesis c d authn asrt =
     (let auth_vm_id = d @ ''#authentication-key-01'';
          assert_vm_id = d @ ''#assertion-key-01'';
          auth_key = Jwk (EC (ec_with_kid
            (ec_from_p256_coordinates c (p256_x authn) (p256_y authn)) ''authentication-key-01''));
          assert_key = Jwk (EC (ec_with_kid
            (ec_from_p256_coordinates c (p256_x asrt) (p256_y asrt)) ''assertion-key-01''));
          d0 = with_context (diddoc_new d)
            (json_strings [''https://www.w3.org/ns/did/v1'', ''https://w3id.org/security/jwk/v1'']);
          d1 = add_verification_method d0
            \<lparr>vm_id = auth_vm_id, vm_type = ''JsonWebKey2020'', vm_controller = d,
             vm_public_key = auth_key\<rparr>;
          d2 = add_verification_method d1
            \<lparr>vm_id = assert_vm_id, vm_type = ''JsonWebKey2020'', vm_controller = d,
             vm_public_key = assert_key\<rparr>;
          d3 = add_authentication d2 (Reference auth_vm_id)
      in add_assertion_method d3 (Reference assert_vm_id))"

section \<open>Writing\<close>

definition vm_to_json :: "codecs \<Rightarrow> verification_method \<Rightarrow> json" where
  "vm_to_json c vm =
     (let m = insert_all [(''id'', JString (vm_id vm)), (''type'', JString (vm_type vm)),
                (''controller'', JString (vm_controller vm))] fmempty
      in case vm_public_key vm of
           Jwk k \<Rightarrow> JObject (fmupd ''publicKeyJwk'' (jwk_to_json k) m)
         | Multibase mb \<Rightarrow> JObject (fmupd ''publicKeyMultibase'' (JString (mb_to_string c mb)) m))"

fun vm_or_ref_to_json :: "codecs \<Rightarrow> verification_method_or_ref \<Rightarrow> json" where
  "vm_or_ref_to_json c (Embedded vm) = vm_to_json c vm"
| "vm_or_ref_to_json c (Reference s) = JString s"

text \<open>One string is written bare, any other number of strings as an array.\<close>

definition string_or_array_value :: "string list \<Rightarrow> json" where
  "string_or_array_value ss = (if length ss = 1 then JString (ss ! 0) else json_strings ss)"

definition service_to_json :: "service \<Rightarrow> json" where
  "service_to_json s =
     json_obj [(''id'', JString (svc_id s)), (''type'', string_or_array_value (svc_type s)),
               (''serviceEndpoint'', svc_endpoint s)]"

text \<open>A field is written only if its list is not empty.\<close>

definition insert_nonempty :: "string \<Rightarrow> 'a list \<Rightarrow> ('a list \<Rightarrow> json) \<Rightarrow> json_map \<Rightarrow> json_map" where
  "insert_nonempty k xs w m = (if xs \<noteq> [] then fmupd k (w xs) m else m)"

definition diddoc_to_json :: "codecs \<Rightarrow> diddoc \<Rightarrow> json" where
  "diddoc_to_json c d =
     (let vrs = (\<lambda>xs. JArray (map (vm_or_ref_to_json c) xs));
          m0 = fmupd ''id'' (JString (dd_id d)) (fmupd ''@context'' (dd_context d) fmempty);
          m1 = insert_nonempty ''alsoKnownAs'' (dd_also_known_as d) json_strings m0;
          m2 = insert_nonempty ''controller'' (dd_controller d) string_or_array_value m1;
          m3 = insert_nonempty ''verificationMethod'' (dd_verification_method d)
                 (\<lambda>xs. JArray (map (vm_to_json c) xs)) m2;
          m4 = insert_nonempty ''authentication'' (dd_authentication d) vrs m3;
          m5 = insert_nonempty ''assertionMethod'' (dd_assertion_method d) vrs m4;
          m6 = insert_nonempty ''keyAgreement'' (dd_key_agreement d) vrs m5;
          m7 = insert_nonempty ''capabilityInvocation'' (dd_capability_invocation d) vrs m6;
          m8 = insert_nonempty ''capabilityDelegation'' (dd_capability_delegation d) vrs m7;
          m9 = insert_nonempty ''service'' (dd_service d) (\<lambda>xs. JArray (map service_to_json xs)) m8
      in JObject m9)"

section \<open>Reading\<close>

definition vm_from_json :: "codecs \<Rightarrow> json \<Rightarrow> (verification_method, diddoc_error) result" where
  "vm_from_json c v =
     and_then (ok_or (as_object v) (DDInvalidFieldType ''verification method must be an object''))
       (\<lambda>obj.
     and_then (required_string obj ''id'') (\<lambda>i.
     and_then (required_string obj ''type'') (\<lambda>ty.
     and_then (required_string obj ''controller'') (\<lambda>ctl.
     and_then
       (case fmlookup obj ''publicKeyJwk'' of
          Some jwk \<Rightarrow> and_then (jwk_from_json jwk) (\<lambda>k. Ok (Jwk k))
        | None \<Rightarrow>
            (case Option.bind (fmlookup obj ''publicKeyMultibase'') as_str of
               Some mb \<Rightarrow> and_then (mb_from_str c mb) (\<lambda>k. Ok (Multibase k))
             | None \<Rightarrow> Err (DDMissingField (''verification method must have ''
                 @ quoted ''publicKeyJwk'' @ '' or '' @ quoted ''publicKeyMultibase'')))) (\<lambda>pk.
       Ok \<lparr>vm_id = i, vm_type = ty, vm_controller = ctl, vm_public_key = pk\<rparr>)))))"

definition vm_or_ref_from_json ::
  "codecs \<Rightarrow> json \<Rightarrow> (verification_method_or_ref, diddoc_error) result" where
  "vm_or_ref_from_json c v =
     (case as_str v of
        Some s \<Rightarrow> Ok (Reference s)
      | None \<Rightarrow> and_then (vm_from_json c v) (\<lambda>vm. Ok (Embedded vm)))"

definition service_from_json :: "json \<Rightarrow> (service, diddoc_error) result" where
  "service_from_json v =
     and_then (ok_or (as_object v) (DDInvalidFieldType ''service must be an object'')) (\<lambda>obj.
     and_then (required_string obj ''id'') (\<lambda>i.
     and_then
       (case fmlookup obj ''type'' of
          Some (JString s) \<Rightarrow> Ok [s]
        | Some (JArray arr) \<Rightarrow>
            string_elements (DDInvalidFieldType
              (''service '' @ quoted ''type'' @ '' elements must be strings'')) arr
        | Some _ \<Rightarrow> Err (DDInvalidFieldType
            (''service '' @ quoted ''type'' @ '' must be a string or array of strings''))
        | None \<Rightarrow> Err (DDMissingField (''service '' @ quoted ''type''))) (\<lambda>ty.
     and_then (ok_or (fmlookup obj ''serviceEndpoint'') (DDMissingField ''serviceEndpoint''))
       (\<lambda>ep. Ok \<lparr>svc_id = i, svc_type = ty, svc_endpoint = ep\<rparr>))))"

definition diddoc_from_json :: "codecs \<Rightarrow> json \<Rightarrow> (diddoc, diddoc_error) result" where
  "diddoc_from_json c v =
     and_then (ok_or (as_object v) (DDInvalidFormat ''DID document must be a JSON object'')) (\<lambda>obj.
     and_then (ok_or (fmlookup obj ''@context'') (DDMissingField ''@context'')) (\<lambda>ctx.
     and_then (required_string obj ''id'') (\<lambda>i.
     and_then (string_or_array obj ''alsoKnownAs'') (\<lambda>aka.
     and_then (string_or_array obj ''controller'') (\<lambda>ctl.
     and_then (parse_array (vm_from_json c) obj ''verificationMethod'') (\<lambda>vms.
     and_then (parse_array (vm_or_ref_from_json c) obj ''authentication'') (\<lambda>authn.
     and_then (parse_array (vm_or_ref_from_json c) obj ''assertionMethod'') (\<lambda>asrt.
     and_then (parse_array (vm_or_ref_from_json c) obj ''keyAgreement'') (\<lambda>ka.
     and_then (parse_array (vm_or_ref_from_json c) obj ''capabilityInvocation'') (\<lambda>ci.
     and_then (parse_array (vm_or_ref_from_json c) obj ''capabilityDelegation'') (\<lambda>cd.
     and_then (parse_array service_from_json obj ''service'') (\<lambda>svc.
       Ok \<lparr>dd_context = ctx, dd_id = i, dd_also_known_as = aka, dd_controller = ctl,
           dd_verification_method = vms, dd_authentication = authn, dd_assertion_method = asrt,
           dd_key_agreement = ka, dd_capability_invocation = ci,
           dd_capability_delegation = cd, dd_service = svc\<rparr>))))))))))))"

section \<open>Reading back what was written\<close>

fun key_portable :: "codecs \<Rightarrow> public_key \<Rightarrow> bool" where
  "key_portable c (Jwk k) = True"
| "key_portable c (Multibase mb) = bs58_carries c (mb_key mb)"

definition vm_portable :: "codecs \<Rightarrow> verification_method \<Rightarrow> bool" where
  "vm_portable c vm = key_portable c (vm_public_key vm)"

fun vmr_portable :: "codecs \<Rightarrow> verification_method_or_ref \<Rightarrow> bool" where
  "vmr_portable c (Embedded vm) = vm_portable c vm"
| "vmr_portable c (Reference s) = True"

definition diddoc_portable :: "codecs \<Rightarrow> diddoc \<Rightarrow> bool" where
  "diddoc_portable c d \<longleftrightarrow>
     list_all (vm_portable c) (dd_verification_method d)
       \<and> list_all (vmr_portable c) (dd_authentication d @ dd_assertion_method d
            @ dd_key_agreement d @ dd_capability_invocation d @ dd_capability_delegation d)"

lemma bs58_law_carries: "bs58_law c \<Longrightarrow> bs58_carries c bs"
  by (simp add: bs58_carries_def)

lemma bs58_law_portable: "bs58_law c \<Longrightarrow> vm_portable c vm" "bs58_law c \<Longrightarrow> vmr_portable c r"
proof -
  assume law: "bs58_law c"
  have key: "key_portable c k" for k
    using law by (cases k) (simp_all add: bs58_law_carries)
  then show "vm_portable c vm" by (simp add: vm_portable_def)
  show "vmr_portable c r" using key by (cases r) (simp_all add: vm_portable_def)
qed

interpretation vm_codec: json_codec "vm_to_json c" "vm_from_json c" "vm_portable c" for c
proof unfold_locales
  fix vm :: verification_method assume "vm_portable c vm"
  then show "vm_from_json c (vm_to_json c vm) = Ok vm"
    by (cases "vm_public_key vm")
      (simp_all add: vm_portable_def vm_to_json_def vm_from_json_def Let_def mb_roundtrip
        jwk_codec.dec_enc)
qed

lemma vm_json_not_string [simp]: "as_str (vm_to_json c vm) = None"
  by (simp add: vm_to_json_def Let_def split: public_key.splits)

interpretation vmr_codec: json_codec "vm_or_ref_to_json c" "vm_or_ref_from_json c" "vmr_portable c"
  for c
proof unfold_locales
  fix r assume "vmr_portable c r"
  then show "vm_or_ref_from_json c (vm_or_ref_to_json c r) = Ok r"
    by (cases r) (simp_all add: vm_or_ref_from_json_def vm_codec.dec_enc)
qed

lemma one_string: "length ss = 1 \<Longrightarrow> [ss ! 0] = ss"
  by (cases ss) auto

interpretation service_codec: json_parser service_to_json service_from_json "\<lambda>_. True"
  by unfold_locales
    (auto simp: service_to_json_def service_from_json_def json_obj_def string_or_array_value_def
      json_strings_def one_string simp del: One_nat_def)

lemma insert_nonempty_lookup [simp]:
  "fmlookup (insert_nonempty k xs w m) j = (if k = j \<and> xs \<noteq> [] then Some (w xs) else fmlookup m j)"
  by (simp add: insert_nonempty_def)

lemma string_or_array_written:
  "fmlookup m k = (if ss \<noteq> [] then Some (string_or_array_value ss) else None) \<Longrightarrow>
   string_or_array m k = Ok ss"
  "fmlookup m k = (if ss \<noteq> [] then Some (json_strings ss) else None) \<Longrightarrow>
   string_or_array m k = Ok ss"
  by (auto simp: string_or_array_def string_or_array_value_def json_strings_def one_string
      simp del: One_nat_def split: if_splits)

lemma parse_array_nonempty:
  assumes "\<And>x. x \<in> set xs \<Longrightarrow> p (enc x) = Ok x"
    and "fmlookup m k = (if xs \<noteq> [] then Some (JArray (map enc xs)) else None)"
  shows "parse_array p m k = Ok xs"
  using assms parse_array_missing [of m k p] parse_array_written [of m k enc xs p]
  by (cases "xs = []") simp_all

interpretation diddoc_codec: json_codec "diddoc_to_json c" "diddoc_from_json c" "diddoc_portable c"
  for c
proof unfold_locales
  fix d :: diddoc assume portable: "diddoc_portable c d"
  obtain m where m: "diddoc_to_json c d = JObject m"
    by (simp add: diddoc_to_json_def Let_def)
  have fields:
    "fmlookup m ''@context'' = Some (dd_context d)" "fmlookup m ''id'' = Some (JString (dd_id d))"
    "fmlookup m ''alsoKnownAs'' =
       (if dd_also_known_as d \<noteq> [] then Some (json_strings (dd_also_known_as d)) else None)"
    "fmlookup m ''controller'' =
       (if dd_controller d \<noteq> [] then Some (string_or_array_value (dd_controller d)) else None)"
    "fmlookup m ''verificationMethod'' =
       (if dd_verification_method d \<noteq> []
        then Some (JArray (map (vm_to_json c) (dd_verification_method d))) else None)"
    "fmlookup m ''service'' =
       (if dd_service d \<noteq> [] then Some (JArray (map service_to_json (dd_service d))) else None)"
    using m by (auto simp: diddoc_to_json_def Let_def)
  have refs:
    "fmlookup m ''authentication'' =
       (if dd_authentication d \<noteq> []
        then Some (JArray (map (vm_or_ref_to_json c) (dd_authentication d))) else None)"
    "fmlookup m ''assertionMethod'' =
       (if dd_assertion_method d \<noteq> []
        then Some (JArray (map (vm_or_ref_to_json c) (dd_assertion_method d))) else None)"
    "fmlookup m ''keyAgreement'' =
       (if dd_key_agreement d \<noteq> []
        then Some (JArray (map (vm_or_ref_to_json c) (dd_key_agreement d))) else None)"
    "fmlookup m ''capabilityInvocation'' =
       (if dd_capability_invocation d \<noteq> []
        then Some (JArray (map (vm_or_ref_to_json c) (dd_capability_invocation d))) else None)"
    "fmlookup m ''capabilityDelegation'' =
       (if dd_capability_delegation d \<noteq> []
        then Some (JArray (map (vm_or_ref_to_json c) (dd_capability_delegation d))) else None)"
    using m by (auto simp: diddoc_to_json_def Let_def)
  have vm: "\<And>x. x \<in> set (dd_verification_method d) \<Longrightarrow> vm_from_json c (vm_to_json c x) = Ok x"
    using portable by (auto simp: diddoc_portable_def list_all_iff intro: vm_codec.dec_enc)
  have vr: "vm_or_ref_from_json c (vm_or_ref_to_json c x) = Ok x"
    if "x \<in> set (dd_authentication d @ dd_assertion_method d @ dd_key_agreement d
          @ dd_capability_invocation d @ dd_capability_delegation d)" for x
    using portable that by (auto simp: diddoc_portable_def list_all_iff intro: vmr_codec.dec_enc)
  show "diddoc_from_json c (diddoc_to_json c d) = Ok d"
    using fields string_or_array_written(2) [OF fields(3)] string_or_array_written(1) [OF fields(4)]
      parse_array_nonempty [OF vm fields(5)]
      parse_array_nonempty [OF service_codec.dec_enc fields(6)]
      parse_array_nonempty [OF vr refs(1)] parse_array_nonempty [OF vr refs(2)]
      parse_array_nonempty [OF vr refs(3)] parse_array_nonempty [OF vr refs(4)]
      parse_array_nonempty [OF vr refs(5)]
    by (simp add: m diddoc_from_json_def)
qed

text \<open>C38: DID documents survive their JSON form. Every document, whatever fields are empty,
  whether methods are embedded or referenced, and whether lists of one element are written as
  a bare string, is read back as it was, given that base58 decoding undoes encoding.\<close>

theorem diddoc_roundtrip:
  assumes "bs58_law c"
  shows "diddoc_from_json c (diddoc_to_json c d) = Ok d"
  by (rule diddoc_codec.dec_enc)
    (simp add: diddoc_portable_def list_all_iff bs58_law_portable [OF assms])

theorem diddoc_roundtrip_witness:
  "diddoc_from_json plain_codecs (diddoc_to_json plain_codecs
     (add_authentication (diddoc_new ''did:tdw:a:b'') (Reference ''did:tdw:a:b#k'')))
   = Ok (add_authentication (diddoc_new ''did:tdw:a:b'') (Reference ''did:tdw:a:b#k''))"
  by (rule diddoc_roundtrip) simp

text \<open>The document of a new DID. It carries exactly two verification methods, both
  controlled by the DID, with distinct identifiers under it; the authentication and the
  assertion relationship each refer to their own one; no other relationship is granted; and
  the P-256 coordinates of both keys can be read back from it.\<close>

theorem diddoc_genesis_keys:
  assumes "b64_law c"
  shows "\<exists>ka ks. dd_verification_method (diddoc_new_genesis c d authn asrt) = [ka, ks]
    \<and> vm_id ka \<noteq> vm_id ks \<and> strip_prefix (d @ ''#'') (vm_id ka) \<noteq> None
    \<and> strip_prefix (d @ ''#'') (vm_id ks) \<noteq> None
    \<and> vm_controller ka = d \<and> vm_controller ks = d
    \<and> dd_authentication (diddoc_new_genesis c d authn asrt) = [Reference (vm_id ka)]
    \<and> dd_assertion_method (diddoc_new_genesis c d authn asrt) = [Reference (vm_id ks)]
    \<and> dd_key_agreement (diddoc_new_genesis c d authn asrt) = []
    \<and> dd_capability_invocation (diddoc_new_genesis c d authn asrt) = []
    \<and> dd_capability_delegation (diddoc_new_genesis c d authn asrt) = []
    \<and> (\<exists>k. vm_public_key ka = Jwk (EC k) \<and> b64_decode c (ec_x k) = Ok (p256_x authn)
          \<and> b64_decode c (ec_y k) = Ok (p256_y authn))
    \<and> (\<exists>k. vm_public_key ks = Jwk (EC k) \<and> b64_decode c (ec_x k) = Ok (p256_x asrt)
          \<and> b64_decode c (ec_y k) = Ok (p256_y asrt))"
  using assms
  by (auto simp: diddoc_new_genesis_def diddoc_new_def with_context_def add_verification_method_def
      add_authentication_def add_assertion_method_def ec_with_kid_def ec_from_p256_coordinates_def
      ec_key_new_def Let_def strip_prefix_none)

theorem diddoc_genesis_keys_witness:
  "dd_authentication (diddoc_new_genesis plain_codecs ''did:x'' \<lparr>p256_x = [1], p256_y = [2]\<rparr>
      \<lparr>p256_x = [3], p256_y = [4]\<rparr>) = [Reference ''did:x#authentication-key-01'']"
  using diddoc_genesis_keys
    [of plain_codecs "''did:x''" "\<lparr>p256_x = [1], p256_y = [2]\<rparr>" "\<lparr>p256_x = [3], p256_y = [4]\<rparr>"]
  by (simp add: diddoc_new_genesis_def diddoc_new_def with_context_def add_verification_method_def
      add_authentication_def add_assertion_method_def Let_def)

end
