(* ===== verification/DidLog.thy ===== *)
theory DidLog
  imports DidDoc
begin

text \<open>
  DID logs, \<open>swiyu-core/src/didlog/mod.rs\<close>, \<open>scid.rs\<close> and \<open>entry_edits.rs\<close>: the
  parameters and entries in their two wire formats, the constructors of genesis, rotation and
  deactivation entries, the JSON-lines parser, the hashes an entry is bound by, and the edits
  that turn an unsigned entry into a published one.
\<close>

section \<open>Data\<close>

datatype log_entry_format = TDW03 | WebVH10

datatype did_log_error =
    DLInvalidFormat string
  | DLMissingField string
  | DLInvalidFieldType string

definition show_did_log_error :: "did_log_error \<Rightarrow> string" where
  "show_did_log_error er =
     (case er of
        DLInvalidFormat m \<Rightarrow> ''invalid format: '' @ m
      | DLMissingField f \<Rightarrow> ''missing required field: '' @ f
      | DLInvalidFieldType m \<Rightarrow> ''invalid field type: '' @ m)"

datatype did_doc_state = StateValue json | StatePatch json

record log_parameters =
  lp_format :: log_entry_format
  lp_method :: "string option"
  lp_scid :: "string option"
  lp_update_keys :: "string list option"
  lp_prerotation :: "bool option"
  lp_next_key_hashes :: "string list option"
  lp_portable :: "bool option"
  lp_deactivated :: "bool option"
  lp_ttl :: "u64 option"
  lp_witness :: "json option"
  lp_watchers :: "string list option"

record did_log_entry =
  le_format :: log_entry_format
  le_version_id :: string
  le_version_time :: string
  le_parameters :: log_parameters
  le_state :: did_doc_state
  le_proofs :: "json list"

section \<open>Optional fields\<close>

definition dl_string_field :: "json_map \<Rightarrow> string \<Rightarrow> (string option, did_log_error) result" where
  "dl_string_field obj key =
     opt_field as_str (DLInvalidFieldType (quoted key @ '' must be a string'')) obj key"

definition dl_bool_field :: "json_map \<Rightarrow> string \<Rightarrow> (bool option, did_log_error) result" where
  "dl_bool_field obj key =
     opt_field as_bool (DLInvalidFieldType (quoted key @ '' must be a boolean'')) obj key"

definition dl_u64_field :: "json_map \<Rightarrow> string \<Rightarrow> (u64 option, did_log_error) result" where
  "dl_u64_field obj key =
     opt_field as_u64 (DLInvalidFieldType (quoted key @ '' must be a number'')) obj key"

definition dl_string_array_field ::
  "json_map \<Rightarrow> string \<Rightarrow> (string list option, did_log_error) result" where
  "dl_string_array_field obj key =
     (case fmlookup obj key of
        None \<Rightarrow> Ok None
      | Some v \<Rightarrow>
          and_then (ok_or (as_array v) (DLInvalidFieldType (quoted key @ '' must be an array''))) (\<lambda>arr.
          and_then (string_elements (DLInvalidFieldType (quoted key @ '' elements must be strings''))
                      arr) (\<lambda>ss.
            Ok (Some ss))))"

section \<open>The document state\<close>

definition doc_state_from_json :: "json \<Rightarrow> (did_doc_state, did_log_error) result" where
  "doc_state_from_json v =
     and_then (ok_or (as_object v) (DLInvalidFieldType ''DIDDocState must be a JSON object''))
       (\<lambda>obj.
         case fmlookup obj ''value'' of
           Some x \<Rightarrow> Ok (StateValue x)
         | None \<Rightarrow>
             (case fmlookup obj ''patch'' of
                Some p \<Rightarrow> Ok (StatePatch p)
              | None \<Rightarrow> Err (DLInvalidFormat (''DIDDocState must contain '' @ quoted ''value''
                  @ '' or '' @ quoted ''patch''))))"

fun doc_state_to_json :: "did_doc_state \<Rightarrow> json" where
  "doc_state_to_json (StateValue v) = json_obj [(''value'', v)]"
| "doc_state_to_json (StatePatch p) = json_obj [(''patch'', p)]"

interpretation doc_state_codec: json_parser doc_state_to_json doc_state_from_json "\<lambda>_. True"
proof unfold_locales
  fix st show "doc_state_from_json (doc_state_to_json st) = Ok st"
    by (cases st) (simp_all add: doc_state_from_json_def json_obj_def)
qed simp

section \<open>Parameters\<close>

definition params_new_tdw ::
  "string option \<Rightarrow> string option \<Rightarrow> string list option \<Rightarrow> bool option \<Rightarrow> string list option \<Rightarrow>
   bool option \<Rightarrow> bool option \<Rightarrow> u64 option \<Rightarrow> json option \<Rightarrow> log_parameters" where
  "params_new_tdw method scid uks prerotation nkh portable deactivated ttl witness =
     \<lparr>lp_format = TDW03, lp_method = method, lp_scid = scid, lp_update_keys = uks,
      lp_prerotation = prerotation, lp_next_key_hashes = nkh, lp_portable = portable,
      lp_deactivated = deactivated, lp_ttl = ttl, lp_witness = witness, lp_watchers = None\<rparr>"

definition params_new_webvh ::
  "string option \<Rightarrow> string option \<Rightarrow> string list option \<Rightarrow> bool option \<Rightarrow> string list option \<Rightarrow>
   bool option \<Rightarrow> bool option \<Rightarrow> u64 option \<Rightarrow> json option \<Rightarrow> string list option \<Rightarrow>
   log_parameters" where
  "params_new_webvh method scid uks prerotation nkh portable deactivated ttl witness watchers =
     \<lparr>lp_format = WebVH10, lp_method = method, lp_scid = scid, lp_update_keys = uks,
      lp_prerotation = prerotation, lp_next_key_hashes = nkh, lp_portable = portable,
      lp_deactivated = deactivated, lp_ttl = ttl, lp_witness = witness, lp_watchers = watchers\<rparr>"

definition params_new_tdw_minimal :: "string \<Rightarrow> string \<Rightarrow> string list \<Rightarrow> log_parameters" where
  "params_new_tdw_minimal method scid uks =
     params_new_tdw (Some method) (Some scid) (Some uks) None None None None None None"

definition params_new_webvh_minimal :: "string \<Rightarrow> string \<Rightarrow> string list \<Rightarrow> log_parameters" where
  "params_new_webvh_minimal method scid uks =
     params_new_webvh (Some method) (Some scid) (Some uks) None None None None None None None"

definition params_from_json :: "json \<Rightarrow> log_entry_format \<Rightarrow> (log_parameters, did_log_error) result" where
  "params_from_json v fmt =
     and_then (ok_or (as_object v) (DLInvalidFieldType ''parameters must be a JSON object'')) (\<lambda>obj.
     and_then (dl_string_field obj ''method'') (\<lambda>method.
     and_then (dl_string_field obj ''scid'') (\<lambda>scid.
     and_then (dl_string_array_field obj ''updateKeys'') (\<lambda>uks.
     and_then (dl_bool_field obj ''prerotation'') (\<lambda>prerotation.
     and_then (dl_string_array_field obj ''nextKeyHashes'') (\<lambda>nkh.
     and_then (dl_bool_field obj ''portable'') (\<lambda>portable.
     and_then (dl_bool_field obj ''deactivated'') (\<lambda>deactivated.
     and_then (dl_u64_field obj ''ttl'') (\<lambda>ttl.
     let witness = fmlookup obj ''witness'' in
     and_then (if fmt = WebVH10 then dl_string_array_field obj ''watchers'' else Ok None) (\<lambda>watchers.
       Ok \<lparr>lp_format = fmt, lp_method = method, lp_scid = scid, lp_update_keys = uks,
           lp_prerotation = prerotation, lp_next_key_hashes = nkh, lp_portable = portable,
           lp_deactivated = deactivated, lp_ttl = ttl, lp_witness = witness,
           lp_watchers = watchers\<rparr>))))))))))"

text \<open>The value written for \<open>portable\<close>: explicit in a \<open>did:tdw\<close> genesis entry.\<close>

definition portable_written :: "log_parameters \<Rightarrow> bool option" where
  "portable_written p =
     (case (lp_format p = TDW03 \<and> lp_scid p \<noteq> None, lp_portable p) of
        (_, Some v) \<Rightarrow> Some v
      | (True, None) \<Rightarrow> Some False
      | (False, None) \<Rightarrow> None)"

definition params_to_json :: "log_parameters \<Rightarrow> json" where
  "params_to_json p =
     (let m1 = insert_some ''method'' (map_option JString (lp_method p)) fmempty;
          m2 = insert_some ''scid'' (map_option JString (lp_scid p)) m1;
          m3 = insert_some ''updateKeys'' (map_option json_strings (lp_update_keys p)) m2;
          m4 = insert_some ''prerotation'' (map_option JBool (lp_prerotation p)) m3;
          m5 = insert_some ''nextKeyHashes'' (map_option json_strings (lp_next_key_hashes p)) m4;
          m6 = insert_some ''portable'' (map_option JBool (portable_written p)) m5;
          m7 = insert_some ''deactivated'' (map_option JBool (lp_deactivated p)) m6;
          m8 = insert_some ''ttl'' (map_option json_u64 (lp_ttl p)) m7;
          m9 = insert_some ''witness'' (lp_witness p) m8;
          m10 = (if lp_format p = WebVH10
                 then insert_some ''watchers'' (map_option json_strings (lp_watchers p)) m9 else m9)
      in JObject m10)"

section \<open>Entries\<close>

definition entry_new_tdw ::
  "string \<Rightarrow> string \<Rightarrow> log_parameters \<Rightarrow> did_doc_state \<Rightarrow> json list \<Rightarrow> did_log_entry" where
  "entry_new_tdw vid t p st prfs =
     \<lparr>le_format = TDW03, le_version_id = vid, le_version_time = t, le_parameters = p,
      le_state = st, le_proofs = prfs\<rparr>"

definition entry_new_webvh ::
  "string \<Rightarrow> string \<Rightarrow> log_parameters \<Rightarrow> did_doc_state \<Rightarrow> json list \<Rightarrow> did_log_entry" where
  "entry_new_webvh vid t p st prfs =
     \<lparr>le_format = WebVH10, le_version_id = vid, le_version_time = t, le_parameters = p,
      le_state = st, le_proofs = prfs\<rparr>"

definition new_genesis ::
  "codecs \<Rightarrow> log_entry_format \<Rightarrow> string \<Rightarrow> string \<Rightarrow> p256_public_key \<Rightarrow> p256_public_key \<Rightarrow> string \<Rightarrow>
   did_log_entry" where
  "new_genesis c fmt authorized_multikey did_placeholder authn asrt now =
     (let method = (case fmt of TDW03 \<Rightarrow> ''did:tdw:0.3'' | WebVH10 \<Rightarrow> ''did:webvh:1.0'');
          params = (case fmt of
              TDW03 \<Rightarrow> params_new_tdw_minimal method ''{SCID}'' [authorized_multikey]
            | WebVH10 \<Rightarrow> params_new_webvh_minimal method ''{SCID}'' [authorized_multikey]);
          st = StateValue (diddoc_to_json c (diddoc_new_genesis c did_placeholder authn asrt))
      in case fmt of
           TDW03 \<Rightarrow> entry_new_tdw ''{SCID}'' now params st []
         | WebVH10 \<Rightarrow> entry_new_webvh ''{SCID}'' now params st [])"

definition new_deactivation ::
  "codecs \<Rightarrow> log_entry_format \<Rightarrow> string \<Rightarrow> diddoc \<Rightarrow> string \<Rightarrow> did_log_entry" where
  "new_deactivation c fmt prev_version_id prev_doc t =
     (let params = (case fmt of
              TDW03 \<Rightarrow> params_new_tdw None None (Some []) None None None (Some True) None None
            | WebVH10 \<Rightarrow> params_new_webvh None None (Some []) None None None (Some True) None None None);
          st = StateValue (diddoc_to_json c prev_doc)
      in case fmt of
           TDW03 \<Rightarrow> entry_new_tdw prev_version_id t params st []
         | WebVH10 \<Rightarrow> entry_new_webvh prev_version_id t params st [])"

definition new_rotation ::
  "codecs \<Rightarrow> log_entry_format \<Rightarrow> string \<Rightarrow> string \<Rightarrow> string \<Rightarrow> p256_public_key \<Rightarrow>
   p256_public_key \<Rightarrow> string \<Rightarrow> did_log_entry" where
  "new_rotation c fmt prev_version_id did_str new_multikey authn asrt t =
     (let params = (case fmt of
              TDW03 \<Rightarrow> params_new_tdw None None (Some [new_multikey]) None None None None None None
            | WebVH10 \<Rightarrow>
                params_new_webvh None None (Some [new_multikey]) None None None None None None None);
          st = StateValue (diddoc_to_json c (diddoc_new_genesis c did_str authn asrt))
      in case fmt of
           TDW03 \<Rightarrow> entry_new_tdw prev_version_id t params st []
         | WebVH10 \<Rightarrow> entry_new_webvh prev_version_id t params st [])"

definition entry_from_json_array :: "json list \<Rightarrow> (did_log_entry, did_log_error) result" where
  "entry_from_json_array arr =
     (if length arr \<noteq> 5
      then Err (DLInvalidFormat (''v0.3 log entry must have exactly 5 elements, got ''
             @ show_nat (length arr)))
      else
        and_then (ok_or (as_str (arr ! 0)) (DLInvalidFieldType ''versionId must be a string'')) (\<lambda>vid.
        and_then (ok_or (as_str (arr ! 1)) (DLInvalidFieldType ''versionTime must be a string'')) (\<lambda>t.
        and_then (params_from_json (arr ! 2) TDW03) (\<lambda>p.
        and_then (doc_state_from_json (arr ! 3)) (\<lambda>st.
        and_then (ok_or (as_array (arr ! 4))
                    (DLInvalidFieldType ''DataIntegrityProof must be a JSON array'')) (\<lambda>prfs.
          Ok (entry_new_tdw vid t p st prfs)))))))"

definition entry_from_json_object :: "json_map \<Rightarrow> (did_log_entry, did_log_error) result" where
  "entry_from_json_object obj =
     and_then (dl_string_field obj ''versionId'') (\<lambda>vid0.
     and_then (ok_or vid0 (DLMissingField ''versionId'')) (\<lambda>vid.
     and_then (dl_string_field obj ''versionTime'') (\<lambda>t0.
     and_then (ok_or t0 (DLMissingField ''versionTime'')) (\<lambda>t.
     and_then (ok_or (fmlookup obj ''parameters'') (DLMissingField ''parameters'')) (\<lambda>pv.
     and_then (params_from_json pv WebVH10) (\<lambda>p.
     and_then (ok_or (fmlookup obj ''state'') (DLMissingField ''state'')) (\<lambda>sv.
     and_then (doc_state_from_json sv) (\<lambda>st.
     and_then (ok_or (fmlookup obj ''proof'') (DLMissingField ''proof'')) (\<lambda>prv.
     and_then (ok_or (as_array prv) (DLInvalidFieldType ''proof must be a JSON array'')) (\<lambda>prfs.
       Ok (entry_new_webvh vid t p st prfs)))))))))))"

fun entry_from_json :: "json \<Rightarrow> (did_log_entry, did_log_error) result" where
  "entry_from_json (JArray arr) = entry_from_json_array arr"
| "entry_from_json (JObject obj) = entry_from_json_object obj"
| "entry_from_json _ =
     Err (DLInvalidFormat ''log entry must be a JSON array (v0.3) or object (v1.0)'')"

definition entry_to_json :: "did_log_entry \<Rightarrow> json" where
  "entry_to_json e =
     (case le_format e of
        TDW03 \<Rightarrow>
          JArray [JString (le_version_id e), JString (le_version_time e),
                  params_to_json (le_parameters e), doc_state_to_json (le_state e),
                  JArray (le_proofs e)]
      | WebVH10 \<Rightarrow>
          json_obj [(''versionId'', JString (le_version_id e)),
                    (''versionTime'', JString (le_version_time e)),
                    (''parameters'', params_to_json (le_parameters e)),
                    (''state'', doc_state_to_json (le_state e)),
                    (''proof'', JArray (le_proofs e))])"

section \<open>The wire form of parameters and entries\<close>

text \<open>
  What the wire keeps of the parameters: an unset \<open>portable\<close> of a \<open>did:tdw\<close> genesis entry
  becomes \<open>false\<close>, and only \<open>did:webvh\<close> carries watchers.
\<close>

definition params_on_wire :: "log_parameters \<Rightarrow> log_parameters" where
  "params_on_wire p =
     p\<lparr>lp_portable := portable_written p,
       lp_watchers := (if lp_format p = WebVH10 then lp_watchers p else None)\<rparr>"

lemma params_on_wire_idem [simp]: "params_on_wire (params_on_wire p) = params_on_wire p"
  by (auto simp: params_on_wire_def portable_written_def split: option.splits bool.splits)

lemma portable_on_wire [simp]: "portable_written (params_on_wire p) = portable_written p"
  by (auto simp: params_on_wire_def portable_written_def split: option.splits bool.splits)

lemma params_on_wire_fields [simp]:
  "lp_format (params_on_wire p) = lp_format p" "lp_update_keys (params_on_wire p) = lp_update_keys p"
  "lp_scid (params_on_wire p) = lp_scid p" "lp_deactivated (params_on_wire p) = lp_deactivated p"
  by (simp_all add: params_on_wire_def)

lemma params_same_json: "params_to_json (params_on_wire p) = params_to_json p"
  unfolding params_to_json_def portable_on_wire
  by (cases "lp_format p") (simp_all add: params_on_wire_def Let_def)

lemma dl_fields_written:
  "fmlookup m k = map_option JString s \<Longrightarrow> dl_string_field m k = Ok s"
  "fmlookup m k = map_option JBool b \<Longrightarrow> dl_bool_field m k = Ok b"
  "fmlookup m k = map_option json_u64 n \<Longrightarrow> dl_u64_field m k = Ok n"
  "fmlookup m k = map_option json_strings ss \<Longrightarrow> dl_string_array_field m k = Ok ss"
proof -
  show "fmlookup m k = map_option JString s \<Longrightarrow> dl_string_field m k = Ok s"
    unfolding dl_string_field_def by (rule opt_field_written) simp_all
  show "fmlookup m k = map_option JBool b \<Longrightarrow> dl_bool_field m k = Ok b"
    unfolding dl_bool_field_def by (rule opt_field_written) simp_all
  show "fmlookup m k = map_option json_u64 n \<Longrightarrow> dl_u64_field m k = Ok n"
    unfolding dl_u64_field_def by (rule opt_field_written [where w = json_u64]) simp_all
  show "fmlookup m k = map_option json_strings ss \<Longrightarrow> dl_string_array_field m k = Ok ss"
    by (cases ss) (simp_all add: dl_string_array_field_def json_strings_def)
qed

lemma params_lookup:
  assumes "params_to_json p = JObject m"
  shows "fmlookup m ''method'' = map_option JString (lp_method p)"
    "fmlookup m ''scid'' = map_option JString (lp_scid p)"
    "fmlookup m ''updateKeys'' = map_option json_strings (lp_update_keys p)"
    "fmlookup m ''prerotation'' = map_option JBool (lp_prerotation p)"
    "fmlookup m ''nextKeyHashes'' = map_option json_strings (lp_next_key_hashes p)"
    "fmlookup m ''portable'' = map_option JBool (portable_written p)"
    "fmlookup m ''deactivated'' = map_option JBool (lp_deactivated p)"
    "fmlookup m ''ttl'' = map_option json_u64 (lp_ttl p)"
    "fmlookup m ''witness'' = lp_witness p"
    "fmlookup m ''watchers'' =
       map_option json_strings (if lp_format p = WebVH10 then lp_watchers p else None)"
  using assms by (auto simp: params_to_json_def Let_def)

lemma params_written: "params_from_json (params_to_json p) (lp_format p) = Ok (params_on_wire p)"
proof -
  obtain m where m: "params_to_json p = JObject m" by (simp add: params_to_json_def Let_def)
  note l = params_lookup [OF m]
  show ?thesis
    using dl_fields_written(1) [OF l(1)] dl_fields_written(1) [OF l(2)] dl_fields_written(4) [OF l(3)]
      dl_fields_written(2) [OF l(4)] dl_fields_written(4) [OF l(5)] dl_fields_written(2) [OF l(6)]
      dl_fields_written(2) [OF l(7)] dl_fields_written(3) [OF l(8)] dl_fields_written(4) [OF l(10)]
      l(9)
    by (cases "lp_format p")
      (simp_all add: m params_from_json_def Let_def params_on_wire_def)
qed

definition entry_on_wire :: "did_log_entry \<Rightarrow> did_log_entry" where
  "entry_on_wire e = e\<lparr>le_parameters := params_on_wire (le_parameters e)\<rparr>"

lemma entry_on_wire_idem [simp]: "entry_on_wire (entry_on_wire e) = entry_on_wire e"
  by (simp add: entry_on_wire_def)

lemma entry_same_json: "entry_to_json (entry_on_wire e) = entry_to_json e"
  by (cases "le_format e") (simp_all add: entry_to_json_def entry_on_wire_def params_same_json)

lemma entry_written:
  assumes "lp_format (le_parameters e) = le_format e"
  shows "entry_from_json (entry_to_json e) = Ok (entry_on_wire e)"
proof (cases "le_format e")
  case TDW03
  with assms params_written [of "le_parameters e"] doc_state_codec.dec_enc [of "le_state e"]
  show ?thesis
    by (simp add: entry_to_json_def entry_from_json_array_def entry_new_tdw_def entry_on_wire_def)
next
  case WebVH10
  with assms params_written [of "le_parameters e"] doc_state_codec.dec_enc [of "le_state e"]
  show ?thesis
    by (simp add: entry_to_json_def json_obj_def entry_from_json_object_def entry_new_webvh_def
        entry_on_wire_def dl_string_field_def opt_field_def)
qed

text \<open>Entries in wire form: what the parser returns and the constructors make, up to
  \<open>portable\<close>.\<close>

definition wire_entry :: "did_log_entry \<Rightarrow> bool" where
  "wire_entry e \<longleftrightarrow> lp_format (le_parameters e) = le_format e \<and> entry_on_wire e = e"

interpretation entry_codec: json_codec entry_to_json entry_from_json wire_entry
  by unfold_locales (simp add: wire_entry_def entry_written)

lemma params_from_json_format: "params_from_json v fmt = Ok p \<Longrightarrow> lp_format p = fmt"
  by (auto simp: params_from_json_def ok_iff Let_def)

lemma entry_parsed_format:
  "entry_from_json v = Ok e \<Longrightarrow> lp_format (le_parameters e) = le_format e"
  by (cases v) (auto simp: entry_from_json_array_def entry_from_json_object_def ok_iff
      entry_new_tdw_def entry_new_webvh_def dest: params_from_json_format split: if_splits)

text \<open>C37: log entries and their JSON. Whenever an entry's parameters have the entry's own
  format, its JSON is read back as the entry itself, except that a \<open>did:tdw\<close> genesis entry
  (one with a SCID) that leaves \<open>portable\<close> unset reads \<open>false\<close>; and that normal form has the
  same JSON, so no hash or signature over the entry changes. Every parsed entry has that
  shape, and reading its JSON again gives its normal form.\<close>

theorem log_entry_roundtrip:
  "(lp_format (le_parameters e) = le_format e \<longrightarrow>
      entry_from_json (entry_to_json e) = Ok (entry_on_wire e))
    \<and> entry_to_json (entry_on_wire e) = entry_to_json e
    \<and> (entry_from_json v = Ok e' \<longrightarrow> entry_from_json (entry_to_json e') = Ok (entry_on_wire e'))"
  using entry_written [of e] entry_same_json [of e] entry_written [of e'] entry_parsed_format
  by blast

theorem log_entry_roundtrip_witness:
  "entry_from_json (entry_to_json
     (entry_new_tdw ''1-a'' ''t'' (params_new_tdw_minimal ''did:tdw:0.3'' ''a'' [''z1'']) (StateValue JNull) []))
   = Ok (entry_new_tdw ''1-a'' ''t'' ((params_new_tdw_minimal ''did:tdw:0.3'' ''a'' [''z1''])
            \<lparr>lp_portable := Some False\<rparr>) (StateValue JNull) [])"
  using log_entry_roundtrip
    [of "entry_new_tdw ''1-a'' ''t'' (params_new_tdw_minimal ''did:tdw:0.3'' ''a'' [''z1'']) (StateValue JNull) []"]
  by (simp add: entry_new_tdw_def params_new_tdw_minimal_def params_new_tdw_def entry_on_wire_def
      params_on_wire_def portable_written_def)

section \<open>The log file\<close>

text \<open>The error of one line, with its 1-based number in front.\<close>

fun line_error :: "nat \<Rightarrow> did_log_error \<Rightarrow> did_log_error" where
  "line_error i (DLInvalidFormat m) = DLInvalidFormat (''line '' @ show_nat (i + 1) @ '': '' @ m)"
| "line_error i (DLMissingField f) =
     DLInvalidFormat (''line '' @ show_nat (i + 1) @ '': missing field '' @ quoted f)"
| "line_error i (DLInvalidFieldType m) = DLInvalidFormat (''line '' @ show_nat (i + 1) @ '': '' @ m)"

fun log_from_lines :: "codecs \<Rightarrow> nat \<Rightarrow> string list \<Rightarrow> (did_log_entry list, did_log_error) result" where
  "log_from_lines c i [] = Ok []"
| "log_from_lines c i (l # ls) =
     (if trim l = [] then log_from_lines c (i + 1) ls
      else
        and_then (map_err (\<lambda>e. DLInvalidFormat (''line '' @ show_nat (i + 1) @ '': '' @ e))
                    (json_from_str c (trim l))) (\<lambda>v.
        and_then (map_err (line_error i) (entry_from_json v)) (\<lambda>e.
        and_then (log_from_lines c (i + 1) ls) (\<lambda>es. Ok (e # es)))))"

definition log_from_jsonl :: "codecs \<Rightarrow> string \<Rightarrow> (did_log_entry list, did_log_error) result" where
  "log_from_jsonl c s = log_from_lines c 0 (str_lines s)"

definition entry_line :: "codecs \<Rightarrow> did_log_entry \<Rightarrow> string" where
  "entry_line c e = json_to_string c (entry_to_json e)"

text \<open>
  The text of an entry is one line that trimming leaves alone and that parses back: what
  \<open>serde_json\<close> documents of compact output (control characters are escaped).
\<close>

definition one_line :: "string \<Rightarrow> bool" where
  "one_line t \<longleftrightarrow> t \<noteq> [] \<and> trim t = t \<and> CHR 0x0A \<notin> set t \<and> CHR 0x0D \<notin> set t"

definition entry_text_law :: "codecs \<Rightarrow> did_log_entry \<Rightarrow> bool" where
  "entry_text_law c e \<longleftrightarrow>
     one_line (entry_line c e) \<and> json_from_str c (entry_line c e) = Ok (entry_to_json e)"

lemma strip_cr_one_line [simp]: "one_line t \<Longrightarrow> strip_cr t = t"
  by (auto simp: one_line_def strip_cr_def) (metis last_in_set)

lemma str_lines_join:
  assumes "\<And>t. t \<in> set ts \<Longrightarrow> one_line t"
  shows "str_lines (concat (map (\<lambda>t. t @ [CHR 0x0A]) ts)) = ts"
proof -
  have split: "split_on (CHR 0x0A) (concat (map (\<lambda>t. t @ [CHR 0x0A]) ts)) = ts @ [[]]"
    using assms by (induction ts) (simp_all add: split_on_append one_line_def)
  have "map strip_cr ts = ts" using assms by (induction ts) simp_all
  then show ?thesis by (simp add: str_lines_def split Let_def)
qed

lemma log_from_lines_written:
  assumes "\<And>e. e \<in> set es \<Longrightarrow> entry_text_law c e \<and> wire_entry e"
  shows "log_from_lines c i (map (entry_line c) es) = Ok es"
  using assms
  by (induction es arbitrary: i)
    (simp_all add: entry_text_law_def one_line_def entry_codec.dec_enc)

text \<open>A log written line by line is the log that is read. For entries in wire form, the
  lines (each ended by a line feed) parse back to exactly the same entries in the same
  order; a text of blank lines is the empty log.\<close>

theorem log_jsonl_roundtrip:
  assumes "list_all (\<lambda>e. entry_text_law c e \<and> wire_entry e) es"
  shows "log_from_jsonl c (concat (map (\<lambda>e. entry_line c e @ [CHR 0x0A]) es)) = Ok es"
proof -
  have "str_lines (concat (map (\<lambda>t. t @ [CHR 0x0A]) (map (entry_line c) es))) = map (entry_line c) es"
    by (rule str_lines_join) (use assms in \<open>auto simp: list_all_iff entry_text_law_def\<close>)
  then show ?thesis
    using assms by (simp add: log_from_jsonl_def comp_def log_from_lines_written list_all_iff)
qed

theorem log_jsonl_roundtrip_witness:
  "\<exists>c e. log_from_jsonl c (concat (map (\<lambda>e. entry_line c e @ [CHR 0x0A]) [e, e])) = Ok [e, e]"
proof -
  let ?e = "entry_new_webvh ''1-a'' ''t'' (params_new_webvh_minimal ''m'' ''s'' []) (StateValue JNull) []"
  let ?c = "plain_codecs\<lparr>json_to_string := (\<lambda>_. ''x''),
      json_from_str := (\<lambda>_. Ok (entry_to_json ?e))\<rparr>"
  have "trim ''x'' = ''x''"
    by (simp add: trim_def trim_start_def trim_end_def white_space_def trim_front.simps)
  then have "entry_text_law ?c ?e" by (simp add: entry_text_law_def entry_line_def one_line_def)
  moreover have "wire_entry ?e"
    by (simp add: wire_entry_def entry_on_wire_def params_on_wire_def portable_written_def
        entry_new_webvh_def params_new_webvh_minimal_def params_new_webvh_def)
  ultimately have "list_all (\<lambda>e. entry_text_law ?c e \<and> wire_entry e) [?e, ?e]" by simp
  from log_jsonl_roundtrip [OF this] show ?thesis by blast
qed

section \<open>Hashes\<close>

definition hash_log_entry :: "codecs \<Rightarrow> json \<Rightarrow> string" where
  "hash_log_entry c v = bs58_encode c (multihash_sha256 c (jcs_to_vec c v))"

definition derive_scid :: "codecs \<Rightarrow> json \<Rightarrow> string" where
  "derive_scid c preliminary_entry = hash_log_entry c preliminary_entry"

definition derive_entry_hash :: "codecs \<Rightarrow> json \<Rightarrow> string" where
  "derive_entry_hash c entry = hash_log_entry c entry"

definition eddsa_jcs_2022_hash :: "codecs \<Rightarrow> json \<Rightarrow> json \<Rightarrow> u8 list" where
  "eddsa_jcs_2022_hash c doc config =
     sha256 c (jcs_to_vec c config) @ sha256 c (jcs_to_vec c doc)"

datatype scid_error = SCIDInvalidEncoding string | SCIDInvalidMultihash string

definition show_scid_error :: "scid_error \<Rightarrow> string" where
  "show_scid_error er =
     (case er of
        SCIDInvalidEncoding m \<Rightarrow> ''invalid base58 encoding: '' @ m
      | SCIDInvalidMultihash m \<Rightarrow> ''invalid multihash: '' @ m)"

record scid =
  scid_code :: u64
  scid_size :: u8
  scid_digest :: "u8 list"

definition scid_to_string :: "codecs \<Rightarrow> scid \<Rightarrow> string" where
  "scid_to_string c s = bs58_encode c (multihash_to_bytes c (scid_code s) (scid_digest s))"

definition scid_from_str :: "codecs \<Rightarrow> string \<Rightarrow> (scid, scid_error) result" where
  "scid_from_str c s =
     and_then (map_err SCIDInvalidEncoding (bs58_decode c s)) (\<lambda>bs.
     and_then (map_err SCIDInvalidMultihash (multihash_from_bytes c bs)) (\<lambda>(code, n, digest).
       Ok \<lparr>scid_code = code, scid_size = n, scid_digest = digest\<rparr>))"

text \<open>A multihash is read as it is written; base58 text has one byte string.\<close>

definition multihash_law :: "codecs \<Rightarrow> bool" where
  "multihash_law c \<longleftrightarrow>
     (\<forall>bs code n digest. multihash_from_bytes c bs = Ok (code, n, digest) \<longrightarrow>
        multihash_to_bytes c code digest = bs)
     \<and> (\<forall>s bs. bs58_decode c s = Ok bs \<longrightarrow> bs58_encode c bs = s)"

lemma scid_text: "multihash_law c \<Longrightarrow> scid_from_str c s = Ok x \<Longrightarrow> scid_to_string c x = s"
  by (auto simp: scid_from_str_def scid_to_string_def ok_iff multihash_law_def)

section \<open>Editing a serialised entry\<close>

fun strip_proof_slot :: "json \<Rightarrow> log_entry_format \<Rightarrow> json" where
  "strip_proof_slot v TDW03 = (case v of JArray arr \<Rightarrow> JArray (butlast arr) | _ \<Rightarrow> v)"
| "strip_proof_slot v WebVH10 = (case v of JObject m \<Rightarrow> JObject (fmdrop ''proof'' m) | _ \<Rightarrow> v)"

fun set_version_id :: "json \<Rightarrow> string \<Rightarrow> log_entry_format \<Rightarrow> json" where
  "set_version_id v vid TDW03 =
     (case v of JArray (x # xs) \<Rightarrow> JArray (JString vid # xs) | _ \<Rightarrow> v)"
| "set_version_id v vid WebVH10 =
     (case v of JObject m \<Rightarrow> JObject (fmupd ''versionId'' (JString vid) m) | _ \<Rightarrow> v)"

fun append_proof :: "json \<Rightarrow> json \<Rightarrow> log_entry_format \<Rightarrow> json" where
  "append_proof v prf TDW03 = (case v of JArray arr \<Rightarrow> JArray (arr @ [JArray [prf]]) | _ \<Rightarrow> v)"
| "append_proof v prf WebVH10 =
     (case v of JObject m \<Rightarrow> JObject (fmupd ''proof'' (JArray [prf]) m) | _ \<Rightarrow> v)"

text \<open>The publication pipeline: drop the proof slot, set the version, add one proof.\<close>

definition publish_entry :: "json \<Rightarrow> string \<Rightarrow> json \<Rightarrow> log_entry_format \<Rightarrow> json" where
  "publish_entry v vid prf fmt =
     append_proof (set_version_id (strip_proof_slot v fmt) vid fmt) prf fmt"

text \<open>Publishing an entry. Stripping the proof slot of a serialised entry, setting its
  version and appending the proof gives the JSON of the entry with exactly that version and
  that one proof, in both wire formats: nothing else of the entry changes, whatever proofs
  it carried before.\<close>

theorem publish_entry_correct:
  "publish_entry (entry_to_json e) vid prf (le_format e) =
     entry_to_json (e\<lparr>le_version_id := vid, le_proofs := [prf]\<rparr>)"
proof (cases "le_format e")
  case TDW03
  then show ?thesis by (simp add: publish_entry_def entry_to_json_def)
next
  case WebVH10
  have "fmupd ''proof'' (JArray [prf]) (fmupd ''versionId'' (JString vid) (fmdrop ''proof''
      (insert_all [(''versionId'', v), (''versionTime'', t), (''parameters'', p), (''state'', s),
        (''proof'', q)] fmempty)))
    = insert_all [(''versionId'', JString vid), (''versionTime'', t), (''parameters'', p),
        (''state'', s), (''proof'', JArray [prf])] fmempty" for v t p s q
    by (rule fmap_ext) auto
  with WebVH10 show ?thesis
    by (simp add: publish_entry_def entry_to_json_def json_obj_def del: insert_all.simps)
qed

section \<open>The constructed entries\<close>

text \<open>The entries of a DID's life. In either format: the genesis entry authorizes exactly
  the given update key, carries the \<open>{SCID}\<close> placeholder and no proof, and embeds the new
  document; a rotation announces exactly the new key and keeps the DID as the document's id;
  a deactivation sets \<open>deactivated\<close>, authorizes nobody and carries the old document. Only the
  genesis entry repeats the method and the SCID.\<close>

theorem constructed_entries:
  "(let e = new_genesis c fmt mk ph authn asrt now
    in le_format e = fmt \<and> lp_format (le_parameters e) = fmt
     \<and> lp_update_keys (le_parameters e) = Some [mk] \<and> lp_scid (le_parameters e) = Some ''{SCID}''
     \<and> le_version_id e = ''{SCID}'' \<and> le_proofs e = []
     \<and> le_state e = StateValue (diddoc_to_json c (diddoc_new_genesis c ph authn asrt)))
   \<and> (let e = new_rotation c fmt vid d mk authn asrt t
    in le_format e = fmt \<and> lp_format (le_parameters e) = fmt
     \<and> lp_update_keys (le_parameters e) = Some [mk] \<and> lp_scid (le_parameters e) = None
     \<and> lp_method (le_parameters e) = None \<and> lp_deactivated (le_parameters e) = None
     \<and> le_version_id e = vid \<and> le_proofs e = []
     \<and> (\<exists>doc. le_state e = StateValue doc \<and> json_get doc ''id'' = Some (JString d)))
   \<and> (let e = new_deactivation c fmt vid old t
    in le_format e = fmt \<and> lp_format (le_parameters e) = fmt
     \<and> lp_update_keys (le_parameters e) = Some [] \<and> lp_deactivated (le_parameters e) = Some True
     \<and> lp_scid (le_parameters e) = None \<and> lp_method (le_parameters e) = None
     \<and> le_version_id e = vid \<and> le_proofs e = []
     \<and> le_state e = StateValue (diddoc_to_json c old))"
  by (cases fmt)
    (simp_all add: new_genesis_def new_rotation_def new_deactivation_def entry_new_tdw_def
      entry_new_webvh_def params_new_tdw_minimal_def params_new_webvh_minimal_def
      params_new_tdw_def params_new_webvh_def diddoc_to_json_def diddoc_new_genesis_def
      diddoc_new_def with_context_def add_verification_method_def add_authentication_def
      add_assertion_method_def Let_def)

end
