(* ===== verification/LogVerify.thy ===== *)
theory LogVerify
  imports Did DidLog
begin

text \<open>
  Verification of a \<open>did:tdw\<close> 0.3 log, \<open>swiyu-core/src/didlog/verify.rs\<close>: the walk over the
  entries with its carried update keys and previous version, the checks of one entry in the
  order of the code, and the check of its proof. The walk is equivalent to a declarative chain
  condition (\<open>valid_log\<close>), from which the security properties of accepted logs follow.
\<close>

section \<open>Errors\<close>

datatype verify_error =
    VEmpty
  | VDidWithoutScid string
  | VUnsupportedFormat nat
  | VPatchState nat
  | VScidMismatch string string
  | VDidIdentifierMismatch nat string string
  | VVersionIdSequenceMismatch nat u32 string
  | VEntryHashMismatch nat string string
  | VMissingGenesisUpdateKeys
  | VMissingProof nat
  | VMalformedProof nat string
  | VProofKeyNotAuthorized nat string string
  | VSignatureInvalid nat
  | VMalformedEntry nat string

definition em_dash :: string where
  "em_dash = [CHR 0xE2, CHR 0x80, CHR 0x94]"

definition show_verify_error :: "verify_error \<Rightarrow> string" where
  "show_verify_error er =
     (case er of
        VEmpty \<Rightarrow> ''DID log is empty''
      | VDidWithoutScid d \<Rightarrow>
           ''DID '' @ quoted d @ '' has no SCID '' @ em_dash @ '' cannot verify a did:tdw log against it''
      | VUnsupportedFormat i \<Rightarrow>
           ''entry '' @ show_nat i @ '': only did:tdw 0.3 verification is implemented''
      | VPatchState i \<Rightarrow>
           ''entry '' @ show_nat i @ '': state is a Patch '' @ em_dash
           @ '' only Value states are supported for verification''
      | VScidMismatch derived claimed \<Rightarrow>
           ''genesis SCID mismatch: derived '' @ quoted derived @ '', DID claims '' @ quoted claimed
      | VDidIdentifierMismatch i expected actual \<Rightarrow>
           ''entry '' @ show_nat i @ '': state.value.id is '' @ quoted actual @ '', expected ''
           @ quoted expected
      | VVersionIdSequenceMismatch i n actual \<Rightarrow>
           ''entry '' @ show_nat i @ '': versionId '' @ quoted actual @ '' does not have the expected ''
           @ quoted (show_nat (unat n) @ ''-'') @ '' sequence prefix''
      | VEntryHashMismatch i claimed derived \<Rightarrow>
           ''entry '' @ show_nat i @ '': entryHash mismatch '' @ em_dash @ '' versionId claims ''
           @ quoted claimed @ '', recomputed '' @ quoted derived
      | VMissingGenesisUpdateKeys \<Rightarrow> ''genesis entry must announce parameters.updateKeys''
      | VMissingProof i \<Rightarrow> ''entry '' @ show_nat i @ '': no data integrity proof''
      | VMalformedProof i m \<Rightarrow> ''entry '' @ show_nat i @ '': malformed proof: '' @ m
      | VProofKeyNotAuthorized i vm mk \<Rightarrow>
           ''entry '' @ show_nat i @ '': proof verificationMethod '' @ quoted vm @ '' references key ''
           @ quoted mk @ '', which is not in the authorized updateKeys''
      | VSignatureInvalid i \<Rightarrow> ''entry '' @ show_nat i @ '': proof signature is invalid''
      | VMalformedEntry i m \<Rightarrow> ''entry '' @ show_nat i @ '': malformed: '' @ m)"

section \<open>Proofs\<close>

definition parse_did_key_vm :: "string \<Rightarrow> string option" where
  "parse_did_key_vm vm =
     Option.bind (strip_prefix ''did:key:'' vm) (\<lambda>rest.
     Option.bind (split_once (CHR ''#'') rest) (\<lambda>(mk1, mk2).
       if mk1 \<noteq> mk2 then None else Some mk1))"

definition decode_ed25519_multikey :: "codecs \<Rightarrow> string \<Rightarrow> (u8 list, string) result" where
  "decode_ed25519_multikey c s =
     and_then (map_err show_diddoc_error (mb_from_str c s)) (\<lambda>mb.
       let bs = mb_key mb
       in if length bs \<noteq> 34
          then Err (''Ed25519 multikey must decode to 34 bytes, got '' @ show_nat (length bs))
          else if bs ! 0 \<noteq> 0xed \<or> bs ! 1 \<noteq> 0x01
          then Err (''multikey is not Ed25519 (multicodec '' @ show_hex2 (bs ! 0)
                 @ show_hex2 (bs ! 1) @ '')'')
          else Ok (drop 2 bs))"

definition decode_multibase_z :: "codecs \<Rightarrow> string \<Rightarrow> (u8 list, string) result" where
  "decode_multibase_z c s =
     and_then
       (ok_or (strip_prefix ''z'' s)
          (''not a base58btc multibase string (no '' @ quoted ''z'' @ '' prefix): '' @ quoted s))
       (\<lambda>rest. map_err (\<lambda>e. ''base58 decode failed: '' @ e) (bs58_decode c rest))"

definition verify_proof ::
  "codecs \<Rightarrow> ('ed, 'ec) verifiers \<Rightarrow> nat \<Rightarrow> did_log_entry \<Rightarrow> json \<Rightarrow> string list \<Rightarrow>
   (unit, verify_error) result" where
  "verify_proof c vs i entry doc auth_keys =
     (case le_proofs entry of
        [] \<Rightarrow> Err (VMissingProof i)
      | prf # _ \<Rightarrow>
          and_then (ok_or (as_object prf) (VMalformedProof i ''proof is not an object'')) (\<lambda>obj.
          and_then (ok_or (Option.bind (fmlookup obj ''verificationMethod'') as_str)
                      (VMalformedProof i ''verificationMethod missing or not a string'')) (\<lambda>vm.
          and_then (ok_or (parse_did_key_vm vm)
                      (VMalformedProof i (''verificationMethod '' @ quoted vm
                         @ '' is not did:key:<mk>#<mk>''))) (\<lambda>multikey.
          if \<not> list_ex (\<lambda>k. k = multikey) auth_keys then Err (VProofKeyNotAuthorized i vm multikey)
          else
            and_then (map_err (VMalformedProof i) (decode_ed25519_multikey c multikey)) (\<lambda>vk_bytes.
            and_then (map_err (\<lambda>e. VMalformedProof i (''invalid Ed25519 verifying key: '' @ e))
                        (ed_from_bytes vs vk_bytes)) (\<lambda>vk.
            let config = JObject (fmdrop ''proofValue'' obj);
                hash_data = eddsa_jcs_2022_hash c doc config
            in
            and_then (ok_or (Option.bind (fmlookup obj ''proofValue'') as_str)
                        (VMalformedProof i ''proofValue missing or not a string'')) (\<lambda>pv.
            and_then (map_err (VMalformedProof i) (decode_multibase_z c pv)) (\<lambda>pv_bytes.
            if length pv_bytes \<noteq> 64
            then Err (VMalformedProof i (''proofValue must decode to 64 bytes, got ''
                   @ show_nat (length pv_bytes)))
            else if ed_verify vs vk hash_data pv_bytes then Ok ()
            else Err (VSignatureInvalid i)))))))))"

section \<open>One entry\<close>

text \<open>The array that is hashed: the first four elements with the previous version in front.\<close>

definition hashing_entry :: "json list \<Rightarrow> string \<Rightarrow> json" where
  "hashing_entry arr prev = JArray ((take 4 arr)[0 := JString prev])"

definition verify_entry ::
  "codecs \<Rightarrow> ('ed, 'ec) verifiers \<Rightarrow> nat \<Rightarrow> u32 \<Rightarrow> did_log_entry \<Rightarrow> string \<Rightarrow> string \<Rightarrow>
   string option \<Rightarrow> string list \<Rightarrow> (unit, verify_error) result" where
  "verify_entry c vs i n entry claimed_scid expected_did prev_version_id auth_keys =
     and_then
       (case le_state entry of StateValue v \<Rightarrow> Ok v | StatePatch _ \<Rightarrow> Err (VPatchState i)) (\<lambda>doc.
     and_then (ok_or (Option.bind (json_get doc ''id'') as_str)
                 (VMalformedEntry i ''state.value.id is missing or not a string'')) (\<lambda>actual_did.
     if actual_did \<noteq> expected_did then Err (VDidIdentifierMismatch i expected_did actual_did)
     else
       let vid = le_version_id entry in
       and_then (ok_or (strip_prefix (show_nat (unat n) @ ''-'') vid)
                   (VVersionIdSequenceMismatch i n vid)) (\<lambda>actual_hash.
       and_then (ok_or (as_array (entry_to_json entry))
                   (VMalformedEntry i ''entry is not a JSON array'')) (\<lambda>arr.
       if length arr < 4
       then Err (VMalformedEntry i (''expected at least 4 elements, got '' @ show_nat (length arr)))
       else
         let hv = hashing_entry arr (case prev_version_id of Some p \<Rightarrow> p | None \<Rightarrow> claimed_scid);
             derived_hash = derive_entry_hash c hv
         in if derived_hash \<noteq> actual_hash then Err (VEntryHashMismatch i actual_hash derived_hash)
         else
           and_then
             (if i = 0 then
                let prelim_str = str_replace claimed_scid ''{SCID}'' (json_to_string c hv) in
                and_then (map_err (\<lambda>e. VMalformedEntry i (''re-parse preliminary form: '' @ e))
                            (json_from_str c prelim_str)) (\<lambda>prelim.
                  let derived_scid = derive_scid c prelim
                  in if derived_scid \<noteq> claimed_scid
                     then Err (VScidMismatch derived_scid claimed_scid) else Ok ())
              else Ok ())
             (\<lambda>_. verify_proof c vs i entry doc auth_keys)))))"

section \<open>The walk over the log\<close>

fun verify_entries ::
  "codecs \<Rightarrow> ('ed, 'ec) verifiers \<Rightarrow> string \<Rightarrow> string \<Rightarrow> nat \<Rightarrow> string list \<Rightarrow> string option \<Rightarrow>
   did_log_entry list \<Rightarrow> (unit, verify_error) result" where
  "verify_entries c vs claimed_scid did_str i effective_update_keys prev_version_id [] = Ok ()"
| "verify_entries c vs claimed_scid did_str i effective_update_keys prev_version_id (entry # es) =
     (let n = (of_nat i :: u32) + 1 in
      and_then
        (if i = 0 then ok_or (lp_update_keys (le_parameters entry)) VMissingGenesisUpdateKeys
         else Ok effective_update_keys) (\<lambda>auth_keys.
      and_then (verify_entry c vs i n entry claimed_scid did_str prev_version_id auth_keys) (\<lambda>_.
        verify_entries c vs claimed_scid did_str (Suc i)
          (case lp_update_keys (le_parameters entry) of
             Some uks \<Rightarrow> uks | None \<Rightarrow> effective_update_keys)
          (Some (le_version_id entry)) es)))"

fun check_formats :: "nat \<Rightarrow> did_log_entry list \<Rightarrow> (unit, verify_error) result" where
  "check_formats i [] = Ok ()"
| "check_formats i (e # es) =
     (if le_format e \<noteq> TDW03 then Err (VUnsupportedFormat i) else check_formats (Suc i) es)"

definition verify_log ::
  "codecs \<Rightarrow> ('ed, 'ec) verifiers \<Rightarrow> did_log_entry list \<Rightarrow> did \<Rightarrow> (unit, verify_error) result" where
  "verify_log c vs entries d =
     (if entries = [] then Err VEmpty
      else
        and_then (ok_or (did_scid d) (VDidWithoutScid (did_to_string d))) (\<lambda>claimed_scid.
        and_then (check_formats 0 entries) (\<lambda>_.
          verify_entries c vs claimed_scid (did_to_string d) 0 [] None entries)))"

section \<open>The chain condition\<close>

text \<open>The document of an entry, the keys in force before an entry, the version before it.\<close>

fun entry_doc :: "did_log_entry \<Rightarrow> json option" where
  "entry_doc e = (case le_state e of StateValue v \<Rightarrow> Some v | StatePatch _ \<Rightarrow> None)"

fun announced :: "string list \<Rightarrow> did_log_entry list \<Rightarrow> string list" where
  "announced ks [] = ks"
| "announced ks (e # es) =
     announced (case lp_update_keys (le_parameters e) of Some uks \<Rightarrow> uks | None \<Rightarrow> ks) es"

definition authorized :: "did_log_entry list \<Rightarrow> nat \<Rightarrow> string list option" where
  "authorized es i =
     (if i = 0 then lp_update_keys (le_parameters (es ! 0)) else Some (announced [] (take i es)))"

definition prev_version :: "string \<Rightarrow> did_log_entry list \<Rightarrow> nat \<Rightarrow> string" where
  "prev_version scid es i = (if i = 0 then scid else le_version_id (es ! (i - 1)))"

text \<open>The typed content of an entry as it is hashed, after the version given.\<close>

definition hash_form :: "string \<Rightarrow> did_log_entry \<Rightarrow> json" where
  "hash_form prev e =
     JArray [JString prev, JString (le_version_time e), params_to_json (le_parameters e),
             doc_state_to_json (le_state e)]"

definition proof_valid ::
  "codecs \<Rightarrow> ('ed, 'ec) verifiers \<Rightarrow> did_log_entry \<Rightarrow> json \<Rightarrow> string list \<Rightarrow> bool" where
  "proof_valid c vs e doc ks \<longleftrightarrow>
     (\<exists>obj rest mk key vk pv sig.
        le_proofs e = JObject obj # rest
      \<and> fmlookup obj ''verificationMethod'' = Some (JString (''did:key:'' @ mk @ ''#'' @ mk))
      \<and> CHR ''#'' \<notin> set mk \<and> mk \<in> set ks
      \<and> decode_ed25519_multikey c mk = Ok key \<and> ed_from_bytes vs key = Ok vk
      \<and> fmlookup obj ''proofValue'' = Some (JString (''z'' @ pv)) \<and> bs58_decode c pv = Ok sig
      \<and> length sig = 64
      \<and> ed_verify vs vk (eddsa_jcs_2022_hash c doc (JObject (fmdrop ''proofValue'' obj))) sig)"

definition genesis_bound :: "codecs \<Rightarrow> string \<Rightarrow> json \<Rightarrow> bool" where
  "genesis_bound c scid hv \<longleftrightarrow>
     (\<exists>prelim. json_from_str c (str_replace scid ''{SCID}'' (json_to_string c hv)) = Ok prelim
        \<and> derive_scid c prelim = scid)"

definition entry_valid ::
  "codecs \<Rightarrow> ('ed, 'ec) verifiers \<Rightarrow> string \<Rightarrow> string \<Rightarrow> nat \<Rightarrow> string \<Rightarrow> string list \<Rightarrow>
   did_log_entry \<Rightarrow> bool" where
  "entry_valid c vs scid did_str i prev ks e \<longleftrightarrow>
     (\<exists>doc. le_state e = StateValue doc \<and> json_get doc ''id'' = Some (JString did_str)
        \<and> le_version_id e = show_nat (unat ((of_nat i :: u32) + 1)) @ ''-''
             @ derive_entry_hash c (hash_form prev e)
        \<and> (i = 0 \<longrightarrow> genesis_bound c scid (hash_form prev e))
        \<and> proof_valid c vs e doc ks)"

definition valid_log ::
  "codecs \<Rightarrow> ('ed, 'ec) verifiers \<Rightarrow> did_log_entry list \<Rightarrow> did \<Rightarrow> bool" where
  "valid_log c vs es d \<longleftrightarrow>
     es \<noteq> [] \<and> (\<exists>scid. did_scid d = Some scid
       \<and> (\<forall>i < length es. le_format (es ! i) = TDW03
            \<and> (\<exists>ks. authorized es i = Some ks
                 \<and> entry_valid c vs scid (did_to_string d) i (prev_version scid es i) ks (es ! i))))"

section \<open>The checks decide the condition\<close>

lemma parse_did_key_vm_some:
  "parse_did_key_vm vm = Some mk \<longleftrightarrow> vm = ''did:key:'' @ mk @ ''#'' @ mk \<and> CHR ''#'' \<notin> set mk"
  by (auto simp: parse_did_key_vm_def ok_iff bind_eq_Some_conv)

lemma decode_multibase_z_ok:
  "decode_multibase_z c s = Ok bs \<longleftrightarrow> (\<exists>r. s = ''z'' @ r \<and> bs58_decode c r = Ok bs)"
  by (auto simp: decode_multibase_z_def ok_iff)

lemma proof_valid_alt:
  "proof_valid c vs e doc ks \<longleftrightarrow>
     (\<exists>obj rest vm mk key vk pv sig.
        le_proofs e = JObject obj # rest
      \<and> fmlookup obj ''verificationMethod'' = Some (JString vm) \<and> parse_did_key_vm vm = Some mk
      \<and> mk \<in> set ks \<and> decode_ed25519_multikey c mk = Ok key \<and> ed_from_bytes vs key = Ok vk
      \<and> fmlookup obj ''proofValue'' = Some (JString pv) \<and> decode_multibase_z c pv = Ok sig
      \<and> length sig = 64
      \<and> ed_verify vs vk (eddsa_jcs_2022_hash c doc (JObject (fmdrop ''proofValue'' obj))) sig)"
  unfolding proof_valid_def parse_did_key_vm_some decode_multibase_z_ok by blast

lemma verify_proof_sound: "verify_proof c vs i e doc ks = Ok () \<Longrightarrow> proof_valid c vs e doc ks"
  unfolding proof_valid_alt verify_proof_def
  by (auto simp: ok_iff Let_def list_ex_iff bind_eq_Some_conv split: if_splits list.splits)

lemma verify_proof_complete: "proof_valid c vs e doc ks \<Longrightarrow> verify_proof c vs i e doc ks = Ok ()"
  unfolding proof_valid_alt by (auto simp: verify_proof_def Let_def list_ex_iff)

lemma verify_proof_ok: "verify_proof c vs i e doc ks = Ok () \<longleftrightarrow> proof_valid c vs e doc ks"
  using verify_proof_sound verify_proof_complete by blast

lemma hashing_entry_form:
  "le_format e = TDW03 \<Longrightarrow>
   entry_to_json e = JArray arr \<Longrightarrow> hashing_entry arr prev = hash_form prev e \<and> \<not> length arr < 4"
  by (auto simp: entry_to_json_def hashing_entry_def hash_form_def)

lemma entry_array: "le_format e = TDW03 \<Longrightarrow> \<exists>arr. entry_to_json e = JArray arr"
  by (simp add: entry_to_json_def)

lemma verify_entry_ok:
  assumes "le_format e = TDW03"
  shows "verify_entry c vs i (of_nat i + 1) e scid did_str prev ks = Ok () \<longleftrightarrow>
    entry_valid c vs scid did_str i (case prev of Some p \<Rightarrow> p | None \<Rightarrow> scid) ks e"
proof -
  obtain arr where arr: "entry_to_json e = JArray arr" using entry_array [OF assms] by blast
  note form = hashing_entry_form [OF assms arr]
  show ?thesis
    by (cases "le_state e")
      (auto simp: verify_entry_def entry_valid_def genesis_bound_def arr form ok_iff Let_def
        verify_proof_ok bind_eq_Some_conv split: if_splits)
qed

lemma verify_entries_append:
  "verify_entries c vs scid d i eff prev (xs @ ys) =
     and_then (verify_entries c vs scid d i eff prev xs) (\<lambda>_.
       verify_entries c vs scid d (i + length xs) (announced eff xs)
         (if xs = [] then prev else Some (le_version_id (last xs))) ys)"
  by (induction xs arbitrary: i eff prev) (simp_all add: and_then_assoc Let_def)

lemma announced_append: "announced ks (xs @ ys) = announced (announced ks xs) ys"
  by (induction xs arbitrary: ks) simp_all

lemma announced_first:
  "lp_update_keys (le_parameters (es ! 0)) = Some uks \<Longrightarrow> es \<noteq> [] \<Longrightarrow> announced ks es = announced [] es"
  by (cases es) simp_all

lemma check_formats_ok: "check_formats i es = Ok () \<longleftrightarrow> (\<forall>e \<in> set es. le_format e = TDW03)"
  by (induction es arbitrary: i) auto

lemma authorized_append [simp]: "i < length xs \<Longrightarrow> authorized (xs @ ys) i = authorized xs i"
  by (auto simp: authorized_def nth_append)

lemma prev_version_append [simp]:
  "i < length xs \<Longrightarrow> prev_version scid (xs @ ys) i = prev_version scid xs i"
  by (auto simp: prev_version_def nth_append)

lemma last_is_prev: "xs \<noteq> [] \<Longrightarrow> prev_version scid (xs @ ys) (length xs) = le_version_id (last xs)"
  by (simp add: prev_version_def nth_append last_conv_nth)

lemma verify_entries_ok:
  assumes "\<forall>e \<in> set es. le_format e = TDW03"
  shows "verify_entries c vs scid d 0 [] None es = Ok () \<longleftrightarrow>
    (\<forall>i < length es. \<exists>ks. authorized es i = Some ks
       \<and> entry_valid c vs scid d i (prev_version scid es i) ks (es ! i))"
  using assms
proof (induction es rule: rev_induct)
  case (snoc e xs)
  have e: "le_format e = TDW03" using snoc.prems by simp
  have last: "verify_entries c vs scid d (length xs) (announced [] xs)
      (if xs = [] then None else Some (le_version_id (last xs))) [e] = Ok () \<longleftrightarrow>
    (\<exists>ks. authorized (xs @ [e]) (length xs) = Some ks
       \<and> entry_valid c vs scid d (length xs) (prev_version scid (xs @ [e]) (length xs)) ks e)"
    using verify_entry_ok [OF e, of c vs "length xs" scid d]
    by (auto simp: ok_iff Let_def authorized_def last_is_prev)
      (auto simp: prev_version_def)
  have "verify_entries c vs scid d 0 [] None (xs @ [e]) = Ok () \<longleftrightarrow>
      verify_entries c vs scid d 0 [] None xs = Ok () \<and>
      verify_entries c vs scid d (length xs) (announced [] xs)
        (if xs = [] then None else Some (le_version_id (last xs))) [e] = Ok ()"
    by (simp only: verify_entries_append ok_iff add_0) auto
  also have "\<dots> \<longleftrightarrow> (\<forall>i < length xs. \<exists>ks. authorized (xs @ [e]) i = Some ks
         \<and> entry_valid c vs scid d i (prev_version scid (xs @ [e]) i) ks ((xs @ [e]) ! i))
      \<and> (\<exists>ks. authorized (xs @ [e]) (length xs) = Some ks
         \<and> entry_valid c vs scid d (length xs) (prev_version scid (xs @ [e]) (length xs)) ks e)"
    unfolding last using snoc by (simp add: nth_append)
  finally show ?case by (simp add: less_Suc_eq nth_append) blast
qed simp

lemma verify_log_valid: "verify_log c vs es d = Ok () \<longleftrightarrow> valid_log c vs es d"
proof (cases "es \<noteq> [] \<and> (\<exists>scid. did_scid d = Some scid) \<and> (\<forall>e \<in> set es. le_format e = TDW03)")
  case True
  then obtain scid where scid: "did_scid d = Some scid" and fmt: "\<forall>e \<in> set es. le_format e = TDW03"
    and ne: "es \<noteq> []" by blast
  have "check_formats 0 es = Ok ()" using fmt by (simp add: check_formats_ok)
  then have "verify_log c vs es d = verify_entries c vs scid (did_to_string d) 0 [] None es"
    using scid ne by (simp add: verify_log_def)
  with verify_entries_ok [OF fmt] scid ne fmt show ?thesis by (simp add: valid_log_def)
next
  case False
  then have "verify_log c vs es d \<noteq> Ok ()"
    by (auto simp: verify_log_def ok_iff check_formats_ok)
  moreover from False have "\<not> valid_log c vs es d"
    by (auto simp: valid_log_def in_set_conv_nth)
  ultimately show ?thesis by blast
qed

text \<open>C1: what \<open>verify_log\<close> accepts. A log verifies for a DID exactly if it is not empty, the
  DID has a SCID, and every entry is a \<open>did:tdw\<close> 0.3 entry with a full document whose id is
  the DID, whose version is its number and the hash of its content chained to the previous
  version (the SCID for the first entry, which must also be the SCID derived from the entry
  itself), and whose first proof is a valid signature over that document by a key in force
  before the entry: announced by the first entry for itself, carried forward otherwise.\<close>

theorem verify_log_iff: "verify_log c vs es d = Ok () \<longleftrightarrow> valid_log c vs es d"
  by (rule verify_log_valid)


lemma verify_log_snoc:
  assumes "did_scid d = Some scid" "xs \<noteq> []" "le_format e = TDW03"
  shows "verify_log c vs (xs @ [e]) d =
    and_then (verify_log c vs xs d) (\<lambda>_.
      verify_entry c vs (length xs) (of_nat (length xs) + 1) e scid (did_to_string d)
        (Some (le_version_id (last xs))) (announced [] xs))"
proof -
  have fmt: "check_formats i (xs @ [e]) = check_formats i xs" for i
    using assms(3) by (induction xs arbitrary: i) simp_all
  have "verify_entries c vs scid (did_to_string d) (length xs) (announced [] xs)
      (Some (le_version_id (last xs))) [e] =
    verify_entry c vs (length xs) (of_nat (length xs) + 1) e scid (did_to_string d)
      (Some (le_version_id (last xs))) (announced [] xs)"
    using assms(2)
    by (cases "verify_entry c vs (length xs) (of_nat (length xs) + 1) e scid (did_to_string d)
      (Some (le_version_id (last xs))) (announced [] xs)") simp_all
  then show ?thesis
    using assms by (simp add: verify_log_def fmt verify_entries_append and_then_assoc)
qed

text \<open>Logs are verified incrementally. Verifying a log extended by a \<open>did:tdw\<close> entry is
  verifying the log and then that one entry, with the number it has, the keys the log left in
  force and the last version; the same error is reported as for the whole log.\<close>

theorem verify_log_extend:
  assumes "did_scid d = Some scid" "xs \<noteq> []" "le_format e = TDW03"
  shows "verify_log c vs (xs @ [e]) d =
    and_then (verify_log c vs xs d) (\<lambda>_.
      verify_entry c vs (length xs) (of_nat (length xs) + 1) e scid (did_to_string d)
        (Some (le_version_id (last xs))) (announced [] xs))"
  by (rule verify_log_snoc [OF assms])


section \<open>A sample log\<close>

text \<open>
  A log of two entries that verifies under the plain encodings and the plain signature
  scheme, for the instances below.
\<close>

definition sample_scid :: string where
  "sample_scid = bytes_text [0x12, 0x20]"

definition sample_did :: did where
  "sample_did =
     \<lparr>did_method = Tdw, did_scid = Some sample_scid, did_domain = ''example.com'', did_path = None\<rparr>"

definition sample_multikey :: string where
  "sample_multikey = multikey_of plain_codecs (ed_public plain_signer)"

definition sample_proof :: json where
  "sample_proof =
     json_obj [(''verificationMethod'', JString (''did:key:'' @ sample_multikey @ ''#'' @ sample_multikey)),
               (''proofValue'', JString (''z'' @ bytes_text (replicate 32 1 @ replicate 32 0)))]"

definition sample_entry :: "string \<Rightarrow> string list option \<Rightarrow> did_log_entry" where
  "sample_entry n uks =
     entry_new_tdw (n @ ''-'' @ sample_scid) ''t''
       (params_new_tdw None None uks None None None None None None)
       (StateValue (json_obj [(''id'', JString (did_to_string sample_did))])) [sample_proof]"

definition sample_log :: "did_log_entry list" where
  "sample_log = [sample_entry ''1'' (Some [sample_multikey]), sample_entry ''2'' (Some [])]"

lemma sample_hash: "derive_entry_hash plain_codecs (JArray xs) = sample_scid"
  by (simp add: derive_entry_hash_def hash_log_entry_def plain_codecs_def sample_scid_def)

lemma sample_genesis: "genesis_bound plain_codecs sample_scid (JArray xs)"
  by (simp add: genesis_bound_def derive_scid_def hash_log_entry_def plain_codecs_def
      sample_scid_def str_replace_def bytes_text_def as_bytes_def)

lemma sample_proof_valid:
  assumes "sample_multikey \<in> set ks"
  shows "proof_valid plain_codecs plain_verifiers (sample_entry n uks)
    (json_obj [(''id'', JString (did_to_string sample_did))]) ks"
proof -
  have hash: "CHR ''#'' \<notin> set sample_multikey"
    by (simp add: sample_multikey_def multikey_of_def plain_codecs_def in_bytes_text
        multicodec_ed25519_def plain_signer_def)
  have key: "decode_ed25519_multikey plain_codecs sample_multikey = Ok (replicate 32 1)"
    by (simp add: decode_ed25519_multikey_def sample_multikey_def multikey_of_mb mb_roundtrip
        bs58_law_carries mb_from_ed25519_bytes_def multicodec_ed25519_def plain_signer_def)
  have pv: "bs58_decode plain_codecs (bytes_text (replicate 32 1 @ replicate 32 0))
      = Ok (replicate 32 1 @ replicate 32 0)"
    by (simp add: plain_codecs_def)
  have sig: "ed_verify plain_verifiers (replicate 32 1)
      (eddsa_jcs_2022_hash plain_codecs (JObject m) (JObject m')) (replicate 32 1 @ replicate 32 0)" for m m'
    by (simp add: plain_verifiers_def eddsa_jcs_2022_hash_def plain_codecs_def)
  have vk: "ed_from_bytes plain_verifiers (replicate 32 1) = Ok (replicate 32 1)"
    by (simp add: plain_verifiers_def)
  show ?thesis
    unfolding proof_valid_def
    using assms hash key pv sig vk
    by (auto simp: sample_entry_def entry_new_tdw_def sample_proof_def json_obj_def)
qed

lemma sample_verifies: "verify_log plain_codecs plain_verifiers sample_log sample_did = Ok ()"
proof -
  have entry: "entry_valid plain_codecs plain_verifiers sample_scid (did_to_string sample_did) i prev ks
      (sample_entry n uks)"
    if "n = show_nat (unat ((of_nat i :: u32) + 1))" "sample_multikey \<in> set ks" for i prev ks n uks
    using that sample_proof_valid [of ks n uks]
    by (simp add: entry_valid_def sample_entry_def entry_new_tdw_def hash_form_def sample_hash
        sample_genesis json_obj_def)
  have one: "show_nat (unat ((of_nat 0 :: u32) + 1)) = ''1''"
    "show_nat (unat ((of_nat (Suc 0) :: u32) + 1)) = ''2''"
    by (simp_all add: show_nat.simps digit_char_def)
  have fields: "le_format (sample_entry n uks) = TDW03"
    "lp_update_keys (le_parameters (sample_entry n uks)) = uks" for n uks
    by (simp_all add: sample_entry_def entry_new_tdw_def params_new_tdw_def)
  have auth: "authorized sample_log 0 = Some [sample_multikey]"
    "authorized sample_log (Suc 0) = Some [sample_multikey]"
    by (simp_all add: authorized_def sample_log_def fields)
  have log: "sample_log ! 0 = sample_entry ''1'' (Some [sample_multikey])"
    "sample_log ! Suc 0 = sample_entry ''2'' (Some [])" "length sample_log = Suc (Suc 0)"
    by (simp_all add: sample_log_def)
  have "valid_log plain_codecs plain_verifiers sample_log sample_did"
    unfolding valid_log_def
  proof (intro conjI exI allI impI)
    show "sample_log \<noteq> []" by (simp add: sample_log_def)
    show "did_scid sample_did = Some sample_scid" by (simp add: sample_did_def)
    fix i assume "i < length sample_log"
    then consider "i = 0" | "i = Suc 0" using log(3) by linarith
    then show "le_format (sample_log ! i) = TDW03"
      "authorized sample_log i = Some [sample_multikey]"
      "entry_valid plain_codecs plain_verifiers sample_scid (did_to_string sample_did) i
         (prev_version sample_scid sample_log i) [sample_multikey] (sample_log ! i)"
      by (cases; simp add: log auth fields; rule entry; simp add: one [simplified])+
  qed
  then show ?thesis by (simp add: verify_log_valid)
qed

text \<open>The sample log verifies as the condition says, and as the extension by its last entry.\<close>

theorem verify_log_extend_witness:
  "verify_log plain_codecs plain_verifiers
     ([sample_entry ''1'' (Some [sample_multikey])] @ [sample_entry ''2'' (Some [])]) sample_did =
   and_then (verify_log plain_codecs plain_verifiers [sample_entry ''1'' (Some [sample_multikey])] sample_did)
     (\<lambda>_. verify_entry plain_codecs plain_verifiers 1 2 (sample_entry ''2'' (Some [])) sample_scid
        (did_to_string sample_did) (Some (''1-'' @ sample_scid)) [sample_multikey])"
  using verify_log_extend
    [of sample_did sample_scid "[sample_entry ''1'' (Some [sample_multikey])]" "sample_entry ''2'' (Some [])"
      plain_codecs plain_verifiers]
  by (simp add: sample_did_def sample_entry_def entry_new_tdw_def params_new_tdw_def)

section \<open>What an accepted log guarantees\<close>

lemma announced_origin:
  "mk \<in> set (announced [] es) \<Longrightarrow>
   \<exists>j < length es. \<exists>uks. lp_update_keys (le_parameters (es ! j)) = Some uks \<and> mk \<in> set uks
     \<and> (\<forall>k. j < k \<and> k < length es \<longrightarrow> lp_update_keys (le_parameters (es ! k)) = None)"
proof (induction es rule: rev_induct)
  case (snoc e xs)
  show ?case
  proof (cases "lp_update_keys (le_parameters e)")
    case None
    with snoc obtain j uks where "j < length xs" "lp_update_keys (le_parameters (xs ! j)) = Some uks"
        "mk \<in> set uks" "\<forall>k. j < k \<and> k < length xs \<longrightarrow> lp_update_keys (le_parameters (xs ! k)) = None"
      by (auto simp: announced_append)
    with None show ?thesis
      by (intro exI [of _ j]) (auto simp: nth_append less_Suc_eq)
  next
    case (Some uks)
    with snoc.prems show ?thesis
      by (intro exI [of _ "length xs"]) (auto simp: announced_append)
  qed
qed simp

lemma announced_take_Suc:
  "i < length es \<Longrightarrow> lp_update_keys (le_parameters (es ! i)) = Some uks \<Longrightarrow>
   announced ks (take (Suc i) es) = uks"
  by (simp add: take_Suc_conv_app_nth announced_append)

text \<open>The key of the proof that was checked.\<close>

definition signed_with :: "did_log_entry \<Rightarrow> string \<Rightarrow> bool" where
  "signed_with e mk \<longleftrightarrow>
     (\<exists>obj rest. le_proofs e = JObject obj # rest
        \<and> fmlookup obj ''verificationMethod'' = Some (JString (''did:key:'' @ mk @ ''#'' @ mk)))"

lemma proof_valid_signed: "proof_valid c vs e doc ks \<Longrightarrow> \<exists>mk \<in> set ks. signed_with e mk"
  unfolding proof_valid_def signed_with_def by blast

lemma valid_log_entry:
  assumes "verify_log c vs es d = Ok ()" "i < length es"
  obtains scid ks where "did_scid d = Some scid" "le_format (es ! i) = TDW03"
    "authorized es i = Some ks"
    "entry_valid c vs scid (did_to_string d) i (prev_version scid es i) ks (es ! i)"
  using assms by (auto simp: verify_log_valid valid_log_def)

lemma verified_last:
  assumes "verify_log c vs es d = Ok ()"
  shows "\<exists>doc. le_state (last es) = StateValue doc \<and> json_get doc ''id'' = Some (JString (did_to_string d))"
proof -
  have "es \<noteq> []" using assms by (simp add: verify_log_valid valid_log_def)
  then have "length es - 1 < length es" by simp
  with assms obtain scid ks where "entry_valid c vs scid (did_to_string d) (length es - 1)
      (prev_version scid es (length es - 1)) ks (es ! (length es - 1))"
    by (rule valid_log_entry)
  with \<open>es \<noteq> []\<close> show ?thesis by (auto simp: entry_valid_def last_conv_nth)
qed

text \<open>A log with no key in force has no valid continuation.\<close>

lemma no_keys_no_more:
  assumes "announced [] es = []" "es \<noteq> []" "later \<noteq> []"
  shows "verify_log c vs (es @ later) d \<noteq> Ok ()"
proof
  assume v: "verify_log c vs (es @ later) d = Ok ()"
  have "length es < length (es @ later)" using assms(3) by simp
  with v obtain scid ks where a: "authorized (es @ later) (length es) = Some ks"
      "entry_valid c vs scid (did_to_string d) (length es) (prev_version scid (es @ later) (length es)) ks
         ((es @ later) ! length es)"
    by (rule valid_log_entry)
  then have "ks = []" using assms(1,2) by (simp add: authorized_def)
  with a(2) show False by (auto simp: entry_valid_def dest: proof_valid_signed)
qed

text \<open>C2: every update is authorized by the past. Each entry after the first of an accepted log
  carries a valid signature by a key that an earlier entry announced and that no entry
  between the two has replaced; a rotation never authorizes itself.\<close>

theorem update_authorized_by_past:
  assumes "verify_log c vs es d = Ok ()" "0 < i" "i < length es"
  shows "\<exists>j mk uks. j < i \<and> lp_update_keys (le_parameters (es ! j)) = Some uks \<and> mk \<in> set uks
    \<and> (\<forall>k. j < k \<and> k < i \<longrightarrow> lp_update_keys (le_parameters (es ! k)) = None)
    \<and> signed_with (es ! i) mk \<and> (\<exists>doc. le_state (es ! i) = StateValue doc
         \<and> proof_valid c vs (es ! i) doc (announced [] (take i es)))"
proof -
  obtain scid ks where v: "authorized es i = Some ks"
      "entry_valid c vs scid (did_to_string d) i (prev_version scid es i) ks (es ! i)"
    using assms(1,3) by (rule valid_log_entry)
  then have ks: "ks = announced [] (take i es)" using assms(2) by (simp add: authorized_def)
  from v obtain doc where doc: "le_state (es ! i) = StateValue doc" "proof_valid c vs (es ! i) doc ks"
    by (auto simp: entry_valid_def)
  obtain mk where mk: "mk \<in> set ks" "signed_with (es ! i) mk"
    using proof_valid_signed [OF doc(2)] by blast
  obtain j uks where j: "j < i" "lp_update_keys (le_parameters (es ! j)) = Some uks" "mk \<in> set uks"
      "\<forall>k. j < k \<and> k < i \<longrightarrow> lp_update_keys (le_parameters (es ! k)) = None"
    using announced_origin [of mk "take i es"] mk(1) ks assms(3) by auto
  show ?thesis
    by (rule exI [of _ j], rule exI [of _ mk], rule exI [of _ uks])
      (use j mk doc ks in auto)
qed

theorem update_authorized_by_past_witness: "signed_with (sample_entry ''2'' (Some [])) sample_multikey"
proof -
  have two: "(0 :: nat) < 1" "1 < length sample_log" by (simp_all add: sample_log_def)
  obtain j mk uks where *: "j < (1 :: nat)"
      "lp_update_keys (le_parameters (sample_log ! j)) = Some uks" "mk \<in> set uks"
      "signed_with (sample_log ! 1) mk"
    using update_authorized_by_past [OF sample_verifies two] by (elim exE conjE) (rule that)
  then have "uks = [sample_multikey]"
    by (simp add: sample_log_def sample_entry_def entry_new_tdw_def params_new_tdw_def)
  with * show ?thesis by (simp add: sample_log_def)
qed

text \<open>C4: deactivation is final. If an entry of an accepted log announces the empty list of
  update keys, as the deactivation entries of this library do, it is the last entry: no log
  that continues after it verifies, whatever keys sign the continuation.\<close>

theorem deactivation_final:
  assumes "verify_log c vs es d = Ok ()" "i < length es"
    "lp_update_keys (le_parameters (es ! i)) = Some []"
  shows "Suc i = length es"
proof (rule ccontr)
  assume "Suc i \<noteq> length es"
  then have "drop (Suc i) es \<noteq> []" "take (Suc i) es \<noteq> []" using assms(2) by auto
  from no_keys_no_more [OF announced_take_Suc [OF assms(2,3)] this(2,1)] assms(1)
  show False by (metis append_take_drop_id)
qed

theorem deactivation_final_witness: "Suc 1 = length sample_log"
  using deactivation_final [OF sample_verifies, of 1]
  by (simp add: sample_log_def sample_entry_def entry_new_tdw_def params_new_tdw_def)

definition hashed_forms :: "string \<Rightarrow> did_log_entry list \<Rightarrow> json set" where
  "hashed_forms scid es = (\<lambda>i. hash_form (prev_version scid es i) (es ! i)) ` {..<length es}"

lemma version_step:
  assumes a: "entry_valid c vs scid d i p ks e" and b: "entry_valid c vs scid d i p' ks' e'"
    and same: "le_version_id e = le_version_id e'"
    and inj: "inj_on (derive_entry_hash c) A" "hash_form p e \<in> A" "hash_form p' e' \<in> A"
  shows "hash_form p e = hash_form p' e'"
proof -
  have "derive_entry_hash c (hash_form p e) = derive_entry_hash c (hash_form p' e')"
    using a b same by (auto simp: entry_valid_def)
  with inj show ?thesis by (auto dest: inj_onD)
qed

text \<open>C3: the last version fixes the whole history. If two logs of one length verify for the
  same DID and end in the same version, and the hashes of their entries do not collide, they
  agree entry by entry on version, time, parameters and document state: only proofs may
  differ. Nothing already published can be rewritten under the same head.\<close>

theorem history_fixed_by_head:
  assumes "verify_log c vs es d = Ok ()" "verify_log c vs es' d = Ok ()"
    and "length es = length es'" "le_version_id (last es) = le_version_id (last es')"
    and "did_scid d = Some scid"
    and "inj_on (derive_entry_hash c) (hashed_forms scid es \<union> hashed_forms scid es')"
  shows "map (\<lambda>e. (le_version_id e, le_version_time e, params_to_json (le_parameters e), le_state e)) es =
    map (\<lambda>e. (le_version_id e, le_version_time e, params_to_json (le_parameters e), le_state e)) es'"
proof -
  let ?n = "length es"
  have ne: "es \<noteq> []" using assms(1) by (auto simp: verify_log_def)
  have forms: "hash_form (prev_version scid es i) (es ! i) = hash_form (prev_version scid es' i) (es' ! i)"
    if il: "i < ?n" and same: "le_version_id (es ! i) = le_version_id (es' ! i)" for i
  proof -
    obtain ks where v: "entry_valid c vs scid (did_to_string d) i (prev_version scid es i) ks (es ! i)"
      using valid_log_entry [OF assms(1) il] assms(5) by (metis option.inject)
    obtain ks' where v': "entry_valid c vs scid (did_to_string d) i (prev_version scid es' i) ks' (es' ! i)"
      using valid_log_entry [OF assms(2), of i] il assms(3,5) by (metis option.inject)
    show ?thesis
      by (rule version_step [OF v v' same assms(6)])
        (use il assms(3) in \<open>auto simp: hashed_forms_def\<close>)
  qed
  have versions: "le_version_id (es ! i) = le_version_id (es' ! i)" if "i < ?n" for i
  proof -
    have "i \<le> ?n - 1" using that by linarith
    then show ?thesis
    proof (induction i rule: inc_induct)
      case base
      then show ?case using assms(3,4) ne by (metis last_conv_nth length_0_conv)
    next
      case (step m)
      then have "prev_version scid es (Suc m) = prev_version scid es' (Suc m)"
        using forms [of "Suc m"] by (simp add: hash_form_def)
      then show ?case by (simp add: prev_version_def)
    qed
  qed
  show ?thesis
  proof (rule nth_equalityI)
    fix i assume "i < length (map (\<lambda>e. (le_version_id e, le_version_time e,
        params_to_json (le_parameters e), le_state e)) es)"
    then have i: "i < ?n" by simp
    have "doc_state_to_json (le_state (es ! i)) = doc_state_to_json (le_state (es' ! i))"
      "le_version_time (es ! i) = le_version_time (es' ! i)"
      "params_to_json (le_parameters (es ! i)) = params_to_json (le_parameters (es' ! i))"
      using forms [OF i versions [OF i]] by (simp_all add: hash_form_def)
    then show "map (\<lambda>e. (le_version_id e, le_version_time e, params_to_json (le_parameters e), le_state e)) es ! i =
      map (\<lambda>e. (le_version_id e, le_version_time e, params_to_json (le_parameters e), le_state e)) es' ! i"
      using i assms(3) versions [OF i] doc_state_codec.enc_inj by simp
  qed (simp add: assms(3))
qed

lemma proof_valid_first:
  "proof_valid c vs e doc ks \<Longrightarrow>
   proof_valid c vs (e\<lparr>le_proofs := hd (le_proofs e) # rest, le_version_id := v,
     le_version_time := t, le_parameters := p\<rparr>) doc ks"
  unfolding proof_valid_def by fastforce

lemma sample_genesis_verifies:
  "verify_log plain_codecs plain_verifiers [(sample_entry ''1'' (Some [sample_multikey]))
     \<lparr>le_proofs := sample_proof # rest\<rparr>] sample_did = Ok ()"
proof -
  let ?e = "sample_entry ''1'' (Some [sample_multikey])"
  let ?doc = "json_obj [(''id'', JString (did_to_string sample_did))]"
  have "proof_valid plain_codecs plain_verifiers ?e ?doc [sample_multikey]"
    by (rule sample_proof_valid) simp
  from proof_valid_first [OF this, where rest = rest and v = "le_version_id ?e"
      and t = "le_version_time ?e" and p = "le_parameters ?e"]
  have "proof_valid plain_codecs plain_verifiers (?e\<lparr>le_proofs := sample_proof # rest\<rparr>) ?doc [sample_multikey]"
    by (simp add: sample_entry_def entry_new_tdw_def)
  then show ?thesis
    by (simp add: verify_log_valid valid_log_def authorized_def prev_version_def entry_valid_def
        hash_form_def sample_hash sample_genesis)
      (simp add: sample_did_def sample_entry_def entry_new_tdw_def params_new_tdw_def json_obj_def
        show_nat.simps digit_char_def sample_genesis)
qed

theorem history_fixed_by_head_witness:
  "verify_log plain_codecs plain_verifiers [(sample_entry ''1'' (Some [sample_multikey]))
       \<lparr>le_proofs := [sample_proof, JNull]\<rparr>] sample_did = Ok ()
   \<and> map (\<lambda>e. (le_version_id e, le_version_time e, params_to_json (le_parameters e), le_state e))
       [(sample_entry ''1'' (Some [sample_multikey]))\<lparr>le_proofs := [sample_proof]\<rparr>] =
     map (\<lambda>e. (le_version_id e, le_version_time e, params_to_json (le_parameters e), le_state e))
       [(sample_entry ''1'' (Some [sample_multikey]))\<lparr>le_proofs := [sample_proof, JNull]\<rparr>]"
proof -
  let ?a = "[(sample_entry ''1'' (Some [sample_multikey]))\<lparr>le_proofs := [sample_proof]\<rparr>]"
  let ?b = "[(sample_entry ''1'' (Some [sample_multikey]))\<lparr>le_proofs := [sample_proof, JNull]\<rparr>]"
  have same: "hashed_forms sample_scid ?a \<union> hashed_forms sample_scid ?b
      = {hash_form sample_scid (sample_entry ''1'' (Some [sample_multikey]))}"
    by (auto simp: hashed_forms_def prev_version_def hash_form_def lessThan_Suc)
  show ?thesis
  proof (rule conjI, rule sample_genesis_verifies)
    show "map (\<lambda>e. (le_version_id e, le_version_time e, params_to_json (le_parameters e), le_state e)) ?a =
      map (\<lambda>e. (le_version_id e, le_version_time e, params_to_json (le_parameters e), le_state e)) ?b"
    proof (rule history_fixed_by_head)
      show "verify_log plain_codecs plain_verifiers ?a sample_did = Ok ()"
        by (rule sample_genesis_verifies)
      show "verify_log plain_codecs plain_verifiers ?b sample_did = Ok ()"
        by (rule sample_genesis_verifies)
      show "did_scid sample_did = Some sample_scid" by (simp add: sample_did_def)
      show "inj_on (derive_entry_hash plain_codecs) (hashed_forms sample_scid ?a \<union> hashed_forms sample_scid ?b)"
        unfolding same by simp
    qed simp_all
  qed
qed

section \<open>What the signature does not cover\<close>

text \<open>
  The proof signs the document and the proof options; its \<open>challenge\<close>, which the
  specification binds to the entry's version, is signed but never compared with it.
\<close>

definition reversioned :: "codecs \<Rightarrow> string \<Rightarrow> nat \<Rightarrow> did_log_entry \<Rightarrow> did_log_entry" where
  "reversioned c prev i e =
     e\<lparr>le_version_id := show_nat (unat ((of_nat i :: u32) + 1)) @ ''-''
         @ derive_entry_hash c (hash_form prev e)\<rparr>"

text \<open>C32: the parameters of an update are not authenticated. In an accepted log of two or more
  entries, the parameters and the time of the last entry can be replaced by any others, for
  instance by update keys of somebody else's choice, with the old proof kept and the entry hash
  recomputed (which needs no key): the forged log verifies for the same DID.\<close>

theorem update_parameters_forgeable:
  assumes "verify_log c vs (xs @ [e]) d = Ok ()" "xs \<noteq> []"
  shows "verify_log c vs (xs @ [reversioned c (le_version_id (last xs)) (length xs)
      (e\<lparr>le_parameters := p, le_version_time := t\<rparr>)]) d = Ok ()"
proof -
  let ?e = "reversioned c (le_version_id (last xs)) (length xs)
      (e\<lparr>le_parameters := p, le_version_time := t\<rparr>)"
  let ?i = "length xs" and ?ks = "announced [] xs" and ?prev = "le_version_id (last xs)"
  have fmt: "le_format e = TDW03" and scid: "\<exists>scid. did_scid d = Some scid"
    using assms(1) valid_log_entry [of c vs "xs @ [e]" d ?i] by auto
  then obtain scid where d: "did_scid d = Some scid" by blast
  have xs: "verify_log c vs xs d = Ok ()"
    and step: "verify_entry c vs ?i (of_nat ?i + 1) e scid (did_to_string d) (Some ?prev) ?ks = Ok ()"
    using assms(1) by (auto simp: verify_log_snoc [OF d assms(2) fmt] ok_iff)
  then have "entry_valid c vs scid (did_to_string d) ?i ?prev ?ks e"
    by (simp add: verify_entry_ok [OF fmt])
  then obtain doc where doc: "le_state e = StateValue doc" "json_get doc ''id'' = Some (JString (did_to_string d))"
      "proof_valid c vs e doc ?ks"
    by (auto simp: entry_valid_def)
  have "proof_valid c vs ?e doc ?ks"
    using doc(3) unfolding proof_valid_def reversioned_def by fastforce
  moreover have "hash_form ?prev ?e = hash_form ?prev (e\<lparr>le_parameters := p, le_version_time := t\<rparr>)"
    by (simp add: reversioned_def hash_form_def)
  ultimately have "entry_valid c vs scid (did_to_string d) ?i ?prev ?ks ?e"
    using doc(1,2) assms(2) by (simp add: entry_valid_def) (simp add: reversioned_def)
  moreover have fmt': "le_format ?e = TDW03" using fmt by (simp add: reversioned_def)
  ultimately have "verify_entry c vs ?i (of_nat ?i + 1) ?e scid (did_to_string d) (Some ?prev) ?ks = Ok ()"
    by (simp add: verify_entry_ok [OF fmt'])
  then show ?thesis by (simp add: verify_log_snoc [OF d assms(2) fmt'] xs)
qed

theorem update_parameters_forgeable_witness:
  "\<exists>e. verify_log plain_codecs plain_verifiers
      ([sample_entry ''1'' (Some [sample_multikey])] @ [e]) sample_did = Ok ()
    \<and> lp_update_keys (le_parameters e) = Some [''zAttacker'']"
proof -
  have log: "verify_log plain_codecs plain_verifiers
      ([sample_entry ''1'' (Some [sample_multikey])] @ [sample_entry ''2'' (Some [])]) sample_did = Ok ()"
    using sample_verifies by (simp add: sample_log_def)
  let ?p = "params_new_tdw None None (Some [''zAttacker'']) None None None None None None"
  from update_parameters_forgeable [OF log, where p = ?p and t = "''t''"]
  show ?thesis
    by (intro exI [of _ "reversioned plain_codecs (''1-'' @ sample_scid) 1
          ((sample_entry ''2'' (Some []))\<lparr>le_parameters := ?p, le_version_time := ''t''\<rparr>)"])
      (simp add: reversioned_def params_new_tdw_def sample_entry_def entry_new_tdw_def)
qed

end
