(* ===== verification/IntegrityProof.thy ===== *)
theory IntegrityProof
  imports LogVerify
begin

text \<open>
  Data Integrity proofs, \<open>swiyu-core/src/proof.rs\<close>: the proof options and their signing
  input, the assembled proof, signing, and the JSON form. A proof made here is accepted by the
  verifier of \<open>LogVerify\<close>, which reads the same JSON on its own.
\<close>

section \<open>Data\<close>

definition PROOF_TYPE :: string where
  "PROOF_TYPE = ''DataIntegrityProof''"

datatype proof_error =
    PFUnknownCryptosuite string
  | PFUnknownProofPurpose string
  | PFMissingField string
  | PFInvalidField string string
  | PFInvalidEncoding string

definition show_proof_error :: "proof_error \<Rightarrow> string" where
  "show_proof_error er =
     (case er of
        PFUnknownCryptosuite s \<Rightarrow> ''unknown cryptosuite: '' @ s
      | PFUnknownProofPurpose s \<Rightarrow> ''unknown proof purpose: '' @ s
      | PFMissingField f \<Rightarrow> ''missing field: '' @ f
      | PFInvalidField f m \<Rightarrow> ''invalid field '' @ quoted f @ '': '' @ m
      | PFInvalidEncoding s \<Rightarrow> ''invalid encoding: '' @ s)"

datatype cryptosuite = EddsaJcs2022

fun cryptosuite_str :: "cryptosuite \<Rightarrow> string" where
  "cryptosuite_str EddsaJcs2022 = ''eddsa-jcs-2022''"

definition cryptosuite_from_str :: "string \<Rightarrow> (cryptosuite, proof_error) result" where
  "cryptosuite_from_str s =
     (if s = ''eddsa-jcs-2022'' then Ok EddsaJcs2022 else Err (PFUnknownCryptosuite s))"

datatype proof_purpose = Authentication | AssertionMethod

fun proof_purpose_str :: "proof_purpose \<Rightarrow> string" where
  "proof_purpose_str Authentication = ''authentication''"
| "proof_purpose_str AssertionMethod = ''assertionMethod''"

definition proof_purpose_from_str :: "string \<Rightarrow> (proof_purpose, proof_error) result" where
  "proof_purpose_from_str s =
     (if s = ''authentication'' then Ok Authentication
      else if s = ''assertionMethod'' then Ok AssertionMethod
      else Err (PFUnknownProofPurpose s))"

record proof_config =
  pc_cryptosuite :: cryptosuite
  pc_verification_method :: string
  pc_proof_purpose :: proof_purpose
  pc_challenge :: string
  pc_created :: string

record data_integrity_proof =
  dip_config :: proof_config
  dip_proof_value :: string

section \<open>Signing\<close>

definition config_map :: "proof_config \<Rightarrow> json_map" where
  "config_map cfg =
     insert_all [(''type'', JString PROOF_TYPE),
                 (''cryptosuite'', JString (cryptosuite_str (pc_cryptosuite cfg))),
                 (''verificationMethod'', JString (pc_verification_method cfg)),
                 (''proofPurpose'', JString (proof_purpose_str (pc_proof_purpose cfg))),
                 (''challenge'', JString (pc_challenge cfg)),
                 (''created'', JString (pc_created cfg))] fmempty"

definition config_to_json :: "proof_config \<Rightarrow> json" where
  "config_to_json cfg = JObject (config_map cfg)"

fun signing_input :: "codecs \<Rightarrow> proof_config \<Rightarrow> json \<Rightarrow> u8 list" where
  "signing_input c cfg doc =
     (case pc_cryptosuite cfg of
        EddsaJcs2022 \<Rightarrow> eddsa_jcs_2022_hash c doc (config_to_json cfg))"

definition from_signature :: "codecs \<Rightarrow> proof_config \<Rightarrow> u8 list \<Rightarrow> data_integrity_proof" where
  "from_signature c cfg sig = \<lparr>dip_config = cfg, dip_proof_value = ''z'' @ bs58_encode c sig\<rparr>"

definition sign_proof :: "codecs \<Rightarrow> ed_signer \<Rightarrow> json \<Rightarrow> proof_config \<Rightarrow> data_integrity_proof" where
  "sign_proof c signer doc cfg =
     from_signature c cfg (ed_sign signer (signing_input c cfg doc))"

definition decode_signature :: "codecs \<Rightarrow> data_integrity_proof \<Rightarrow> (u8 list, proof_error) result" where
  "decode_signature c p =
     and_then (ok_or (strip_prefix ''z'' (dip_proof_value p))
                 (PFInvalidEncoding ''proofValue does not start with multibase-z prefix''))
       (\<lambda>stripped.
         map_err (\<lambda>e. PFInvalidEncoding (''bs58 decode failed: '' @ e)) (bs58_decode c stripped))"

section \<open>The JSON form\<close>

definition proof_to_json :: "data_integrity_proof \<Rightarrow> json" where
  "proof_to_json p =
     JObject (fmupd ''proofValue'' (JString (dip_proof_value p)) (config_map (dip_config p)))"

definition pf_string_field :: "json_map \<Rightarrow> string \<Rightarrow> (string, proof_error) result" where
  "pf_string_field obj f = field as_str (PFMissingField f) (PFInvalidField f ''must be a string'') obj f"

definition proof_from_json :: "json \<Rightarrow> (data_integrity_proof, proof_error) result" where
  "proof_from_json v =
     and_then (ok_or (as_object v) (PFInvalidField ''<proof>'' ''proof is not a JSON object'')) (\<lambda>obj.
     and_then (pf_string_field obj ''type'') (\<lambda>ty.
     if ty \<noteq> PROOF_TYPE
     then Err (PFInvalidField ''type'' (''expected '' @ quoted PROOF_TYPE @ '', got '' @ quoted ty))
     else
       and_then (pf_string_field obj ''cryptosuite'') (\<lambda>cs.
       and_then (cryptosuite_from_str cs) (\<lambda>suite.
       and_then (pf_string_field obj ''verificationMethod'') (\<lambda>vm.
       and_then (pf_string_field obj ''proofPurpose'') (\<lambda>pp.
       and_then (proof_purpose_from_str pp) (\<lambda>purpose.
       and_then (pf_string_field obj ''challenge'') (\<lambda>challenge.
       and_then (pf_string_field obj ''created'') (\<lambda>created.
       and_then (pf_string_field obj ''proofValue'') (\<lambda>pv.
         Ok \<lparr>dip_config = \<lparr>pc_cryptosuite = suite, pc_verification_method = vm,
               pc_proof_purpose = purpose, pc_challenge = challenge, pc_created = created\<rparr>,
             dip_proof_value = pv\<rparr>))))))))))"

lemma suite_purpose_roundtrip [simp]:
  "cryptosuite_from_str (cryptosuite_str s) = Ok s"
  "proof_purpose_from_str (proof_purpose_str p) = Ok p"
  by (cases s; simp add: cryptosuite_from_str_def) (cases p; simp add: proof_purpose_from_str_def)

interpretation proof_codec: json_parser proof_to_json proof_from_json "\<lambda>_. True"
  by unfold_locales
    (simp_all add: proof_to_json_def proof_from_json_def config_map_def pf_string_field_def)

lemma config_of_proof: "fmdrop ''proofValue'' (fmupd ''proofValue'' x (config_map cfg)) = config_map cfg"
  by (rule fmap_ext) (auto simp: config_map_def)

lemma decode_multikey_of:
  assumes "bs58_law c" "length key = 32"
  shows "decode_ed25519_multikey c (multikey_of c key) = Ok key"
  using assms
  by (simp add: decode_ed25519_multikey_def multikey_of_mb mb_roundtrip bs58_law_carries
      mb_from_ed25519_bytes_def multicodec_ed25519_def)

text \<open>Integrity proofs are read as they were made. Every proof is read back unchanged from
  its JSON form; the signature bytes of a signed proof are recovered from its proof value; and
  the bytes that were signed are the two digests of the options and the document, so the
  proof value is not among what is signed.\<close>

theorem integrity_proof_roundtrip:
  assumes "bs58_law c"
  shows "proof_from_json (proof_to_json p) = Ok p
    \<and> decode_signature c (sign_proof c s doc cfg) = Ok (ed_sign s (signing_input c cfg doc))
    \<and> signing_input c cfg doc =
        sha256 c (jcs_to_vec c (config_to_json cfg)) @ sha256 c (jcs_to_vec c doc)
    \<and> json_get (config_to_json cfg) ''proofValue'' = None"
  using assms proof_codec.dec_enc [of p]
  by (cases "pc_cryptosuite cfg")
    (simp add: decode_signature_def sign_proof_def from_signature_def eddsa_jcs_2022_hash_def
      config_to_json_def config_map_def)

theorem integrity_proof_roundtrip_witness:
  "decode_signature plain_codecs (sign_proof plain_codecs plain_signer JNull
      \<lparr>pc_cryptosuite = EddsaJcs2022, pc_verification_method = ''did:key:z#z'',
       pc_proof_purpose = Authentication, pc_challenge = ''1-a'', pc_created = ''t''\<rparr>)
   = Ok (replicate 32 1 @ take 32 (signing_input plain_codecs
      \<lparr>pc_cryptosuite = EddsaJcs2022, pc_verification_method = ''did:key:z#z'',
       pc_proof_purpose = Authentication, pc_challenge = ''1-a'', pc_created = ''t''\<rparr> JNull
       @ replicate 32 0))"
  using integrity_proof_roundtrip
    [of plain_codecs _ plain_signer JNull
      "\<lparr>pc_cryptosuite = EddsaJcs2022, pc_verification_method = ''did:key:z#z'',
       pc_proof_purpose = Authentication, pc_challenge = ''1-a'', pc_created = ''t''\<rparr>"]
  by (simp add: plain_signer_def)

lemma signed_proof_accepted:
  assumes "bs58_law c" "ed_sound vs s" "CHR ''#'' \<notin> set (multikey_of c (ed_public s))"
    and "pc_verification_method cfg =
      ''did:key:'' @ multikey_of c (ed_public s) @ ''#'' @ multikey_of c (ed_public s)"
    and "le_proofs e = proof_to_json (sign_proof c s doc cfg) # rest"
    and "multikey_of c (ed_public s) \<in> set ks"
  shows "verify_proof c vs i e doc ks = Ok ()"
proof -
  obtain vk where vk: "ed_from_bytes vs (ed_public s) = Ok vk" "length (ed_public s) = 32"
      "\<forall>msg. ed_verify vs vk msg (ed_sign s msg)" "\<forall>msg. length (ed_sign s msg) = 64"
    using assms(2) by (auto simp: ed_sound_def)
  let ?sig = "ed_sign s (signing_input c cfg doc)"
  let ?obj = "fmupd ''proofValue'' (JString (''z'' @ bs58_encode c ?sig)) (config_map cfg)"
  have suite: "pc_cryptosuite cfg = EddsaJcs2022" by (cases "pc_cryptosuite cfg") simp
  have made: "le_proofs e = JObject ?obj # rest"
    using assms(5) by (simp add: proof_to_json_def sign_proof_def from_signature_def)
  have vm: "fmlookup ?obj ''verificationMethod'' = Some (JString
      (''did:key:'' @ multikey_of c (ed_public s) @ ''#'' @ multikey_of c (ed_public s)))"
    by (simp add: config_map_def assms(4))
  have sig: "ed_verify vs vk (eddsa_jcs_2022_hash c doc (JObject (fmdrop ''proofValue'' ?obj))) ?sig"
    using vk(3) by (simp add: config_of_proof suite config_to_json_def)
  show ?thesis
    unfolding verify_proof_ok proof_valid_def
    by (rule exI [of _ ?obj], rule exI [of _ rest],
        rule exI [of _ "multikey_of c (ed_public s)"], rule exI [of _ "ed_public s"],
        rule exI [of _ vk], rule exI [of _ "bs58_encode c ?sig"], rule exI [of _ ?sig])
      (use made vm sig assms(1,3,6) vk decode_multikey_of [OF assms(1) vk(2)] in simp)
qed

text \<open>What the signer makes, the verifier accepts. An entry whose first proof was signed over
  its document by a sound Ed25519 signer, naming the signer's own key as
  \<open>did:key:<multikey>#<multikey>\<close>, passes the proof check against every list of authorized keys
  that has this multikey, whatever the other options are.\<close>

theorem signed_proof_verifies:
  assumes "bs58_law c" "ed_sound vs s" "CHR ''#'' \<notin> set (multikey_of c (ed_public s))"
    and "pc_verification_method cfg =
      ''did:key:'' @ multikey_of c (ed_public s) @ ''#'' @ multikey_of c (ed_public s)"
    and "le_proofs e = proof_to_json (sign_proof c s doc cfg) # rest"
    and "multikey_of c (ed_public s) \<in> set ks"
  shows "verify_proof c vs i e doc ks = Ok ()"
  by (rule signed_proof_accepted [OF assms])


theorem signed_proof_verifies_witness:
  "verify_proof plain_codecs plain_verifiers 0
     ((sample_entry ''1'' None)\<lparr>le_proofs := [proof_to_json (sign_proof plain_codecs plain_signer JNull
       \<lparr>pc_cryptosuite = EddsaJcs2022,
        pc_verification_method = ''did:key:'' @ sample_multikey @ ''#'' @ sample_multikey,
        pc_proof_purpose = Authentication, pc_challenge = ''1-a'', pc_created = ''t''\<rparr>)]\<rparr>)
     JNull [sample_multikey] = Ok ()"
proof -
  have hash: "CHR ''#'' \<notin> set (multikey_of plain_codecs (ed_public plain_signer))"
    by (simp add: multikey_of_def plain_codecs_def in_bytes_text multicodec_ed25519_def plain_signer_def)
  show ?thesis
    by (rule signed_proof_verifies [OF _ plain_sound hash, where rest = "[]" and doc = JNull
          and cfg = "\<lparr>pc_cryptosuite = EddsaJcs2022,
            pc_verification_method = ''did:key:'' @ sample_multikey @ ''#'' @ sample_multikey,
            pc_proof_purpose = Authentication, pc_challenge = ''1-a'', pc_created = ''t''\<rparr>"])
      (simp_all add: sample_multikey_def)
qed

end
