(* ===== verification/DidJwk.thy ===== *)
theory DidJwk
  imports DidDoc
begin

text \<open>
  Self-contained DIDs, \<open>swiyu-core/src/didjwk/mod.rs\<close>: a \<open>did:jwk\<close> identifier made from a
  public key, parsed back with every rejection in the order of the code, and expanded to its
  DID document.
\<close>

definition jwk_prefix :: string where
  "jwk_prefix = ''did:jwk:''"

datatype didjwk_error =
    DJMissingPrefix
  | DJInvalidBase64
  | DJInvalidJson string
  | DJInvalidJwk string
  | DJUnsupportedAlgorithm string
  | DJPrivateKeyMaterial
  | DJCanonicalization string

definition show_didjwk_error :: "didjwk_error \<Rightarrow> string" where
  "show_didjwk_error er =
     (case er of
        DJMissingPrefix \<Rightarrow> ''input does not start with '' @ quoted ''did:jwk:''
      | DJInvalidBase64 \<Rightarrow> ''did:jwk suffix is not valid unpadded base64url''
      | DJInvalidJson m \<Rightarrow> ''did:jwk payload is not valid JSON: '' @ m
      | DJInvalidJwk m \<Rightarrow> ''did:jwk payload is not a valid JWK: '' @ m
      | DJUnsupportedAlgorithm s \<Rightarrow>
           ''unsupported algorithm '' @ quoted s @ '' in did:jwk payload''
      | DJPrivateKeyMaterial \<Rightarrow> ''did:jwk payload contains private key material''
      | DJCanonicalization m \<Rightarrow> ''could not canonicalise JWK to JSON: '' @ m)"

record didjwk =
  dj_did :: string
  dj_jwk :: public_key_jwk

fun validate_curve :: "public_key_jwk \<Rightarrow> (unit, didjwk_error) result" where
  "validate_curve (OKP k) =
     (if okp_crv k = ''Ed25519'' then Ok () else Err (DJUnsupportedAlgorithm (''OKP/'' @ okp_crv k)))"
| "validate_curve (EC k) =
     (if ec_crv k = ''P-256'' then Ok () else Err (DJUnsupportedAlgorithm (''EC/'' @ ec_crv k)))"
| "validate_curve (RSA k) = Err (DJUnsupportedAlgorithm ''RSA'')"

definition private_fields :: "string list" where
  "private_fields = [''d'', ''p'', ''q'', ''dp'', ''dq'', ''qi'', ''k'']"

definition has_private_key_material :: "json_map \<Rightarrow> bool" where
  "has_private_key_material obj \<longleftrightarrow> list_ex (\<lambda>f. fmlookup obj f \<noteq> None) private_fields"

definition didjwk_from_jwk :: "codecs \<Rightarrow> public_key_jwk \<Rightarrow> (didjwk, didjwk_error) result" where
  "didjwk_from_jwk c k =
     and_then (validate_curve k) (\<lambda>_.
     and_then (map_err DJCanonicalization (jcs_to_string c (jwk_to_json k))) (\<lambda>canonical.
       Ok \<lparr>dj_did = jwk_prefix @ b64_encode c (as_bytes canonical), dj_jwk = k\<rparr>))"

definition didjwk_from_str :: "codecs \<Rightarrow> string \<Rightarrow> (didjwk, didjwk_error) result" where
  "didjwk_from_str c s =
     and_then (ok_or (strip_prefix jwk_prefix s) DJMissingPrefix) (\<lambda>suffix0.
     let suffix = (case split_once_any ''#?'' suffix0 of Some (sb, _) \<Rightarrow> sb | None \<Rightarrow> suffix0)
     in
     and_then (map_err (\<lambda>_. DJInvalidBase64) (b64_decode c suffix)) (\<lambda>decoded.
     and_then (map_err DJInvalidJson (json_from_slice c decoded)) (\<lambda>v.
     and_then (ok_or (as_object v) (DJInvalidJwk ''payload is not a JSON object'')) (\<lambda>obj.
     if has_private_key_material obj then Err DJPrivateKeyMaterial
     else
       and_then (ok_or (Option.bind (fmlookup obj ''kty'') as_str)
                   (DJInvalidJwk (''missing or non-string '' @ quoted ''kty''))) (\<lambda>kty.
       if kty \<noteq> ''OKP'' \<and> kty \<noteq> ''EC'' then Err (DJUnsupportedAlgorithm kty)
       else
         and_then (map_err (\<lambda>e. DJInvalidJwk (show_diddoc_error e)) (jwk_from_json v)) (\<lambda>k.
         and_then (validate_curve k) (\<lambda>_.
           Ok \<lparr>dj_did = jwk_prefix @ suffix, dj_jwk = k\<rparr>)))))))"

definition didjwk_to_diddoc :: "didjwk \<Rightarrow> diddoc" where
  "didjwk_to_diddoc dj =
     (let i = dj_did dj @ ''#0'';
          vm = \<lparr>vm_id = i, vm_type = ''JsonWebKey2020'', vm_controller = dj_did dj,
                vm_public_key = Jwk (dj_jwk dj)\<rparr>;
          d0 = add_verification_method (diddoc_new (dj_did dj)) vm;
          d1 = add_authentication d0 (Reference i);
          d2 = add_assertion_method d1 (Reference i);
          d3 = add_capability_invocation d2 (Reference i)
      in add_capability_delegation d3 (Reference i))"

section \<open>Properties\<close>

text \<open>The keys the method supports.\<close>

definition supported_jwk :: "public_key_jwk \<Rightarrow> bool" where
  "supported_jwk k \<longleftrightarrow>
     (case k of OKP x \<Rightarrow> okp_crv x = ''Ed25519'' | EC x \<Rightarrow> ec_crv x = ''P-256'' | RSA _ \<Rightarrow> False)"

lemma validate_curve_ok: "validate_curve k = Ok () \<longleftrightarrow> supported_jwk k"
  by (cases k) (simp_all add: supported_jwk_def)

lemma jwk_json_public: "jwk_to_json k = JObject m \<Longrightarrow> \<not> has_private_key_material m"
  by (cases k) (auto simp: ec_to_json_def okp_to_json_def rsa_to_json_def jwk_optional_lookup
      has_private_key_material_def private_fields_def)

lemma jwk_to_json_object: "\<exists>m. jwk_to_json k = JObject m"
  by (cases k) (simp_all add: ec_to_json_def okp_to_json_def rsa_to_json_def)

lemma supported_kty: "supported_jwk k \<Longrightarrow> jwk_kty k = ''OKP'' \<or> jwk_kty k = ''EC''"
  by (cases k) (simp_all add: supported_jwk_def)

text \<open>
  What the theorem needs of the encodings for one key: the canonical text of the key parses
  back to the key's JSON, and base64url text is free of the two URL delimiters.
\<close>

definition jwk_text_law :: "codecs \<Rightarrow> public_key_jwk \<Rightarrow> bool" where
  "jwk_text_law c k \<longleftrightarrow>
     (\<exists>t. jcs_to_string c (jwk_to_json k) = Ok t
        \<and> json_from_slice c (as_bytes t) = Ok (jwk_to_json k)
        \<and> set (b64_encode c (as_bytes t)) \<inter> set ''#?'' = {})"

lemma split_once_any_absent: "set s \<inter> set cs = {} \<Longrightarrow> split_once_any cs s = None"
  by simp

lemma split_once_any_tail:
  "set s \<inter> set cs = {} \<Longrightarrow> x \<in> set cs \<Longrightarrow> split_once_any cs (s @ x # t) = Some (s, t)"
  by (subst split_once_any_some) auto

text \<open>A key and its \<open>did:jwk\<close> identifier determine each other. For a supported key
  \<open>from_jwk\<close> succeeds, and parsing the identifier, bare or with any fragment or query behind
  it, returns the same bare identifier and the same key; an unsupported key is refused.\<close>

theorem didjwk_roundtrip:
  assumes "b64_law c" "jwk_text_law c k"
  shows "(case didjwk_from_jwk c k of
      Inr dj \<Rightarrow> supported_jwk k \<and> dj_jwk dj = k
        \<and> didjwk_from_str c (dj_did dj) = Ok dj
        \<and> didjwk_from_str c (dj_did dj @ CHR ''#'' # rest) = Ok dj
        \<and> didjwk_from_str c (dj_did dj @ CHR ''?'' # rest) = Ok dj
    | Inl e \<Rightarrow> \<not> supported_jwk k)"
proof (cases "supported_jwk k")
  case False
  then have "validate_curve k \<noteq> Ok ()" by (simp add: validate_curve_ok)
  then show ?thesis
    using False by (cases "validate_curve k") (auto simp: didjwk_from_jwk_def)
next
  case True
  obtain t where t: "jcs_to_string c (jwk_to_json k) = Ok t"
      "json_from_slice c (as_bytes t) = Ok (jwk_to_json k)"
      "set (b64_encode c (as_bytes t)) \<inter> set ''#?'' = {}"
    using assms(2) by (auto simp: jwk_text_law_def)
  have vc: "validate_curve k = Ok ()" using True by (simp add: validate_curve_ok)
  obtain m where m: "jwk_to_json k = JObject m" using jwk_to_json_object by blast
  have kty: "fmlookup m ''kty'' = Some (JString (jwk_kty k))"
    using jwk_kty_written [of k] by (simp add: m)
  let ?dj = "\<lparr>dj_did = jwk_prefix @ b64_encode c (as_bytes t), dj_jwk = k\<rparr>"
  have parse: "didjwk_from_str c (jwk_prefix @ s) = Ok ?dj"
    if "(case split_once_any ''#?'' s of Some (sb, _) \<Rightarrow> sb | None \<Rightarrow> s) = b64_encode c (as_bytes t)"
    for s
    using that assms(1) t(2) vc supported_kty [OF True] jwk_json_public [OF m] kty
      jwk_codec.dec_enc [of k]
    by (auto simp: didjwk_from_str_def m Let_def)
  have "didjwk_from_jwk c k = Ok ?dj"
    using vc t(1) by (simp add: didjwk_from_jwk_def)
  then show ?thesis
    using True parse [of "b64_encode c (as_bytes t)"]
      parse [of "b64_encode c (as_bytes t) @ CHR ''#'' # rest"]
      parse [of "b64_encode c (as_bytes t) @ CHR ''?'' # rest"]
      split_once_any_absent [OF t(3)] split_once_any_tail [OF t(3)]
    by simp
qed

text \<open>C39: what a parsed \<open>did:jwk\<close> guarantees. An accepted text yields a supported key; the text
  is the stored identifier with at most a fragment or query after it; the payload carries no
  private key field; and the DID document made from it has the key as its only verification
  method, the target of all four relationships.\<close>

theorem didjwk_from_str_safe:
  assumes "didjwk_from_str c s = Ok dj"
  shows "supported_jwk (dj_jwk dj)
    \<and> (s = dj_did dj \<or> (\<exists>x r. x \<in> set ''#?'' \<and> s = dj_did dj @ x # r))
    \<and> (\<exists>payload bs obj. dj_did dj = jwk_prefix @ payload \<and> b64_decode c payload = Ok bs
         \<and> json_from_slice c bs = Ok (JObject obj) \<and> jwk_from_json (JObject obj) = Ok (dj_jwk dj)
         \<and> (\<forall>f \<in> set private_fields. fmlookup obj f = None))
    \<and> (let d = didjwk_to_diddoc dj; r = Reference (dj_did dj @ ''#0'')
       in dd_id d = dj_did dj \<and> map vm_public_key (dd_verification_method d) = [Jwk (dj_jwk dj)]
        \<and> map vm_id (dd_verification_method d) = [dj_did dj @ ''#0'']
        \<and> dd_authentication d = [r] \<and> dd_assertion_method d = [r]
        \<and> dd_capability_invocation d = [r] \<and> dd_capability_delegation d = [r])"
proof -
  obtain suffix0 where s0: "s = jwk_prefix @ suffix0"
    using assms by (auto simp: didjwk_from_str_def ok_iff)
  define suffix where
    "suffix = (case split_once_any ''#?'' suffix0 of Some (sb, _) \<Rightarrow> sb | None \<Rightarrow> suffix0)"
  obtain bs obj where steps: "b64_decode c suffix = Ok bs" "json_from_slice c bs = Ok (JObject obj)"
      "\<not> has_private_key_material obj" "jwk_from_json (JObject obj) = Ok (dj_jwk dj)"
      "validate_curve (dj_jwk dj) = Ok ()" "dj_did dj = jwk_prefix @ suffix"
    using assms unfolding s0 didjwk_from_str_def
    by (auto simp: ok_iff Let_def suffix_def [symmetric] split: if_splits)
  have cut: "suffix0 = suffix \<or> (\<exists>x r. x \<in> set ''#?'' \<and> suffix0 = suffix @ x # r)"
  proof (cases "split_once_any ''#?'' suffix0")
    case (Some p)
    then obtain a b where ab: "split_once_any ''#?'' suffix0 = Some (a, b)"
      by (cases p) auto
    then obtain x where "x \<in> set ''#?''" "suffix0 = a @ x # b"
      using split_once_any_some by metis
    moreover have "suffix = a" by (simp add: suffix_def ab)
    ultimately show ?thesis by blast
  next
    case None
    then show ?thesis by (simp add: suffix_def del: split_once_any_none)
  qed
  have doc: "let d = didjwk_to_diddoc dj; r = Reference (dj_did dj @ ''#0'')
       in dd_id d = dj_did dj \<and> map vm_public_key (dd_verification_method d) = [Jwk (dj_jwk dj)]
        \<and> map vm_id (dd_verification_method d) = [dj_did dj @ ''#0'']
        \<and> dd_authentication d = [r] \<and> dd_assertion_method d = [r]
        \<and> dd_capability_invocation d = [r] \<and> dd_capability_delegation d = [r]"
    by (simp add: didjwk_to_diddoc_def diddoc_new_def add_verification_method_def
        add_authentication_def add_assertion_method_def add_capability_invocation_def
        add_capability_delegation_def Let_def)
  have priv: "\<forall>f \<in> set private_fields. fmlookup obj f = None"
    using steps(3) by (simp add: has_private_key_material_def list_ex_iff)
  have supp: "supported_jwk (dj_jwk dj)" using steps(5) by (simp add: validate_curve_ok)
  have pieces: "s = dj_did dj \<or> (\<exists>x r. x \<in> set ''#?'' \<and> s = dj_did dj @ x # r)"
    using cut s0 steps(6) by auto
  show ?thesis
  proof (intro conjI)
    show "\<exists>payload bs obj. dj_did dj = jwk_prefix @ payload \<and> b64_decode c payload = Ok bs
         \<and> json_from_slice c bs = Ok (JObject obj) \<and> jwk_from_json (JObject obj) = Ok (dj_jwk dj)
         \<and> (\<forall>f \<in> set private_fields. fmlookup obj f = None)"
      by (rule exI [of _ suffix], rule exI [of _ bs], rule exI [of _ obj])
        (intro conjI steps(1,2,4,6) priv)
  qed (rule supp pieces doc)+
qed

theorem didjwk_roundtrip_witness:
  "\<exists>c dj. didjwk_from_jwk c (OKP (okp_key_new ''Ed25519'' ''AQ'')) = Ok dj
     \<and> didjwk_from_str c (dj_did dj @ ''#0'') = Ok dj"
proof -
  let ?k = "OKP (okp_key_new ''Ed25519'' ''AQ'')"
  let ?c = "plain_codecs\<lparr>jcs_to_string := (\<lambda>_. Ok ''key''),
      json_from_slice := (\<lambda>_. Ok (jwk_to_json ?k))\<rparr>"
  have b64: "b64_law ?c" by (simp add: b64_law_def plain_codecs_def)
  have "b64_encode ?c (as_bytes ''key'') = ''key''"
    by (simp add: plain_codecs_def)
  then have "jwk_text_law ?c ?k" by (simp add: jwk_text_law_def)
  from didjwk_roundtrip [OF b64 this, of "''0''"]
  have "case didjwk_from_jwk ?c ?k of
      Inr dj \<Rightarrow> didjwk_from_str ?c (dj_did dj @ ''#0'') = Ok dj | Inl e \<Rightarrow> \<not> supported_jwk ?k"
    by (auto split: sum.splits)
  moreover have "supported_jwk ?k" by (simp add: supported_jwk_def okp_key_new_def)
  ultimately have "\<exists>dj. didjwk_from_jwk ?c ?k = Ok dj \<and> didjwk_from_str ?c (dj_did dj @ ''#0'') = Ok dj"
    by (auto split: sum.splits)
  then show ?thesis by blast
qed

theorem didjwk_from_str_safe_witness:
  "supported_jwk (OKP (okp_key_new ''Ed25519'' ''AQ''))"
proof -
  let ?k = "OKP (okp_key_new ''Ed25519'' ''AQ'')"
  let ?c = "plain_codecs\<lparr>json_from_slice := (\<lambda>_. Ok (jwk_to_json ?k))\<rparr>"
  obtain m where m: "jwk_to_json ?k = JObject m" using jwk_to_json_object by blast
  have "didjwk_from_str ?c (jwk_prefix @ ''a?b'') = Ok \<lparr>dj_did = jwk_prefix @ ''a'', dj_jwk = ?k\<rparr>"
    using jwk_kty_written [of ?k] jwk_json_public [OF m] jwk_codec.dec_enc [of ?k] m
    by (simp add: didjwk_from_str_def plain_codecs_def Let_def okp_key_new_def)
  from didjwk_from_str_safe [OF this] show ?thesis by simp
qed

end
