(* ===== verification/StatusList.thy ===== *)
theory StatusList
  imports Externals
begin

text \<open>
  Token status lists, \<open>swiyu-core/src/statuslist/mod.rs\<close>: the pointer a credential carries,
  the semantic slot values, the packed bitstring with its readers and writers, and the JSON
  forms of the pointer, the list, the JWT header and the JWT payload. A packed list is
  related to the plain array of its slots (\<open>slots\<close>), of which a write is one list update.
\<close>

unbundle bit_operations_syntax

section \<open>Profile constants and errors\<close>

definition SWIYU_STATUS_LIST_TYPE :: string where
  "SWIYU_STATUS_LIST_TYPE = ''SwissTokenStatusList-1.0''"

definition SWIYU_STATUS_LIST_BITS :: u8 where
  "SWIYU_STATUS_LIST_BITS = 2"

definition SWIYU_STATUS_LIST_CAPACITY :: u64 where
  "SWIYU_STATUS_LIST_CAPACITY = 131072"

definition STATUSLIST_JWT_TYP :: string where
  "STATUSLIST_JWT_TYP = ''statuslist+jwt''"

datatype status_list_error =
    SLMissingField string
  | SLInvalidFieldType string
  | SLUnsupportedBits u8
  | SLInvalidBase64
  | SLDecompress string
  | SLIdxOutOfRange u64 u64
  | SLInvalidCapacity u64 u8
  | SLValueOutOfRange u8 u8

definition show_status_list_error :: "status_list_error \<Rightarrow> string" where
  "show_status_list_error er =
     (case er of
        SLMissingField name \<Rightarrow> ''missing '' @ quoted name @ '' in status_list''
      | SLInvalidFieldType name \<Rightarrow>
           ''field '' @ quoted name @ '' has the wrong type in status_list''
      | SLUnsupportedBits b \<Rightarrow>
           ''unsupported '' @ quoted ''bits'' @ '' value '' @ show_nat (unat b) @ '' (expected 1 or 2)''
      | SLInvalidBase64 \<Rightarrow> quoted ''lst'' @ '' is not valid base64url''
      | SLDecompress msg \<Rightarrow> ''decompressing '' @ quoted ''lst'' @ '' failed: '' @ msg
      | SLIdxOutOfRange idx n \<Rightarrow>
           ''idx '' @ show_nat (unat idx) @ '' exceeds bitstring length ('' @ show_nat (unat n)
           @ '' slots)''
      | SLInvalidCapacity capacity b \<Rightarrow>
           ''capacity '' @ show_nat (unat capacity) @ '' at bits='' @ show_nat (unat b)
           @ '' does not align to whole bytes''
      | SLValueOutOfRange raw b \<Rightarrow>
           ''value '' @ show_nat (unat raw) @ '' does not fit in bits='' @ show_nat (unat b))"

text \<open>The two field readers all parsers of the module use.\<close>

definition sl_str :: "json_map \<Rightarrow> string \<Rightarrow> (string, status_list_error) result" where
  "sl_str m k = field as_str (SLMissingField k) (SLInvalidFieldType k) m k"

definition sl_u64 :: "json_map \<Rightarrow> string \<Rightarrow> (u64, status_list_error) result" where
  "sl_u64 m k = field as_u64 (SLMissingField k) (SLInvalidFieldType k) m k"

lemma sl_str_string [simp]: "fmlookup m k = Some (JString s) \<Longrightarrow> sl_str m k = Ok s"
  by (simp add: sl_str_def)

lemma sl_u64_number [simp]: "fmlookup m k = Some (json_u64 n) \<Longrightarrow> sl_u64 m k = Ok n"
  by (simp add: sl_u64_def)

section \<open>The pointer of a credential\<close>

record status_list_pointer =
  slp_type :: string
  slp_idx :: u64
  slp_uri :: string

definition pointer_from_json :: "json \<Rightarrow> (status_list_pointer, status_list_error) result" where
  "pointer_from_json v =
     and_then (ok_or (as_object v) (SLInvalidFieldType ''status_list'')) (\<lambda>obj.
     and_then (sl_str obj ''type'') (\<lambda>ty.
     and_then (sl_u64 obj ''idx'') (\<lambda>idx.
     and_then (sl_str obj ''uri'') (\<lambda>uri.
       Ok \<lparr>slp_type = ty, slp_idx = idx, slp_uri = uri\<rparr>))))"

definition pointer_to_json :: "status_list_pointer \<Rightarrow> json" where
  "pointer_to_json p =
     json_obj [(''type'', JString (slp_type p)), (''idx'', json_u64 (slp_idx p)),
               (''uri'', JString (slp_uri p))]"

interpretation pointer_codec: json_parser pointer_to_json pointer_from_json "\<lambda>_. True"
  by unfold_locales (simp_all add: pointer_from_json_def pointer_to_json_def json_obj_def)

section \<open>Slot values\<close>

datatype status_value = Valid | Revoked | Suspended | Reserved u8

fun status_to_u8 :: "status_value \<Rightarrow> u8" where
  "status_to_u8 Valid = 0"
| "status_to_u8 Revoked = 1"
| "status_to_u8 Suspended = 2"
| "status_to_u8 (Reserved n) = n"

definition status_from_u8 :: "u8 \<Rightarrow> status_value" where
  "status_from_u8 raw =
     (if raw = 0 then Valid else if raw = 1 then Revoked else if raw = 2 then Suspended
      else Reserved raw)"

definition status_from_raw :: "u8 \<Rightarrow> u8 \<Rightarrow> status_value" where
  "status_from_raw raw bts =
     (if raw = 0 then Valid else if raw = 1 then Revoked
      else if bts = 2 \<and> raw = 2 then Suspended else Reserved raw)"

definition status_to_raw :: "status_value \<Rightarrow> u8 \<Rightarrow> (u8, status_list_error) result" where
  "status_to_raw v bts =
     (let raw = status_to_u8 v
      in and_then
           (if bts = 1 then Ok 1 else if bts = 2 then Ok 3 else Err (SLUnsupportedBits bts))
           (\<lambda>mx. if mx < raw then Err (SLValueOutOfRange raw bts) else Ok raw))"

fun status_is_valid :: "status_value \<Rightarrow> bool" where
  "status_is_valid Valid = True"
| "status_is_valid _ = False"

section \<open>The packed list\<close>

record status_list =
  sl_bits :: u8
  sl_bytes :: "u8 list"

definition status_list_new :: "u8 \<Rightarrow> u64 \<Rightarrow> (status_list, status_list_error) result" where
  "status_list_new bts capacity =
     (if bts \<noteq> 1 \<and> bts \<noteq> 2 then Err (SLUnsupportedBits bts)
      else and_then
             (ok_or (checked_mul_u64 capacity (ucast bts)) (SLInvalidCapacity capacity bts))
             (\<lambda>total_bits.
               if total_bits mod 8 \<noteq> 0 then Err (SLInvalidCapacity capacity bts)
               else Ok \<lparr>sl_bits = bts, sl_bytes = replicate (unat (total_bits div 8)) 0\<rparr>))"

definition status_list_from_raw :: "u8 \<Rightarrow> u8 list \<Rightarrow> (status_list, status_list_error) result" where
  "status_list_from_raw bts bs =
     (if bts \<noteq> 1 \<and> bts \<noteq> 2 then Err (SLUnsupportedBits bts)
      else Ok \<lparr>sl_bits = bts, sl_bytes = bs\<rparr>)"

definition status_list_len :: "status_list \<Rightarrow> u64" where
  "status_list_len sl = of_nat (length (sl_bytes sl)) * ucast ((8 :: u8) div sl_bits sl)"

definition status_list_is_empty :: "status_list \<Rightarrow> bool" where
  "status_list_is_empty sl \<longleftrightarrow> sl_bytes sl = []"

definition value_at :: "status_list \<Rightarrow> u64 \<Rightarrow> (status_value, status_list_error) result" where
  "value_at sl idx =
     and_then
       (if sl_bits sl = 1 then
          and_then (ok_or (vec_get (sl_bytes sl) (unat (idx div 8)))
                     (SLIdxOutOfRange idx (status_list_len sl)))
            (\<lambda>byte. Ok (drop_bit (unat (idx mod 8)) byte AND 1))
        else if sl_bits sl = 2 then
          and_then (ok_or (vec_get (sl_bytes sl) (unat (idx div 4)))
                     (SLIdxOutOfRange idx (status_list_len sl)))
            (\<lambda>byte. Ok (drop_bit (unat ((idx mod 4) * 2)) byte AND 3))
        else Err (SLUnsupportedBits (sl_bits sl)))
       (\<lambda>raw. Ok (status_from_raw raw (sl_bits sl)))"

definition set_at ::
  "status_list \<Rightarrow> u64 \<Rightarrow> status_value \<Rightarrow> (status_list, status_list_error) result" where
  "set_at sl idx v =
     and_then (status_to_raw v (sl_bits sl)) (\<lambda>raw.
       let n = status_list_len sl
       in if sl_bits sl = 1 then
            let i = unat (idx div 8); s = unat (idx mod 8)
            in and_then (ok_or (vec_get (sl_bytes sl) i) (SLIdxOutOfRange idx n)) (\<lambda>byte.
                 Ok (sl\<lparr>sl_bytes := (sl_bytes sl)
                      [i := (byte AND NOT (push_bit s 1)) OR push_bit s (raw AND 1)]\<rparr>))
          else if sl_bits sl = 2 then
            let i = unat (idx div 4); s = unat ((idx mod 4) * 2)
            in and_then (ok_or (vec_get (sl_bytes sl) i) (SLIdxOutOfRange idx n)) (\<lambda>byte.
                 Ok (sl\<lparr>sl_bytes := (sl_bytes sl)
                      [i := (byte AND NOT (push_bit s 3)) OR push_bit s (raw AND 3)]\<rparr>))
          else Err (SLUnsupportedBits (sl_bits sl)))"

section \<open>Fields of a byte\<close>

text \<open>Writing one \<open>w\<close>-bit field of a byte changes that field and no other.\<close>

definition put_field :: "nat \<Rightarrow> nat \<Rightarrow> u8 \<Rightarrow> u8 \<Rightarrow> u8" where
  "put_field w s raw b = (b AND NOT (push_bit s (mask w))) OR push_bit s (raw AND mask w)"

definition get_field :: "nat \<Rightarrow> nat \<Rightarrow> u8 \<Rightarrow> u8" where
  "get_field w s b = drop_bit s b AND mask w"

lemma get_put_field: "s + w \<le> 8 \<Longrightarrow> get_field w s (put_field w s raw b) = raw AND mask w"
  by (rule bit_eqI) (auto simp: get_field_def put_field_def bit_simps)

lemma get_put_field_other:
  "s + w \<le> s' \<or> s' + w \<le> s \<Longrightarrow> get_field w s' (put_field w s raw b) = get_field w s' b"
  by (rule bit_eqI) (auto simp: get_field_def put_field_def bit_simps dest: bit_imp_le_length)

lemma mask_lits: "(mask 1 :: u8) = 1" "(mask 2 :: u8) = 3"
  by (simp_all add: mask_eq_exp_minus_1)

section \<open>The array of slots\<close>

text \<open>
  The abstract view of a packed list: one number per slot, the width of a slot being 1 or 2
  bits. \<open>wf_status_list\<close> is what the two constructors and the parser establish, with the
  bound on the number of slots that holds of every vector that fits in memory.
\<close>

definition slot_width :: "status_list \<Rightarrow> nat" where
  "slot_width sl = unat (sl_bits sl)"

definition per_byte :: "status_list \<Rightarrow> nat" where
  "per_byte sl = 8 div slot_width sl"

definition slots :: "status_list \<Rightarrow> u8 list" where
  "slots sl =
     map (\<lambda>i. get_field (slot_width sl) (slot_width sl * (i mod per_byte sl))
                 (sl_bytes sl ! (i div per_byte sl)))
       [0..<per_byte sl * length (sl_bytes sl)]"

definition wf_status_list :: "status_list \<Rightarrow> bool" where
  "wf_status_list sl \<longleftrightarrow>
     (sl_bits sl = 1 \<or> sl_bits sl = 2) \<and> 8 * length (sl_bytes sl) < 2 ^ 64"

lemma length_slots: "length (slots sl) = per_byte sl * length (sl_bytes sl)"
  by (simp add: slots_def)

lemma slot_index: "(a :: nat) > 0 \<Longrightarrow> i < a * n \<longleftrightarrow> i div a < n"
  by (simp add: div_less_iff_less_mult mult.commute)

lemma unat_idx:
  "unat ((idx :: u64) div 8) = unat idx div 8" "unat (idx mod 8) = unat idx mod 8"
  "unat (idx div 4) = unat idx div 4" "unat ((idx mod 4) * 2) = 2 * (unat idx mod 4)"
proof -
  show "unat (idx div 8) = unat idx div 8" "unat (idx mod 8) = unat idx mod 8"
    "unat (idx div 4) = unat idx div 4"
    by (simp_all add: unat_div_distrib unat_mod_distrib)
  have "unat (idx mod 4) = unat idx mod 4" by (simp add: unat_mod_distrib)
  moreover have "unat idx mod 4 * 2 < 2 ^ 64"
    by (rule le_less_trans [of _ 8]) auto
  ultimately show "unat ((idx mod 4) * 2) = 2 * (unat idx mod 4)"
    by (simp add: unat_word_ariths)
qed

lemma status_list_len_slots:
  assumes "wf_status_list sl"
  shows "unat (status_list_len sl) = length (slots sl)"
proof -
  have "(of_nat (length (sl_bytes sl)) * ucast ((8 :: u8) div sl_bits sl) :: u64)
      = of_nat (length (slots sl))"
    using assms
    by (auto simp: wf_status_list_def length_slots per_byte_def slot_width_def)
  moreover have "length (slots sl) < 2 ^ 64"
    using assms
    by (auto simp: wf_status_list_def length_slots per_byte_def slot_width_def)
  ultimately show ?thesis
    by (simp add: status_list_len_def unat_of_nat_small)
qed

lemma value_at_slots:
  assumes "wf_status_list sl"
  shows "value_at sl idx =
    (if unat idx < length (slots sl)
     then Ok (status_from_raw (slots sl ! unat idx) (sl_bits sl))
     else Err (SLIdxOutOfRange idx (status_list_len sl)))"
  using assms
  by (auto simp: wf_status_list_def value_at_def vec_get_def unat_idx slots_def per_byte_def
      slot_width_def get_field_def slot_index mask_lits)

text \<open>One packed write is one update of the array of slots.\<close>

definition write_slot :: "status_list \<Rightarrow> nat \<Rightarrow> u8 \<Rightarrow> status_list" where
  "write_slot sl i raw =
     sl\<lparr>sl_bytes := (sl_bytes sl)[i div per_byte sl :=
          put_field (slot_width sl) (slot_width sl * (i mod per_byte sl)) raw
            (sl_bytes sl ! (i div per_byte sl))]\<rparr>"

lemma set_at_write_slot:
  assumes "wf_status_list sl"
  shows "set_at sl idx v =
    and_then (status_to_raw v (sl_bits sl)) (\<lambda>raw.
      if unat idx < length (slots sl) then Ok (write_slot sl (unat idx) raw)
      else Err (SLIdxOutOfRange idx (status_list_len sl)))"
  using assms
  by (cases "status_to_raw v (sl_bits sl)")
    (auto simp: wf_status_list_def set_at_def write_slot_def vec_get_def unat_idx length_slots
      per_byte_def slot_width_def put_field_def slot_index mask_lits Let_def)

lemma write_slot_simps [simp]:
  "sl_bits (write_slot sl i raw) = sl_bits sl"
  "length (sl_bytes (write_slot sl i raw)) = length (sl_bytes sl)"
  "slot_width (write_slot sl i raw) = slot_width sl"
  "per_byte (write_slot sl i raw) = per_byte sl"
  "length (slots (write_slot sl i raw)) = length (slots sl)"
  "wf_status_list (write_slot sl i raw) = wf_status_list sl"
  by (simp_all add: write_slot_def slot_width_def per_byte_def length_slots wf_status_list_def)

lemma field_positions:
  fixes w p i j :: nat
  assumes "w * p = 8" "i \<noteq> j" "i div p = j div p"
  shows "w * (i mod p) + w \<le> w * (j mod p) \<or> w * (j mod p) + w \<le> w * (i mod p)"
proof -
  have "i mod p \<noteq> j mod p" using assms by (metis mult_div_mod_eq)
  then consider "Suc (i mod p) \<le> j mod p" | "Suc (j mod p) \<le> i mod p" by linarith
  then show ?thesis
  proof cases
    case 1
    from mult_le_mono2 [OF this, of w] show ?thesis by simp
  next
    case 2
    from mult_le_mono2 [OF this, of w] show ?thesis by simp
  qed
qed

lemma field_fits:
  fixes w p i :: nat
  assumes "w * p = 8"
  shows "w * (i mod p) + w \<le> 8"
proof -
  have "p > 0" using assms by (cases p) auto
  then have "Suc (i mod p) \<le> p" by (simp add: Suc_leI)
  from mult_le_mono2 [OF this, of w] assms show ?thesis by simp
qed

lemma slots_write_slot:
  assumes wf: "wf_status_list sl" and i: "i < length (slots sl)"
  shows "slots (write_slot sl i raw) = (slots sl)[i := raw AND mask (slot_width sl)]"
proof (rule nth_equalityI)
  fix j assume "j < length (slots (write_slot sl i raw))"
  then have j: "j < per_byte sl * length (sl_bytes sl)" by (simp add: length_slots)
  have wp: "slot_width sl * per_byte sl = 8"
    using wf by (auto simp: wf_status_list_def per_byte_def slot_width_def)
  then have p: "per_byte sl > 0" by (cases "per_byte sl") auto
  have i': "i div per_byte sl < length (sl_bytes sl)"
    using i p by (simp add: length_slots slot_index)
  show "slots (write_slot sl i raw) ! j = (slots sl)[i := raw AND mask (slot_width sl)] ! j"
  proof (cases "j = i")
    case True
    with j i i' show ?thesis
      by (simp add: slots_def write_slot_def [of sl i raw] slot_width_def [of "sl\<lparr>sl_bytes := _\<rparr>"]
          per_byte_def [of "sl\<lparr>sl_bytes := _\<rparr>"] flip: slot_width_def per_byte_def)
        (simp add: get_put_field field_fits [OF wp])
  next
    case False
    then have "i \<noteq> j" by simp
    with j i' show ?thesis
      using field_positions [OF wp \<open>i \<noteq> j\<close>]
      by (simp add: slots_def write_slot_def [of sl i raw] slot_width_def [of "sl\<lparr>sl_bytes := _\<rparr>"]
          per_byte_def [of "sl\<lparr>sl_bytes := _\<rparr>"] flip: slot_width_def per_byte_def)
        (auto simp: nth_list_update get_put_field_other)
  qed
qed simp

lemma status_to_raw_ok:
  "status_to_raw v bts = Ok raw \<longleftrightarrow>
     raw = status_to_u8 v \<and> (bts = 1 \<and> raw \<le> 1 \<or> bts = 2 \<and> raw \<le> 3)"
  by (auto simp: status_to_raw_def Let_def not_less)

lemma raw_fits:
  assumes "status_to_raw v (sl_bits sl) = Ok raw"
  shows "raw AND mask (slot_width sl) = raw"
proof -
  have "unat raw < 2 ^ slot_width sl"
    using assms by (auto simp: status_to_raw_ok slot_width_def word_le_nat_alt)
  then show ?thesis
    by (simp flip: take_bit_eq_mask add: take_bit_eq_mask_iff)
      (metis take_bit_nat_eq_self unsigned_take_bit_eq unsigned_word_eqI)
qed

section \<open>Theorems on slots\<close>

text \<open>Reading is indexing. On a well-formed list (1 or 2 bits per slot) \<open>value_at\<close> returns
  the meaning of the slot's number in the array of slots, for every index below the length
  that \<open>len\<close> reports, and \<open>IdxOutOfRange\<close> with that length for every other index.\<close>

theorem value_at_refines:
  assumes "wf_status_list sl"
  shows "unat (status_list_len sl) = length (slots sl)
    \<and> value_at sl idx =
        (if unat idx < length (slots sl)
         then Ok (status_from_raw (slots sl ! unat idx) (sl_bits sl))
         else Err (SLIdxOutOfRange idx (status_list_len sl)))"
  using value_at_slots [OF assms] status_list_len_slots [OF assms] by blast

lemma set_at_ok:
  assumes "wf_status_list sl"
  shows "set_at sl idx v = Ok sl' \<longleftrightarrow>
    is_ok (status_to_raw v (sl_bits sl)) \<and> unat idx < length (slots sl)
      \<and> sl' = write_slot sl (unat idx) (status_to_u8 v)"
  by (cases "status_to_raw v (sl_bits sl)")
    (auto simp: set_at_write_slot [OF assms] dest: status_to_raw_ok [THEN iffD1])

lemma set_at_slots:
  assumes "wf_status_list sl" "set_at sl idx v = Ok sl'"
  shows "wf_status_list sl'" "sl_bits sl' = sl_bits sl" "length (slots sl') = length (slots sl)"
    "slots sl' = (slots sl)[unat idx := status_to_u8 v]" "unat idx < length (slots sl)"
proof -
  have *: "sl' = write_slot sl (unat idx) (status_to_u8 v)" "unat idx < length (slots sl)"
      "status_to_raw v (sl_bits sl) = Ok (status_to_u8 v)"
    using assms by (auto simp: set_at_ok is_ok_iff status_to_raw_ok)
  with assms show "wf_status_list sl'" "sl_bits sl' = sl_bits sl"
      "length (slots sl') = length (slots sl)" "unat idx < length (slots sl)"
      "slots sl' = (slots sl)[unat idx := status_to_u8 v]"
    by (simp_all add: slots_write_slot raw_fits)
qed

text \<open>C23: a write is one update of the array of slots. \<open>set_at\<close> fails exactly as the checks on
  the value and the index say (the value first), and otherwise leaves a well-formed list of the
  same width whose slots are the old ones with the written number at the index: no
  neighbouring slot of the same byte is disturbed.\<close>

theorem set_at_refines:
  assumes "wf_status_list sl"
  shows "(case set_at sl idx v of Inl e \<Rightarrow> Err e
          | Inr sl' \<Rightarrow> Ok (slots sl', sl_bits sl', wf_status_list sl')) =
    and_then (status_to_raw v (sl_bits sl)) (\<lambda>raw.
      if unat idx < length (slots sl)
      then Ok ((slots sl)[unat idx := raw], sl_bits sl, True)
      else Err (SLIdxOutOfRange idx (status_list_len sl)))"
  using assms
  by (cases "status_to_raw v (sl_bits sl)")
    (auto simp: set_at_write_slot slots_write_slot raw_fits)

theorem set_at_refines_witness:
  "(case set_at \<lparr>sl_bits = 2, sl_bytes = [0x1B, 0xFF]\<rparr> 5 Suspended of Inl e \<Rightarrow> Err e
    | Inr sl' \<Rightarrow> Ok (slots sl', sl_bits sl', wf_status_list sl')) =
   Ok ([3, 2, 1, 0, 3, 2, 3, 3], 2, True)"
  using set_at_refines [of "\<lparr>sl_bits = 2, sl_bytes = [0x1B, 0xFF]\<rparr>" 5 Suspended]
  by (simp add: wf_status_list_def length_slots per_byte_def slot_width_def slots_def
      get_field_def status_to_raw_def upt_rec mask_eq_exp_minus_1)

theorem value_at_refines_witness:
  "unat (status_list_len \<lparr>sl_bits = 1, sl_bytes = [0x05]\<rparr>) = 8
    \<and> value_at \<lparr>sl_bits = 1, sl_bytes = [0x05]\<rparr> 2 = Ok Revoked"
  using value_at_refines [of "\<lparr>sl_bits = 1, sl_bytes = [0x05]\<rparr>" 2]
  by (simp add: wf_status_list_def length_slots per_byte_def slot_width_def slots_def
      get_field_def status_from_raw_def upt_rec)

section \<open>Stores of slots\<close>

text \<open>
  The interface the issuer uses: a readable and writable store of slots, with the value
  that a written one reads back as. A sequence of writes then acts as a map update: each slot
  reads as its last write, and unwritten slots read as before.
\<close>

fun put_all :: "('s \<Rightarrow> 'i \<Rightarrow> 'v \<Rightarrow> ('s, 'e) result) \<Rightarrow> 's \<Rightarrow> ('i \<times> 'v) list \<Rightarrow> ('s, 'e) result" where
  "put_all put s [] = Ok s"
| "put_all put s ((i, v) # ws) = and_then (put s i v) (\<lambda>s'. put_all put s' ws)"

locale slot_store =
  fixes get :: "'s \<Rightarrow> 'i \<Rightarrow> ('v, 'e) result"
    and put :: "'s \<Rightarrow> 'i \<Rightarrow> 'v \<Rightarrow> ('s, 'e) result"
    and ok_store :: "'s \<Rightarrow> bool"
    and canon :: "'s \<Rightarrow> 'v \<Rightarrow> 'v"
  assumes put_inv: "ok_store s \<Longrightarrow> put s i v = Ok s' \<Longrightarrow> ok_store s'"
    and put_canon: "ok_store s \<Longrightarrow> put s i v = Ok s' \<Longrightarrow> canon s' = canon s"
    and get_put: "ok_store s \<Longrightarrow> put s i v = Ok s' \<Longrightarrow> get s' i = Ok (canon s v)"
    and is_ok_get_put_other: "ok_store s \<Longrightarrow> put s i v = Ok s' \<Longrightarrow> j \<noteq> i \<Longrightarrow> get s' j = get s j"
begin

lemma put_all_inv: "ok_store s \<Longrightarrow> put_all put s ws = Ok s' \<Longrightarrow> ok_store s'"
  by (induction ws arbitrary: s) (auto simp: ok_iff, meson put_inv)

lemma get_put_all:
  "ok_store s \<Longrightarrow> put_all put s ws = Ok s' \<Longrightarrow>
   get s' j = (case map_of (rev ws) j of Some v \<Rightarrow> Ok (canon s v) | None \<Rightarrow> get s j)"
proof (induction ws arbitrary: s)
  case (Cons w ws)
  obtain i v where w: "w = (i, v)" by (cases w)
  with Cons.prems obtain t where t: "put s i v = Ok t" "put_all put t ws = Ok s'"
    by (auto simp: ok_iff)
  have "get s' j = (case map_of (rev ws) j of Some v \<Rightarrow> Ok (canon s v) | None \<Rightarrow> get t j)"
    using Cons.IH [OF put_inv [OF Cons.prems(1) t(1)] t(2)]
    unfolding put_canon [OF Cons.prems(1) t(1)] .
  then show ?case
    using get_put [OF Cons.prems(1) t(1)] is_ok_get_put_other [OF Cons.prems(1) t(1), of j] w
    by (auto simp: map_add_def split: option.splits)
qed simp

lemma last_write_wins:
  "ok_store s \<Longrightarrow> put s i v = Ok t \<Longrightarrow> put t i w = Ok s' \<Longrightarrow> get s' i = Ok (canon s w)"
  using get_put put_inv put_canon by metis

end

interpretation list_store: slot_store value_at set_at wf_status_list
    "\<lambda>sl v. status_from_raw (status_to_u8 v) (sl_bits sl)"
proof unfold_locales
  fix sl sl' i v j
  assume *: "wf_status_list sl" "set_at sl i v = Ok sl'"
  note s = set_at_slots [OF *]
  show "wf_status_list sl'" by (rule s(1))
  show "(\<lambda>v. status_from_raw (status_to_u8 v) (sl_bits sl')) =
      (\<lambda>v. status_from_raw (status_to_u8 v) (sl_bits sl))" by (simp add: s(2))
  show "value_at sl' i = Ok (status_from_raw (status_to_u8 v) (sl_bits sl))"
    using s by (simp add: value_at_slots)
  assume "j \<noteq> i"
  then have "unat j \<noteq> unat i" using unsigned_word_eqI [of j i, where ?'a = nat] by blast
  moreover have "status_list_len sl' = status_list_len sl"
    using * by (simp add: status_list_len_def set_at_ok write_slot_def)
  ultimately show "value_at sl' j = value_at sl j"
    using s * by (simp add: value_at_slots)
qed

text \<open>A run of writes to a status list is a map update. After any successful sequence of
  \<open>set_at\<close> calls on a well-formed list every slot reads as its last written value, as far as
  the width of the list can tell values apart, and every slot that was not written reads as
  it did before.\<close>

theorem set_at_sequence:
  assumes "wf_status_list sl" "put_all set_at sl ws = Ok sl'"
  shows "value_at sl' j =
    (case map_of (rev ws) j of
       Some v \<Rightarrow> Ok (status_from_raw (status_to_u8 v) (sl_bits sl))
     | None \<Rightarrow> value_at sl j)"
  by (rule list_store.get_put_all [OF assms])

theorem set_at_sequence_witness:
  "\<exists>sl'. put_all set_at \<lparr>sl_bits = 2, sl_bytes = [0]\<rparr> [(1, Revoked), (2, Suspended), (1, Valid)] = Ok sl'
    \<and> value_at sl' 1 = Ok Valid \<and> value_at sl' 2 = Ok Suspended"
proof -
  let ?s = "\<lparr>sl_bits = 2, sl_bytes = [0]\<rparr>" and ?ws = "[(1, Revoked), (2, Suspended), (1, Valid)]"
  have run: "put_all set_at ?s ?ws = Ok \<lparr>sl_bits = 2, sl_bytes = [0x20]\<rparr>"
    by (simp add: set_at_def status_to_raw_def vec_get_def Let_def)
  have wf: "wf_status_list ?s" by (simp add: wf_status_list_def)
  from set_at_sequence [OF wf run, of 1] set_at_sequence [OF wf run, of 2] run
  show ?thesis by (simp add: status_from_raw_def)
qed

section \<open>Construction\<close>

lemma slots_zero:
  assumes "wf_status_list sl" "sl_bytes sl = replicate n 0"
  shows "slots sl = replicate (per_byte sl * n) 0"
proof (rule nth_equalityI)
  fix i assume "i < length (slots sl)"
  then have i: "i < per_byte sl * n" using assms by (simp add: length_slots)
  then have "per_byte sl > 0" by (cases "per_byte sl") auto
  with i have "i div per_byte sl < n" by (simp add: slot_index)
  with i assms show "slots sl ! i = replicate (per_byte sl * n) 0 ! i"
    by (simp add: slots_def get_field_def)
qed (use assms in \<open>simp add: length_slots\<close>)

lemma new_total:
  fixes bts :: u8
  assumes "checked_mul_u64 capacity (ucast bts) = Some t" "bts = 1 \<or> bts = 2"
  shows "unat t = unat bts * unat capacity"
  using checked_mul_u64_some [OF assms(1)] assms(2) by auto

text \<open>\<open>StatusList::new\<close>. It succeeds exactly if the width is 1 or 2, the number of bits does
  not overflow 64 bits and fills whole bytes; the list is then well formed, has exactly the
  requested capacity and every slot reads \<open>Valid\<close>; otherwise the error names the width or
  the capacity.\<close>

theorem status_list_new_spec:
  "case status_list_new bts capacity of
     Inr sl \<Rightarrow> (bts = 1 \<or> bts = 2) \<and> 8 dvd unat capacity * unat bts
       \<and> wf_status_list sl \<and> sl_bits sl = bts \<and> unat (status_list_len sl) = unat capacity
       \<and> slots sl = replicate (unat capacity) 0
   | Inl e \<Rightarrow> e = SLUnsupportedBits bts \<and> bts \<noteq> 1 \<and> bts \<noteq> 2
       \<or> e = SLInvalidCapacity capacity bts \<and> (bts = 1 \<or> bts = 2)
           \<and> (2 ^ 64 \<le> unat capacity * unat bts \<or> 0 < unat capacity * unat bts mod 8)"
proof (cases "bts = 1 \<or> bts = 2")
  case False
  then show ?thesis by (simp add: status_list_new_def)
next
  case bits: True
  show ?thesis
  proof (cases "checked_mul_u64 capacity (ucast bts)")
    case None
    with bits show ?thesis
      by (auto simp: status_list_new_def checked_mul_u64_def split: if_splits)
  next
    case (Some t)
    note t = new_total [OF Some bits]
    have m: "t mod 8 = 0 \<longleftrightarrow> 8 dvd unat capacity * unat bts"
    proof -
      have "t mod 8 = 0 \<longleftrightarrow> unat (t mod 8) = 0" by (simp only: unat_eq_zero)
      then show ?thesis by (simp add: t unat_mod_distrib dvd_eq_mod_eq_0 mult.commute)
    qed
    show ?thesis
    proof (cases "t mod 8 = 0")
      case False
      with bits Some m show ?thesis by (simp add: status_list_new_def dvd_eq_mod_eq_0)
    next
      case True
      define sl where "sl = \<lparr>sl_bits = bts, sl_bytes = replicate (unat (t div 8)) (0 :: u8)\<rparr>"
      have n: "8 * unat (t div 8) = unat t"
        using True m t by (simp add: unat_div_distrib mult.commute)
      have wf: "wf_status_list sl"
        using bits n unat_u64_less [of t] by (simp add: sl_def wf_status_list_def)
      have "per_byte sl * unat (t div 8) = unat capacity"
        using bits n t by (auto simp: sl_def per_byte_def slot_width_def)
      with slots_zero [OF wf, of "unat (t div 8)"]
      have z: "slots sl = replicate (unat capacity) 0" by (simp add: sl_def)
      have "status_list_new bts capacity = Ok sl"
        using bits Some True by (auto simp: status_list_new_def sl_def)
      with wf z m True bits show ?thesis
        by (simp add: status_list_len_slots) (simp add: sl_def)
    qed
  qed
qed

section \<open>The JSON form of a list\<close>

text \<open>The width of a parsed list: 1 if absent, else a number that fits a byte.\<close>

definition read_bits :: "json_map \<Rightarrow> (u8, status_list_error) result" where
  "read_bits obj =
     (case fmlookup obj ''bits'' of
        None \<Rightarrow> Ok 1
      | Some v \<Rightarrow> ok_or (Option.bind (as_u64 v) u8_try_from) (SLInvalidFieldType ''bits''))"

definition status_list_from_json ::
  "codecs \<Rightarrow> json \<Rightarrow> (status_list, status_list_error) result" where
  "status_list_from_json c v =
     and_then (ok_or (as_object v) (SLInvalidFieldType ''status_list'')) (\<lambda>obj.
     and_then (read_bits obj) (\<lambda>bts.
     if bts \<noteq> 1 \<and> bts \<noteq> 2 then Err (SLUnsupportedBits bts)
     else
       and_then (sl_str obj ''lst'') (\<lambda>lst.
       and_then (map_err (\<lambda>_. SLInvalidBase64) (b64_decode c lst)) (\<lambda>compressed.
       and_then (map_err SLDecompress (zlib_decompress c compressed)) (\<lambda>bs.
         Ok \<lparr>sl_bits = bts, sl_bytes = bs\<rparr>)))))"

definition status_list_to_json :: "codecs \<Rightarrow> status_list \<Rightarrow> json" where
  "status_list_to_json c sl =
     json_obj [(''bits'', json_u64 (ucast (sl_bits sl))),
               (''lst'', JString (b64_encode c (zlib_compress c (sl_bytes sl))))]"

text \<open>A list whose bytes the two byte formats carry faithfully.\<close>

definition status_list_portable :: "codecs \<Rightarrow> status_list \<Rightarrow> bool" where
  "status_list_portable c sl \<longleftrightarrow>
     (sl_bits sl = 1 \<or> sl_bits sl = 2)
       \<and> b64_decode c (b64_encode c (zlib_compress c (sl_bytes sl))) = Ok (zlib_compress c (sl_bytes sl))
       \<and> zlib_decompress c (zlib_compress c (sl_bytes sl)) = Ok (sl_bytes sl)"

lemma wf_portable:
  "b64_law c \<Longrightarrow> zlib_law c \<Longrightarrow> wf_status_list sl \<Longrightarrow> status_list_portable c sl"
  by (simp add: status_list_portable_def wf_status_list_def)

interpretation list_json: json_codec "status_list_to_json c" "status_list_from_json c"
    "status_list_portable c" for c
  by unfold_locales
    (auto simp: status_list_from_json_def status_list_to_json_def status_list_portable_def
      json_obj_def read_bits_def sl_str_def json_u64_def u8_try_from_def)

text \<open>A status list survives the wire. Parsing the \<open>status_list\<close> object a list was written to
  gives the list back, and whatever object is accepted at all yields a list of width 1 or 2
  (so reading its slots never meets an unsupported width).\<close>

theorem status_list_json_roundtrip:
  assumes "b64_law c" "zlib_law c"
  shows "(wf_status_list sl \<longrightarrow> status_list_from_json c (status_list_to_json c sl) = Ok sl)
    \<and> (status_list_from_json c v = Ok sl' \<longrightarrow> sl_bits sl' = 1 \<or> sl_bits sl' = 2)"
  using list_json.dec_enc [of c sl] wf_portable [OF assms, of sl]
  by (auto simp: status_list_from_json_def ok_iff)

theorem status_list_json_roundtrip_witness:
  "status_list_from_json plain_codecs
     (status_list_to_json plain_codecs \<lparr>sl_bits = 2, sl_bytes = [7, 9]\<rparr>)
   = Ok \<lparr>sl_bits = 2, sl_bytes = [7, 9]\<rparr>"
  using status_list_json_roundtrip [of plain_codecs "\<lparr>sl_bits = 2, sl_bytes = [7, 9]\<rparr>"]
  by (simp add: wf_status_list_def)

section \<open>The JWT carrying a list\<close>

record status_list_jwt_header =
  slh_alg :: string
  slh_typ :: string
  slh_kid :: string

definition sl_header_from_json :: "json \<Rightarrow> (status_list_jwt_header, status_list_error) result" where
  "sl_header_from_json v =
     and_then (ok_or (as_object v) (SLInvalidFieldType ''header'')) (\<lambda>obj.
     and_then (sl_str obj ''alg'') (\<lambda>alg.
     and_then (sl_str obj ''typ'') (\<lambda>typ.
     and_then (sl_str obj ''kid'') (\<lambda>kid.
       Ok \<lparr>slh_alg = alg, slh_typ = typ, slh_kid = kid\<rparr>))))"

definition sl_header_to_json :: "status_list_jwt_header \<Rightarrow> json" where
  "sl_header_to_json h =
     json_obj [(''alg'', JString (slh_alg h)), (''typ'', JString (slh_typ h)),
               (''kid'', JString (slh_kid h))]"

record status_list_jwt_payload =
  slj_iss :: string
  slj_sub :: string
  slj_iat :: u64
  slj_exp :: "u64 option"
  slj_list :: status_list

definition read_exp :: "json_map \<Rightarrow> (u64 option, status_list_error) result" where
  "read_exp obj =
     (case fmlookup obj ''exp'' of
        None \<Rightarrow> Ok None
      | Some JNull \<Rightarrow> Ok None
      | Some v \<Rightarrow> and_then (ok_or (as_u64 v) (SLInvalidFieldType ''exp'')) (\<lambda>n. Ok (Some n)))"

definition sl_payload_from_json ::
  "codecs \<Rightarrow> json \<Rightarrow> (status_list_jwt_payload, status_list_error) result" where
  "sl_payload_from_json c v =
     and_then (ok_or (as_object v) (SLInvalidFieldType ''payload'')) (\<lambda>obj.
     and_then (sl_str obj ''iss'') (\<lambda>iss.
     and_then (sl_str obj ''sub'') (\<lambda>sb.
     and_then (sl_u64 obj ''iat'') (\<lambda>iat.
     and_then (read_exp obj) (\<lambda>ex.
     and_then (ok_or (fmlookup obj ''status_list'') (SLMissingField ''status_list'')) (\<lambda>inner.
     and_then (status_list_from_json c inner) (\<lambda>l.
       Ok \<lparr>slj_iss = iss, slj_sub = sb, slj_iat = iat, slj_exp = ex, slj_list = l\<rparr>)))))))"

definition sl_payload_to_json :: "codecs \<Rightarrow> status_list_jwt_payload \<Rightarrow> json" where
  "sl_payload_to_json c p =
     (let m0 = fmupd ''iat'' (json_u64 (slj_iat p))
                 (fmupd ''sub'' (JString (slj_sub p))
                   (fmupd ''iss'' (JString (slj_iss p)) fmempty));
          m1 = insert_some ''exp'' (map_option json_u64 (slj_exp p)) m0
      in JObject (fmupd ''status_list'' (status_list_to_json c (slj_list p)) m1))"

interpretation header_codec: json_parser sl_header_to_json sl_header_from_json "\<lambda>_. True"
  by unfold_locales (simp_all add: sl_header_from_json_def sl_header_to_json_def json_obj_def)

interpretation payload_codec: json_codec "sl_payload_to_json c" "sl_payload_from_json c"
    "\<lambda>p. status_list_portable c (slj_list p)" for c
proof unfold_locales
  fix p :: status_list_jwt_payload assume "status_list_portable c (slj_list p)"
  then show "sl_payload_from_json c (sl_payload_to_json c p) = Ok p"
    using list_json.dec_enc [of c "slj_list p"]
    by (cases "slj_exp p")
      (simp_all add: sl_payload_from_json_def sl_payload_to_json_def Let_def
        read_exp_def json_u64_def sl_u64_def)
qed

text \<open>The three JSON envelopes around a status list (the pointer in a credential, the
  header and the payload of the list's JWT) are read back as they were written, with or
  without an expiry; two different pointers or headers never have the same JSON.\<close>

theorem status_envelopes_roundtrip:
  assumes "b64_law c" "zlib_law c" "wf_status_list (slj_list p)"
  shows "sl_payload_from_json c (sl_payload_to_json c p) = Ok p
    \<and> sl_header_from_json (sl_header_to_json h) = Ok h
    \<and> pointer_from_json (pointer_to_json q) = Ok q
    \<and> (pointer_to_json q = pointer_to_json q') = (q = q')
    \<and> (sl_header_to_json h = sl_header_to_json h') = (h = h')"
  using payload_codec.dec_enc [of c p] wf_portable [OF assms] header_codec.dec_enc [of h]
    pointer_codec.dec_enc [of q] pointer_codec.enc_inj [of q q'] header_codec.enc_inj [of h h']
  by auto

theorem status_envelopes_roundtrip_witness:
  "sl_payload_from_json plain_codecs (sl_payload_to_json plain_codecs
      \<lparr>slj_iss = ''did:tdw:a:b'', slj_sub = ''https://s'', slj_iat = 5, slj_exp = Some 9,
       slj_list = \<lparr>sl_bits = 1, sl_bytes = [3]\<rparr>\<rparr>)
   = Ok \<lparr>slj_iss = ''did:tdw:a:b'', slj_sub = ''https://s'', slj_iat = 5, slj_exp = Some 9,
       slj_list = \<lparr>sl_bits = 1, sl_bytes = [3]\<rparr>\<rparr>"
  using status_envelopes_roundtrip
    [of plain_codecs "\<lparr>slj_iss = ''did:tdw:a:b'', slj_sub = ''https://s'', slj_iat = 5,
       slj_exp = Some 9, slj_list = \<lparr>sl_bits = 1, sl_bytes = [3]\<rparr>\<rparr>"]
  by (simp add: wf_status_list_def)

end
