(* ===== verification/SdJwt.thy ===== *)
theory SdJwt
  imports Externals
begin

text \<open>
  Selective disclosures, \<open>swiyu-core/src/sd_jwt.rs\<close>: the triple of one claim, its wire form
  and digest, and the parser. The wire text is kept as it was made or received, so the digest
  of a parsed disclosure is the digest of exactly the received text.
\<close>

record disclosure =
  dc_salt :: string
  dc_name :: string
  dc_value :: json
  dc_encoded :: string

datatype disclosure_error =
    DCBase64 string
  | DCJson string
  | DCNotArray
  | DCWrongLength nat
  | DCSaltNotString
  | DCNameNotString

definition show_disclosure_error :: "disclosure_error \<Rightarrow> string" where
  "show_disclosure_error er =
     (case er of
        DCBase64 r \<Rightarrow> ''disclosure is not base64url: '' @ r
      | DCJson r \<Rightarrow> ''disclosure is not JSON: '' @ r
      | DCNotArray \<Rightarrow> ''disclosure is not a JSON array''
      | DCWrongLength got \<Rightarrow> ''disclosure must have 3 elements, got '' @ show_nat got
      | DCSaltNotString \<Rightarrow> ''disclosure salt is not a string''
      | DCNameNotString \<Rightarrow> ''disclosure claim name is not a string'')"

definition disclosure_array :: "string \<Rightarrow> string \<Rightarrow> json \<Rightarrow> json" where
  "disclosure_array salt name v = JArray [JString salt, JString name, v]"

definition disclosure_new :: "codecs \<Rightarrow> string \<Rightarrow> string \<Rightarrow> json \<Rightarrow> disclosure" where
  "disclosure_new c salt name v =
     \<lparr>dc_salt = salt, dc_name = name, dc_value = v,
      dc_encoded = b64_encode c (as_bytes (json_to_string c (disclosure_array salt name v)))\<rparr>"

definition disclosure_digest :: "codecs \<Rightarrow> disclosure \<Rightarrow> string" where
  "disclosure_digest c d = b64_encode c (sha256 c (as_bytes (dc_encoded d)))"

definition disclosure_to_string :: "disclosure \<Rightarrow> string" where
  "disclosure_to_string d = dc_encoded d"

fun disclosure_from_array :: "string \<Rightarrow> json list \<Rightarrow> (disclosure, disclosure_error) result" where
  "disclosure_from_array encoded [s, n, x] =
     and_then (ok_or (as_str s) DCSaltNotString) (\<lambda>salt.
     and_then (ok_or (as_str n) DCNameNotString) (\<lambda>name.
       Ok \<lparr>dc_salt = salt, dc_name = name, dc_value = x, dc_encoded = encoded\<rparr>))"
| "disclosure_from_array encoded arr = Err (DCWrongLength (length arr))"

definition disclosure_from_str :: "codecs \<Rightarrow> string \<Rightarrow> (disclosure, disclosure_error) result" where
  "disclosure_from_str c encoded =
     and_then (map_err DCBase64 (b64_decode c encoded)) (\<lambda>bs.
     and_then (map_err DCJson (json_from_slice c bs)) (\<lambda>v.
     and_then (ok_or (as_array v) DCNotArray) (\<lambda>arr.
       disclosure_from_array encoded arr)))"

lemma disclosure_from_array_text: "disclosure_from_array t arr = Ok d \<Longrightarrow> dc_encoded d = t"
  by (induction t arr rule: disclosure_from_array.induct) (auto simp: ok_iff)

lemma disclosure_parsed_text: "disclosure_from_str c t = Ok d \<Longrightarrow> disclosure_to_string d = t"
  by (auto simp: disclosure_from_str_def disclosure_to_string_def ok_iff
      dest: disclosure_from_array_text)

text \<open>Disclosures on the wire. A disclosure made by an issuer is parsed back with its salt,
  name and value from its wire form and has the same digest; and any text that parses at all
  is kept verbatim, so its digest is the hash of the text as received, however the JSON
  inside was written.\<close>

theorem disclosure_roundtrip:
  assumes "b64_law c" "json_text_law c (disclosure_array salt name v)"
  shows "disclosure_from_str c (disclosure_to_string (disclosure_new c salt name v))
      = Ok (disclosure_new c salt name v)
    \<and> (disclosure_from_str c t = Ok d \<longrightarrow>
        disclosure_to_string d = t
        \<and> disclosure_digest c d = b64_encode c (sha256 c (as_bytes t)))"
proof -
  have "json_from_slice c (as_bytes (json_to_string c (disclosure_array salt name v)))
      = Ok (disclosure_array salt name v)"
    using assms(2) by (simp add: json_text_law_def)
  then have "disclosure_from_str c (disclosure_to_string (disclosure_new c salt name v))
      = Ok (disclosure_new c salt name v)"
    using assms(1)
    by (simp add: disclosure_from_str_def disclosure_to_string_def disclosure_new_def
        disclosure_array_def)
  moreover have "disclosure_digest c d = b64_encode c (sha256 c (as_bytes t))"
    if "disclosure_from_str c t = Ok d"
    using disclosure_parsed_text [OF that] by (simp add: disclosure_digest_def disclosure_to_string_def)
  ultimately show ?thesis using disclosure_parsed_text by blast
qed

theorem disclosure_roundtrip_witness:
  "\<exists>c. disclosure_from_str c (disclosure_to_string (disclosure_new c ''s'' ''n'' JNull))
      = Ok (disclosure_new c ''s'' ''n'' JNull)"
proof -
  let ?v = "disclosure_array ''s'' ''n'' JNull"
  let ?c = "plain_codecs\<lparr>json_to_string := (\<lambda>_. ''x''), json_from_str := (\<lambda>_. Ok ?v),
      json_from_slice := (\<lambda>_. Ok ?v)\<rparr>"
  have "b64_law ?c" "json_text_law ?c ?v"
    by (simp_all add: b64_law_def plain_codecs_def json_text_law_def)
  from disclosure_roundtrip [OF this] show ?thesis by blast
qed

end
