(* ===== verification/Jws.thy ===== *)
theory Jws
  imports DidDoc
begin

text \<open>
  Verification of signatures by a key that the header carries, \<open>swiyu-core/src/jws.rs\<close>: the
  verifying keys of the two algorithms, their construction from a JSON Web Key, and the
  one-shot check. The main theorem says what an accepted signature means, and that no
  algorithm is ever applied to a key of the other one.
\<close>

datatype jws_error =
    JwsUnsupportedAlg string
  | JwsAlgKeyMismatch string string
  | JwsMalformedJwk string
  | JwsInvalidSignatureLength nat nat
  | JwsSignatureMismatch

definition show_jws_error :: "jws_error \<Rightarrow> string" where
  "show_jws_error er =
     (case er of
        JwsUnsupportedAlg alg \<Rightarrow>
           ''unsupported alg '' @ debug_str alg @ ''; expected '' @ debug_str ''EdDSA''
           @ '' or '' @ debug_str ''ES256''
      | JwsAlgKeyMismatch alg kalg \<Rightarrow>
           ''alg '' @ debug_str alg @ '' does not match the jwk type (jwk implies alg=''
           @ debug_str kalg @ '')''
      | JwsMalformedJwk m \<Rightarrow> ''malformed jwk: '' @ m
      | JwsInvalidSignatureLength expected actual \<Rightarrow>
           ''invalid signature length: expected '' @ show_nat expected @ '' bytes, got ''
           @ show_nat actual
      | JwsSignatureMismatch \<Rightarrow> ''signature did not verify'')"

datatype ('ed, 'ec) verifying_key = Ed25519 'ed | EcdsaP256 'ec

fun key_alg :: "('ed, 'ec) verifying_key \<Rightarrow> string" where
  "key_alg (Ed25519 _) = ''EdDSA''"
| "key_alg (EcdsaP256 _) = ''ES256''"

definition verify_signature ::
  "('ed, 'ec) verifiers \<Rightarrow> ('ed, 'ec) verifying_key \<Rightarrow> u8 list \<Rightarrow> u8 list \<Rightarrow> (unit, jws_error) result" where
  "verify_signature vs key msg sig =
     (if length sig \<noteq> 64 then Err (JwsInvalidSignatureLength 64 (length sig))
      else case key of
        Ed25519 pk \<Rightarrow> if ed_verify vs pk msg sig then Ok () else Err JwsSignatureMismatch
      | EcdsaP256 pk \<Rightarrow>
          if \<not> ec_sig_ok vs sig then Err JwsSignatureMismatch
          else if ec_verify vs pk msg sig then Ok () else Err JwsSignatureMismatch)"

definition unsupported_jwk :: "public_key_jwk \<Rightarrow> jws_error" where
  "unsupported_jwk k =
     JwsMalformedJwk (''unsupported jwk: kty='' @ jwk_kty k @ '', crv='' @ debug_opt_str (jwk_crv k))"

definition okp_verifying_key ::
  "codecs \<Rightarrow> ('ed, 'ec) verifiers \<Rightarrow> okp_key \<Rightarrow> (('ed, 'ec) verifying_key, jws_error) result" where
  "okp_verifying_key c vs k =
     and_then (map_err (\<lambda>e. JwsMalformedJwk (''`x` not base64url: '' @ e)) (b64_decode c (okp_x k)))
       (\<lambda>x.
         if length x \<noteq> 32
         then Err (JwsMalformedJwk (''`x` must decode to 32 bytes for Ed25519, got ''
                @ show_nat (length x)))
         else
           and_then (map_err (\<lambda>e. JwsMalformedJwk (''invalid Ed25519 public key: '' @ e))
                       (ed_from_bytes vs x)) (\<lambda>vk. Ok (Ed25519 vk)))"

fun verifying_key_from_jwk ::
  "codecs \<Rightarrow> ('ed, 'ec) verifiers \<Rightarrow> public_key_jwk \<Rightarrow> (('ed, 'ec) verifying_key, jws_error) result" where
  "verifying_key_from_jwk c vs (OKP k) =
     (if okp_crv k = ''Ed25519'' then okp_verifying_key c vs k else Err (unsupported_jwk (OKP k)))"
| "verifying_key_from_jwk c vs (EC k) =
     (if ec_crv k = ''P-256'' then
        and_then (map_err (\<lambda>e. JwsMalformedJwk (show_ec_key_error e)) (ec_verifying_key c vs k))
          (\<lambda>vk. Ok (EcdsaP256 vk))
      else Err (unsupported_jwk (EC k)))"
| "verifying_key_from_jwk c vs (RSA k) = Err (unsupported_jwk (RSA k))"

definition verify_with_embedded_jwk ::
  "codecs \<Rightarrow> ('ed, 'ec) verifiers \<Rightarrow> json \<Rightarrow> u8 list \<Rightarrow> u8 list \<Rightarrow> (unit, jws_error) result" where
  "verify_with_embedded_jwk c vs header msg sig =
     and_then (ok_or (Option.bind (json_get header ''alg'') as_str)
                 (JwsMalformedJwk ''header missing `alg`'')) (\<lambda>alg.
     if alg \<noteq> ''EdDSA'' \<and> alg \<noteq> ''ES256'' then Err (JwsUnsupportedAlg alg)
     else
       and_then (ok_or (json_get header ''jwk'') (JwsMalformedJwk ''header missing `jwk`'')) (\<lambda>jv.
       and_then (map_err (\<lambda>e. JwsMalformedJwk (show_diddoc_error e)) (jwk_from_json jv)) (\<lambda>jwk.
       and_then (verifying_key_from_jwk c vs jwk) (\<lambda>key.
       if alg \<noteq> key_alg key then Err (JwsAlgKeyMismatch alg (key_alg key))
       else verify_signature vs key msg sig))))"

section \<open>Properties\<close>

lemma verify_signature_ok:
  "verify_signature vs key msg sig = Ok () \<longleftrightarrow>
     length sig = 64 \<and>
     (case key of Ed25519 pk \<Rightarrow> ed_verify vs pk msg sig
      | EcdsaP256 pk \<Rightarrow> ec_sig_ok vs sig \<and> ec_verify vs pk msg sig)"
  by (cases key) (auto simp: verify_signature_def)

lemma verifying_key_ed:
  "verifying_key_from_jwk c vs jwk = Ok (Ed25519 vk) \<longleftrightarrow>
     (\<exists>k x. jwk = OKP k \<and> okp_crv k = ''Ed25519'' \<and> b64_decode c (okp_x k) = Ok x
        \<and> length x = 32 \<and> ed_from_bytes vs x = Ok vk)"
  by (cases jwk) (auto simp: okp_verifying_key_def ok_iff split: if_splits)

lemma verifying_key_ec:
  "verifying_key_from_jwk c vs jwk = Ok (EcdsaP256 vk) \<longleftrightarrow>
     (\<exists>k x y. jwk = EC k \<and> ec_crv k = ''P-256'' \<and> b64_decode c (ec_x k) = Ok x
        \<and> b64_decode c (ec_y k) = Ok y \<and> ec_from_sec1 vs ([0x04] @ x @ y) = Ok vk)"
  by (cases jwk) (auto simp: okp_verifying_key_def ec_verifying_key_def ok_iff split: if_splits)

lemma embedded_ok:
  "verify_with_embedded_jwk c vs header msg sig = Ok () \<longleftrightarrow>
     (\<exists>jv jwk key. json_get header ''alg'' = Some (JString (key_alg key))
        \<and> json_get header ''jwk'' = Some jv \<and> jwk_from_json jv = Ok jwk
        \<and> verifying_key_from_jwk c vs jwk = Ok key \<and> verify_signature vs key msg sig = Ok ())"
proof
  assume "verify_with_embedded_jwk c vs header msg sig = Ok ()"
  then show "\<exists>jv jwk key. json_get header ''alg'' = Some (JString (key_alg key))
        \<and> json_get header ''jwk'' = Some jv \<and> jwk_from_json jv = Ok jwk
        \<and> verifying_key_from_jwk c vs jwk = Ok key \<and> verify_signature vs key msg sig = Ok ()"
    by (auto simp: verify_with_embedded_jwk_def ok_iff bind_eq_Some_conv split: if_splits)
next
  assume "\<exists>jv jwk key. json_get header ''alg'' = Some (JString (key_alg key))
        \<and> json_get header ''jwk'' = Some jv \<and> jwk_from_json jv = Ok jwk
        \<and> verifying_key_from_jwk c vs jwk = Ok key \<and> verify_signature vs key msg sig = Ok ()"
  then obtain jv jwk key where
    "json_get header ''alg'' = Some (JString (key_alg key))" "json_get header ''jwk'' = Some jv"
    "jwk_from_json jv = Ok jwk" "verifying_key_from_jwk c vs jwk = Ok key"
    "verify_signature vs key msg sig = Ok ()" by blast
  then show "verify_with_embedded_jwk c vs header msg sig = Ok ()"
    by (cases key) (simp_all add: verify_with_embedded_jwk_def)
qed

text \<open>C36: the algorithm always belongs to the key. A signature is accepted exactly if it has 64
  bytes and either the header says \<open>EdDSA\<close>, its key is an \<open>OKP\<close> key on \<open>Ed25519\<close> whose 32
  bytes parse, and Ed25519 accepts the signature, or the header says \<open>ES256\<close>, its key is an
  \<open>EC\<close> key on \<open>P-256\<close> whose uncompressed point parses, and ECDSA accepts it. No other
  algorithm name, curve or key type ever verifies, and no signature is checked with an
  algorithm other than the one its key is for.\<close>

theorem embedded_jwk_iff:
  "verify_with_embedded_jwk c vs header msg sig = Ok () \<longleftrightarrow>
     length sig = 64 \<and>
     ((\<exists>jv k x vk. json_get header ''alg'' = Some (JString ''EdDSA'')
         \<and> json_get header ''jwk'' = Some jv \<and> jwk_from_json jv = Ok (OKP k)
         \<and> okp_crv k = ''Ed25519'' \<and> b64_decode c (okp_x k) = Ok x \<and> length x = 32
         \<and> ed_from_bytes vs x = Ok vk \<and> ed_verify vs vk msg sig)
    \<or> (\<exists>jv k x y vk. json_get header ''alg'' = Some (JString ''ES256'')
         \<and> json_get header ''jwk'' = Some jv \<and> jwk_from_json jv = Ok (EC k)
         \<and> ec_crv k = ''P-256'' \<and> b64_decode c (ec_x k) = Ok x \<and> b64_decode c (ec_y k) = Ok y
         \<and> ec_from_sec1 vs ([0x04] @ x @ y) = Ok vk \<and> ec_sig_ok vs sig \<and> ec_verify vs vk msg sig))"
  (is "?l \<longleftrightarrow> ?r")
proof
  assume ?l
  then obtain jv jwk key where k: "json_get header ''alg'' = Some (JString (key_alg key))"
      "json_get header ''jwk'' = Some jv" "jwk_from_json jv = Ok jwk"
      "verifying_key_from_jwk c vs jwk = Ok key" "verify_signature vs key msg sig = Ok ()"
    unfolding embedded_ok by blast
  show ?r
  proof (cases key)
    case (Ed25519 vk)
    with k show ?thesis unfolding verify_signature_ok Ed25519 verifying_key_ed by auto
  next
    case (EcdsaP256 vk)
    with k show ?thesis unfolding verify_signature_ok EcdsaP256 verifying_key_ec by auto
  qed
next
  assume ?r
  then consider
    (ed) jv k vk where "length sig = 64" "json_get header ''alg'' = Some (JString ''EdDSA'')"
      "json_get header ''jwk'' = Some jv" "jwk_from_json jv = Ok (OKP k)"
      "verifying_key_from_jwk c vs (OKP k) = Ok (Ed25519 vk)" "ed_verify vs vk msg sig"
  | (ec) jv k vk where "length sig = 64" "json_get header ''alg'' = Some (JString ''ES256'')"
      "json_get header ''jwk'' = Some jv" "jwk_from_json jv = Ok (EC k)"
      "verifying_key_from_jwk c vs (EC k) = Ok (EcdsaP256 vk)" "ec_sig_ok vs sig"
      "ec_verify vs vk msg sig"
    unfolding verifying_key_ed verifying_key_ec by blast
  then show ?l
  proof cases
    case ed
    then have "verify_signature vs (Ed25519 vk) msg sig = Ok ()" by (simp add: verify_signature_ok)
    with ed show ?thesis unfolding embedded_ok by (metis key_alg.simps(1))
  next
    case ec
    then have "verify_signature vs (EcdsaP256 vk) msg sig = Ok ()" by (simp add: verify_signature_ok)
    with ec show ?thesis unfolding embedded_ok by (metis key_alg.simps(2))
  qed
qed

end
