(* ===== verification/TrustStatement.thy ===== *)
theory TrustStatement
  imports StatusList SdJwt
begin

text \<open>
  Trust statements, \<open>swiyu-core/src/truststatement/mod.rs\<close>: the decoder of an SD-JWT VC text
  into its claims and the parts needed to check its signature, with the disclosures filtered
  by the digests the payload commits to.
\<close>

datatype trust_statement_error =
    TSJwtShape nat
  | TSBase64 string string
  | TSJson string string
  | TSDisclosureNotArray
  | TSMissingHeaderField string
  | TSMissingPayloadField string
  | TSStatusListPointer status_list_error

definition show_trust_statement_error :: "trust_statement_error \<Rightarrow> string" where
  "show_trust_statement_error er =
     (case er of
        TSJwtShape got \<Rightarrow> ''expected 3 dot-separated parts, got '' @ show_nat got
      | TSBase64 seg reason \<Rightarrow> seg @ '' not base64url: '' @ reason
      | TSJson seg reason \<Rightarrow> seg @ '' not JSON: '' @ reason
      | TSDisclosureNotArray \<Rightarrow> ''disclosure is not a JSON array''
      | TSMissingHeaderField name \<Rightarrow> ''missing '' @ quoted name @ '' in header''
      | TSMissingPayloadField name \<Rightarrow> ''missing or non-numeric '' @ quoted name
      | TSStatusListPointer e \<Rightarrow> show_status_list_error e)"

record trust_statement =
  ts_vct :: string
  ts_iss :: string
  ts_iat :: u64
  ts_nbf :: "u64 option"
  ts_exp :: "u64 option"
  ts_entity_name :: "(string, string) fmap"
  ts_is_state_actor :: "bool option"
  ts_status :: "status_list_pointer option"
  ts_kid :: string
  ts_alg :: string
  ts_signing_input :: string
  ts_signature :: "u8 list"

section \<open>Disclosures\<close>

text \<open>The entries of an object whose values are strings.\<close>

definition string_entries :: "json_map \<Rightarrow> (string, string) fmap" where
  "string_entries m =
     fmmap (\<lambda>v. case as_str v of Some s \<Rightarrow> s | None \<Rightarrow> [])
       (fmfilter (\<lambda>k. Option.bind (fmlookup m k) as_str \<noteq> None) m)"

text \<open>What one authorised disclosure adds to the two claims.\<close>

definition apply_claim ::
  "disclosure \<Rightarrow> (string, string) fmap \<times> bool option \<Rightarrow> (string, string) fmap \<times> bool option" where
  "apply_claim d acc =
     (let (names, actor) = acc
      in if dc_name d = ''entityName'' then
           (case as_object (dc_value d) of
              Some m \<Rightarrow> (names ++\<^sub>f string_entries m, actor)
            | None \<Rightarrow> acc)
         else if dc_name d = ''isStateActor'' then
           (case as_bool (dc_value d) of Some b \<Rightarrow> (names, Some b) | None \<Rightarrow> acc)
         else acc)"

fun read_disclosures ::
  "codecs \<Rightarrow> string set \<Rightarrow> string list \<Rightarrow> (string, string) fmap \<times> bool option \<Rightarrow>
   ((string, string) fmap \<times> bool option, trust_statement_error) result" where
  "read_disclosures c sd [] acc = Ok acc"
| "read_disclosures c sd (t # ts) acc =
     (case disclosure_from_str c t of
        Inr d \<Rightarrow>
          if disclosure_digest c d \<notin> sd then read_disclosures c sd ts acc
          else read_disclosures c sd ts (apply_claim d acc)
      | Inl (DCBase64 reason) \<Rightarrow> Err (TSBase64 ''disclosure'' reason)
      | Inl (DCJson reason) \<Rightarrow> Err (TSJson ''disclosure'' reason)
      | Inl DCNotArray \<Rightarrow> Err TSDisclosureNotArray
      | Inl _ \<Rightarrow> read_disclosures c sd ts acc)"

section \<open>The decoder\<close>

text \<open>One segment of the JWT as bytes, and as JSON.\<close>

definition jwt_segment :: "codecs \<Rightarrow> string \<Rightarrow> string \<Rightarrow> (u8 list, trust_statement_error) result" where
  "jwt_segment c name s = map_err (TSBase64 name) (b64_decode c s)"

definition jwt_json :: "codecs \<Rightarrow> string \<Rightarrow> string \<Rightarrow> (json, trust_statement_error) result" where
  "jwt_json c name s =
     and_then (jwt_segment c name s) (\<lambda>bs. map_err (TSJson name) (json_from_slice c bs))"

definition header_string :: "json \<Rightarrow> string \<Rightarrow> (string, trust_statement_error) result" where
  "header_string h name = ok_or (Option.bind (json_get h name) as_str) (TSMissingHeaderField name)"

text \<open>The digests of \<open>_sd\<close>: the strings of the array, none if there is no array.\<close>

definition sd_digests :: "json \<Rightarrow> string set" where
  "sd_digests payload =
     (case Option.bind (json_get payload ''_sd'') as_array of
        Some arr \<Rightarrow> set (List.map_filter as_str arr)
      | None \<Rightarrow> {})"

definition string_or_unknown :: "json \<Rightarrow> string \<Rightarrow> string" where
  "string_or_unknown payload name =
     (case Option.bind (json_get payload name) as_str of Some s \<Rightarrow> s | None \<Rightarrow> ''(unknown)'')"

definition status_pointer ::
  "json \<Rightarrow> (status_list_pointer option, trust_statement_error) result" where
  "status_pointer payload =
     (case Option.bind (json_get payload ''status'') (\<lambda>s. json_get s ''status_list'') of
        None \<Rightarrow> Ok None
      | Some v \<Rightarrow> and_then (map_err TSStatusListPointer (pointer_from_json v)) (\<lambda>p. Ok (Some p)))"

definition try_from_jwt :: "codecs \<Rightarrow> string \<Rightarrow> (trust_statement, trust_statement_error) result" where
  "try_from_jwt c jwt_text =
     (let parts = split_on (CHR ''~'') (trim_end_matches (CHR ''~'') jwt_text);
          segs = split_on (CHR ''.'') (hd parts)
      in if length segs \<noteq> 3 then Err (TSJwtShape (length segs))
         else
           and_then (jwt_json c ''header'' (segs ! 0)) (\<lambda>header.
           and_then (jwt_json c ''payload'' (segs ! 1)) (\<lambda>payload.
           and_then (jwt_segment c ''signature'' (segs ! 2)) (\<lambda>sig.
           and_then (header_string header ''kid'') (\<lambda>kid.
           and_then (header_string header ''alg'') (\<lambda>alg.
           and_then (read_disclosures c (sd_digests payload) (tl parts) (fmempty, None))
             (\<lambda>(names, actor).
           and_then (ok_or (Option.bind (json_get payload ''iat'') as_u64)
                       (TSMissingPayloadField ''iat'')) (\<lambda>iat.
           and_then (status_pointer payload) (\<lambda>st.
             Ok \<lparr>ts_vct = string_or_unknown payload ''vct'',
                 ts_iss = string_or_unknown payload ''iss'', ts_iat = iat,
                 ts_nbf = Option.bind (json_get payload ''nbf'') as_u64,
                 ts_exp = Option.bind (json_get payload ''exp'') as_u64,
                 ts_entity_name = names, ts_is_state_actor = actor, ts_status = st,
                 ts_kid = kid, ts_alg = alg,
                 ts_signing_input = segs ! 0 @ ''.'' @ segs ! 1, ts_signature = sig\<rparr>)))))))))"

section \<open>Only committed claims\<close>

text \<open>A disclosure among the given texts that the digests commit to.\<close>

definition committed :: "codecs \<Rightarrow> string set \<Rightarrow> string list \<Rightarrow> disclosure \<Rightarrow> bool" where
  "committed c sd ts d \<longleftrightarrow>
     (\<exists>t \<in> set ts. disclosure_from_str c t = Ok d \<and> disclosure_digest c d \<in> sd)"

definition claims_committed ::
  "codecs \<Rightarrow> string set \<Rightarrow> string list \<Rightarrow> (string, string) fmap \<times> bool option \<Rightarrow> bool" where
  "claims_committed c sd ts acc \<longleftrightarrow>
     (\<forall>lang s. fmlookup (fst acc) lang = Some s \<longrightarrow>
        (\<exists>d. committed c sd ts d \<and> dc_name d = ''entityName''
           \<and> json_get (dc_value d) lang = Some (JString s)))
   \<and> (\<forall>b. snd acc = Some b \<longrightarrow>
        (\<exists>d. committed c sd ts d \<and> dc_name d = ''isStateActor'' \<and> dc_value d = JBool b))"

lemma string_entries_lookup:
  "fmlookup (string_entries m) k = Some s \<longleftrightarrow> fmlookup m k = Some (JString s)"
  by (auto simp: string_entries_def bind_eq_Some_conv split: option.splits)

lemma committed_mono: "committed c sd ts d \<Longrightarrow> set ts \<subseteq> set ts' \<Longrightarrow> committed c sd ts' d"
  by (auto simp: committed_def)

lemma apply_claim_committed:
  assumes "claims_committed c sd ts acc" "committed c sd ts d"
  shows "claims_committed c sd ts (apply_claim d acc)"
proof -
  obtain names actor where acc: "acc = (names, actor)" by (cases acc)
  show ?thesis
    using assms
    by (auto simp: acc apply_claim_def claims_committed_def string_entries_lookup Let_def
        split: option.splits)
qed

lemma read_disclosures_committed:
  "read_disclosures c sd ts acc = Ok acc' \<Longrightarrow> set ts \<subseteq> set all \<Longrightarrow>
   claims_committed c sd all acc \<Longrightarrow> claims_committed c sd all acc'"
proof (induction c sd ts acc rule: read_disclosures.induct)
  case (2 c sd t ts acc)
  show ?case
  proof (cases "disclosure_from_str c t")
    case (Inl e)
    with 2 show ?thesis by (cases e) auto
  next
    case (Inr d)
    show ?thesis
    proof (cases "disclosure_digest c d \<in> sd")
      case True
      have "committed c sd all d"
        using True Inr "2.prems"(2) by (auto simp: committed_def)
      with 2 Inr True show ?thesis by (auto intro: apply_claim_committed)
    qed (use 2 Inr in auto)
  qed
qed simp

text \<open>C35: a trust statement shows only what was signed for. In every decoded statement, each
  legal name and the state-actor flag come from a disclosure in the text whose digest is
  listed in the payload's \<open>_sd\<close>; and the bytes kept for the signature check are the header
  and payload segments of the text exactly as received, with the payload they encode.\<close>

theorem statement_claims_committed:
  assumes "try_from_jwt c txt = Ok st"
  shows "\<exists>h p s payload.
      hd (split_on (CHR ''~'') (trim_end_matches (CHR ''~'') txt)) = h @ ''.'' @ p @ ''.'' @ s
    \<and> ts_signing_input st = h @ ''.'' @ p \<and> b64_decode c s = Ok (ts_signature st)
    \<and> jwt_json c ''payload'' p = Ok payload
    \<and> claims_committed c (sd_digests payload)
        (tl (split_on (CHR ''~'') (trim_end_matches (CHR ''~'') txt)))
        (ts_entity_name st, ts_is_state_actor st)"
proof -
  let ?parts = "split_on (CHR ''~'') (trim_end_matches (CHR ''~'') txt)"
  let ?segs = "split_on (CHR ''.'') (hd ?parts)"
  have "length ?segs = 3" using assms by (auto simp: try_from_jwt_def Let_def split: if_splits)
  then obtain h p s where segs: "?segs = [h, p, s]"
    by (auto simp: numeral_3_eq_3 length_Suc_conv)
  have first: "hd ?parts = h @ ''.'' @ p @ ''.'' @ s"
    using join_split [of "CHR ''.''" "hd ?parts"] segs by simp
  obtain payload acc where d: "jwt_json c ''payload'' p = Ok payload"
      "jwt_segment c ''signature'' s = Ok (ts_signature st)" "ts_signing_input st = h @ ''.'' @ p"
      "read_disclosures c (sd_digests payload) (tl ?parts) (fmempty, None) = Ok acc"
      "acc = (ts_entity_name st, ts_is_state_actor st)"
    using assms by (auto simp: try_from_jwt_def Let_def segs ok_iff)
  have "claims_committed c (sd_digests payload) (tl ?parts) (fmempty, None)"
    by (simp add: claims_committed_def)
  from read_disclosures_committed [OF d(4) _ this] d(5)
  have "claims_committed c (sd_digests payload) (tl ?parts) (ts_entity_name st, ts_is_state_actor st)"
    by simp
  moreover have "b64_decode c s = Ok (ts_signature st)"
    using d(2) by (simp add: jwt_segment_def ok_iff)
  ultimately show ?thesis using first d by blast
qed

theorem statement_claims_committed_witness:
  "\<exists>c st payload. try_from_jwt c ''h.p.s~d~'' = Ok st \<and> ts_is_state_actor st = Some True
     \<and> claims_committed c (sd_digests payload) [''d''] (ts_entity_name st, ts_is_state_actor st)"
proof -
  let ?digest = "b64_encode plain_codecs (sha256 plain_codecs (as_bytes ''d''))"
  let ?header = "json_obj [(''kid'', JString ''k''), (''alg'', JString ''ES256'')]"
  let ?payload = "json_obj [(''_sd'', JArray [JString ?digest]), (''iat'', json_u64 7)]"
  let ?claim = "JArray [JString ''salt'', JString ''isStateActor'', JBool True]"
  let ?c = "plain_codecs\<lparr>json_from_slice := (\<lambda>bs.
      if bs = as_bytes ''h'' then Ok ?header else if bs = as_bytes ''p'' then Ok ?payload
      else Ok ?claim)\<rparr>"
  let ?st = "\<lparr>ts_vct = ''(unknown)'', ts_iss = ''(unknown)'', ts_iat = 7, ts_nbf = None, ts_exp = None,
      ts_entity_name = fmempty, ts_is_state_actor = Some True, ts_status = None, ts_kid = ''k'',
      ts_alg = ''ES256'', ts_signing_input = ''h.p'', ts_signature = as_bytes ''s''\<rparr>"
  have decode: "b64_decode plain_codecs t = Ok (as_bytes t)" for t
    by (simp_all add: plain_codecs_def)
  have trimmed: "trim_end_matches (CHR ''~'') ''h.p.s~d~'' = ''h.p.s~d''"
    by (simp add: trim_end_matches_def)
  have claim: "disclosure_from_str ?c ''d'' = Ok \<lparr>dc_salt = ''salt'', dc_name = ''isStateActor'',
      dc_value = JBool True, dc_encoded = ''d''\<rparr>"
    by (simp add: disclosure_from_str_def decode)
  have digest: "disclosure_digest ?c \<lparr>dc_salt = ''salt'', dc_name = ''isStateActor'',
      dc_value = JBool True, dc_encoded = ''d''\<rparr> = ?digest"
    by (simp add: disclosure_digest_def decode)
  have run: "try_from_jwt ?c ''h.p.s~d~'' = Ok ?st"
    by (simp add: try_from_jwt_def trimmed jwt_json_def jwt_segment_def decode json_obj_def
        header_string_def sd_digests_def claim digest apply_claim_def status_pointer_def
        string_or_unknown_def map_filter_simps)
  from statement_claims_committed [OF run] obtain payload where
    "claims_committed ?c (sd_digests payload) [''d''] (ts_entity_name ?st, ts_is_state_actor ?st)"
    by (auto simp: trimmed)
  with run show ?thesis by fastforce
qed

end
