(* ===== verification/TrustVerify.thy ===== *)
theory TrustVerify
  imports Did Jws DidLog TrustStatement
begin

text \<open>
  The trust check of the command line tool, \<open>swiyu-didtool/src/cmd/trust/verify.rs\<close>: issuer
  documents and status lists are fetched once per run and cached, each statement gets four
  checks, and one statement that passes all of them makes the entity trusted. Fetching a URL
  is a parameter (\<open>Some\<close> text, \<open>None\<close> for a 404, or the text of an error), as are the clock
  and the rendering of a time.
\<close>

section \<open>Data\<close>

datatype trust_error =
    TRegistryUrlMissing
  | TIssuerMissing
  | TStatement nat trust_statement_error
  | TIssuerResolution string string
  | TStatusListMalformed string string
  | TStatusListSignatureInvalid
  | TStatusList status_list_error
  | TFetch string
  | TDidDoc diddoc_error

datatype verify_outcome = Trusted | Untrusted

type_synonym fetcher = "string \<Rightarrow> (string option, string) result"

record verify_context =
  vc_expected_issuer :: string
  vc_issuer_docs :: "(string, diddoc) fmap"
  vc_status_lists :: "(string, status_list) fmap"

definition context_new :: "string \<Rightarrow> verify_context" where
  "context_new issuer =
     \<lparr>vc_expected_issuer = issuer, vc_issuer_docs = fmempty, vc_status_lists = fmempty\<rparr>"

datatype check = CheckOk string | CheckFail string | CheckSkip string

fun check_passed :: "check \<Rightarrow> bool" where
  "check_passed (CheckOk _) = True"
| "check_passed _ = False"

fun check_marker :: "check \<Rightarrow> string" where
  "check_marker (CheckOk _) = ''[ok]  ''"
| "check_marker (CheckFail _) = ''[fail]''"
| "check_marker (CheckSkip _) = ''[skip]''"

fun check_message :: "check \<Rightarrow> string" where
  "check_message (CheckOk s) = s"
| "check_message (CheckFail s) = s"
| "check_message (CheckSkip s) = s"

record report =
  rp_statement :: trust_statement
  rp_iss :: check
  rp_signature :: check
  rp_freshness :: check
  rp_status :: check
  rp_verdict :: bool

section \<open>Issuer documents\<close>

text \<open>What a fetch and parse of an issuer's log gives, without the cache.\<close>

definition fetch_issuer_doc :: "codecs \<Rightarrow> fetcher \<Rightarrow> string \<Rightarrow> (diddoc, trust_error) result" where
  "fetch_issuer_doc c fetch iss =
     and_then (map_err (\<lambda>e. TIssuerResolution iss (show_did_error e)) (did_from_str iss)) (\<lambda>d.
     and_then (map_err TFetch (fetch (did_log_url d))) (\<lambda>outcome.
     case outcome of
       None \<Rightarrow> Err (TIssuerResolution iss (quoted (did_log_url d) @ '' returned 404''))
     | Some txt \<Rightarrow>
         and_then (map_err (\<lambda>e. TIssuerResolution iss (''log parse: '' @ show_did_log_error e))
                     (log_from_jsonl c txt)) (\<lambda>entries.
         if entries = [] then Err (TIssuerResolution iss ''log is empty'')
         else case le_state (last entries) of
           StatePatch _ \<Rightarrow> Err (TIssuerResolution iss
             (''latest entry'' @ [CHR 0x27] @ ''s state is a JSON Patch''))
         | StateValue v \<Rightarrow> map_err TDidDoc (diddoc_from_json c v))))"

definition load_issuer_doc ::
  "codecs \<Rightarrow> fetcher \<Rightarrow> string \<Rightarrow> (string, diddoc) fmap \<Rightarrow>
   (diddoc \<times> (string, diddoc) fmap, trust_error) result" where
  "load_issuer_doc c fetch iss cache =
     (case fmlookup cache iss of
        Some d \<Rightarrow> Ok (d, cache)
      | None \<Rightarrow> and_then (fetch_issuer_doc c fetch iss) (\<lambda>d. Ok (d, fmupd iss d cache)))"

definition find_verifying_key ::
  "codecs \<Rightarrow> ('ed, 'ec) verifiers \<Rightarrow> diddoc \<Rightarrow> string \<Rightarrow> (('ed, 'ec) verifying_key, string) result" where
  "find_verifying_key c vs d kid =
     and_then (ok_or (List.find (\<lambda>vm. vm_id vm = kid) (dd_verification_method d))
                 (''no verification method with id '' @ quoted kid)) (\<lambda>vm.
     case vm_public_key vm of
       Multibase _ \<Rightarrow> Err ''verification method publicKey is not a JWK''
     | Jwk k \<Rightarrow>
         and_then (map_err show_jws_error (verifying_key_from_jwk c vs k)) (\<lambda>key.
           if key_alg key \<noteq> ''ES256'' then Err (''expected ES256 key, got '' @ key_alg key)
           else Ok key))"

section \<open>Status lists\<close>

definition sl_malformed :: "string \<Rightarrow> string \<Rightarrow> trust_error" where
  "sl_malformed url reason = TStatusListMalformed url reason"

definition sl_json_part :: "codecs \<Rightarrow> string \<Rightarrow> string \<Rightarrow> string \<Rightarrow> (json, trust_error) result" where
  "sl_json_part c url label s =
     and_then (map_err (\<lambda>e. sl_malformed url (label @ '' not base64url: '' @ e)) (b64_decode c s)) (\<lambda>bs.
       map_err (\<lambda>e. sl_malformed url (label @ '' not JSON: '' @ e)) (json_from_slice c bs))"

definition parse_and_verify_status_list ::
  "codecs \<Rightarrow> ('ed, 'ec) verifiers \<Rightarrow> fetcher \<Rightarrow> string \<Rightarrow> string \<Rightarrow> verify_context \<Rightarrow>
   (status_list \<times> verify_context, trust_error) result" where
  "parse_and_verify_status_list c vs fetch url jwt ctx =
     (let segs = split_on (CHR ''.'') jwt
      in if length segs \<noteq> 3
         then Err (sl_malformed url (''expected 3 dot-separated parts, got '' @ show_nat (length segs)))
         else
           and_then (sl_json_part c url ''header'' (segs ! 0)) (\<lambda>header.
           and_then (sl_json_part c url ''payload'' (segs ! 1)) (\<lambda>payload.
           and_then (map_err (\<lambda>e. sl_malformed url (''signature not base64url: '' @ e))
                       (b64_decode c (segs ! 2))) (\<lambda>sig.
           let alg = (case Option.bind (json_get header ''alg'') as_str of
                        Some a \<Rightarrow> a | None \<Rightarrow> ''(missing)'')
           in if alg \<noteq> ''ES256''
              then Err (sl_malformed url (''unsupported alg '' @ quoted alg @ '' (expected ES256)''))
              else
                and_then (ok_or (Option.bind (json_get header ''kid'') as_str)
                            (sl_malformed url (''missing '' @ quoted ''kid'' @ '' in header''))) (\<lambda>kid.
                and_then (ok_or (map_option fst (split_once (CHR ''#'') kid))
                            (sl_malformed url (''kid '' @ quoted kid @ '' has no fragment''))) (\<lambda>kid_did.
                if kid_did \<noteq> vc_expected_issuer ctx
                then Err (sl_malformed url (''kid'' @ [CHR 0x27] @ ''s DID '' @ quoted kid_did
                       @ '' does not match expected issuer '' @ quoted (vc_expected_issuer ctx)))
                else
                  and_then (load_issuer_doc c fetch kid_did (vc_issuer_docs ctx)) (\<lambda>(d, cache).
                  and_then (map_err (\<lambda>e. sl_malformed url (''issuer key resolution: '' @ e))
                              (find_verifying_key c vs d kid)) (\<lambda>vk.
                  and_then (map_err (\<lambda>_. TStatusListSignatureInvalid)
                              (verify_signature vs vk (as_bytes (segs ! 0 @ ''.'' @ segs ! 1)) sig)) (\<lambda>_.
                  and_then (ok_or (json_get payload ''status_list'')
                              (sl_malformed url ''payload is missing the `status_list` member'')) (\<lambda>inner.
                  and_then (map_err TStatusList (status_list_from_json c inner)) (\<lambda>l.
                    Ok (l, ctx\<lparr>vc_issuer_docs := cache\<rparr>))))))))))))"

definition load_status_list ::
  "codecs \<Rightarrow> ('ed, 'ec) verifiers \<Rightarrow> fetcher \<Rightarrow> string \<Rightarrow> verify_context \<Rightarrow>
   (status_list \<times> verify_context, trust_error) result" where
  "load_status_list c vs fetch url ctx =
     (case fmlookup (vc_status_lists ctx) url of
        Some l \<Rightarrow> Ok (l, ctx)
      | None \<Rightarrow>
          and_then (map_err TFetch (fetch url)) (\<lambda>outcome.
          case outcome of
            None \<Rightarrow> Err (sl_malformed url ''registry returned 404'')
          | Some txt \<Rightarrow>
              and_then (parse_and_verify_status_list c vs fetch url (trim txt) ctx) (\<lambda>(l, ctx').
                Ok (l, ctx'\<lparr>vc_status_lists := fmupd url l (vc_status_lists ctx')\<rparr>))))"

section \<open>The checks of one statement\<close>

definition verify_stmt_signature ::
  "codecs \<Rightarrow> ('ed, 'ec) verifiers \<Rightarrow> fetcher \<Rightarrow> trust_statement \<Rightarrow> verify_context \<Rightarrow>
   (check \<times> verify_context, trust_error) result" where
  "verify_stmt_signature c vs fetch st ctx =
     (if ts_alg st \<noteq> ''ES256''
      then Ok (CheckFail (''unsupported alg '' @ quoted (ts_alg st) @ '' (expected ES256)''), ctx)
      else case split_once (CHR ''#'') (ts_kid st) of
        None \<Rightarrow> Ok (CheckFail (''kid '' @ quoted (ts_kid st) @ '' has no fragment''), ctx)
      | Some (kid_did, _) \<Rightarrow>
          and_then (load_issuer_doc c fetch kid_did (vc_issuer_docs ctx)) (\<lambda>(d, cache).
          let ctx' = ctx\<lparr>vc_issuer_docs := cache\<rparr>
          in case find_verifying_key c vs d (ts_kid st) of
               Inl reason \<Rightarrow> Ok (CheckFail reason, ctx')
             | Inr vk \<Rightarrow>
                 (case verify_signature vs vk (as_bytes (ts_signing_input st)) (ts_signature st) of
                    Inr _ \<Rightarrow> Ok (CheckOk (''valid (kid: '' @ ts_kid st @ '')''), ctx')
                  | Inl (JwsInvalidSignatureLength _ _) \<Rightarrow>
                      Ok (CheckFail ''signature bytes are not a valid ES256 signature'', ctx')
                  | Inl _ \<Rightarrow> Ok (CheckFail ''signature does not verify'', ctx'))))"

definition dash :: string where
  "dash = [CHR 0xE2, CHR 0x80, CHR 0x94]"

definition opt_time :: "(u64 \<Rightarrow> string) \<Rightarrow> u64 option \<Rightarrow> string" where
  "opt_time isot t = (case t of Some n \<Rightarrow> isot n | None \<Rightarrow> dash)"

definition check_freshness :: "(u64 \<Rightarrow> string) \<Rightarrow> trust_statement \<Rightarrow> u64 \<Rightarrow> check" where
  "check_freshness isot st now =
     (let too_early = (case ts_nbf st of
             Some nbf \<Rightarrow>
               if now < nbf then Some (''now < nbf ('' @ isot now @ '' < '' @ isot nbf @ '')'') else None
           | None \<Rightarrow> None);
          expired = (case ts_exp st of
             Some ex \<Rightarrow> if ex \<le> now then Some (''expired at '' @ isot ex) else None
           | None \<Rightarrow> None)
      in case too_early of
           Some m \<Rightarrow> CheckFail m
         | None \<Rightarrow>
             (case expired of
                Some m \<Rightarrow> CheckFail m
              | None \<Rightarrow> CheckOk (''now within nbf..exp ('' @ opt_time isot (ts_nbf st) @ ''..''
                  @ opt_time isot (ts_exp st) @ '')'')))"

definition slot_text :: "u64 \<Rightarrow> u8 \<Rightarrow> string" where
  "slot_text idx b = '' (idx='' @ show_nat (unat idx) @ '', bits='' @ show_nat (unat b) @ '')''"

definition check_status ::
  "codecs \<Rightarrow> ('ed, 'ec) verifiers \<Rightarrow> fetcher \<Rightarrow> trust_statement \<Rightarrow> verify_context \<Rightarrow>
   (check \<times> verify_context, trust_error) result" where
  "check_status c vs fetch st ctx =
     (case ts_status st of
        None \<Rightarrow> Ok (CheckFail ''no status_list claim in payload'', ctx)
      | Some info \<Rightarrow>
          and_then (load_status_list c vs fetch (slp_uri info) ctx) (\<lambda>(l, ctx').
          and_then (map_err TStatusList (value_at l (slp_idx info))) (\<lambda>v.
          let t = slot_text (slp_idx info) (sl_bits l)
          in Ok (case v of
                   Valid \<Rightarrow> CheckOk (''valid'' @ t)
                 | Revoked \<Rightarrow> CheckFail (''revoked'' @ t)
                 | Suspended \<Rightarrow> CheckFail (''suspended'' @ t)
                 | Reserved n \<Rightarrow> CheckFail (''reserved='' @ show_nat (unat n) @ t), ctx'))))"

definition verify_one ::
  "codecs \<Rightarrow> ('ed, 'ec) verifiers \<Rightarrow> fetcher \<Rightarrow> (u64 \<Rightarrow> string) \<Rightarrow> trust_statement \<Rightarrow> u64 \<Rightarrow>
   verify_context \<Rightarrow> (report \<times> verify_context, trust_error) result" where
  "verify_one c vs fetch isot st now ctx =
     (let iss = (if ts_iss st = vc_expected_issuer ctx then CheckOk ''matches expected issuer''
                 else CheckFail (ts_iss st @ '' (does not match expected issuer)''))
      in and_then
           (if \<not> check_passed iss then Ok (CheckSkip ''(issuer mismatch)'', ctx)
            else verify_stmt_signature c vs fetch st ctx) (\<lambda>(sig, ctx1).
         let fresh = check_freshness isot st now
         in and_then
              (if \<not> check_passed sig
               then Ok (CheckSkip ''(would only matter if signature were trusted)'', ctx1)
               else check_status c vs fetch st ctx1) (\<lambda>(status, ctx2).
            Ok (\<lparr>rp_statement = st, rp_iss = iss, rp_signature = sig, rp_freshness = fresh,
                 rp_status = status,
                 rp_verdict = check_passed iss \<and> check_passed sig \<and> check_passed fresh
                   \<and> check_passed status\<rparr>, ctx2))))"

section \<open>The command\<close>

fun decode_statements :: "codecs \<Rightarrow> nat \<Rightarrow> string list \<Rightarrow> (trust_statement list, trust_error) result" where
  "decode_statements c i [] = Ok []"
| "decode_statements c i (j # js) =
     and_then (map_err (TStatement (i + 1)) (try_from_jwt c j)) (\<lambda>st.
     and_then (decode_statements c (i + 1) js) (\<lambda>sts. Ok (st # sts)))"

fun verify_all ::
  "codecs \<Rightarrow> ('ed, 'ec) verifiers \<Rightarrow> fetcher \<Rightarrow> (u64 \<Rightarrow> string) \<Rightarrow> u64 \<Rightarrow> trust_statement list \<Rightarrow>
   verify_context \<Rightarrow> (report list, trust_error) result" where
  "verify_all c vs fetch isot now [] ctx = Ok []"
| "verify_all c vs fetch isot now (st # sts) ctx =
     and_then (verify_one c vs fetch isot st now ctx) (\<lambda>(r, ctx').
     and_then (verify_all c vs fetch isot now sts ctx') (\<lambda>rs. Ok (r # rs)))"

text \<open>Newest first, in a stable order.\<close>

definition newest_first :: "trust_statement list \<Rightarrow> trust_statement list" where
  "newest_first sts = sort_key (\<lambda>st. - int (unat (ts_iat st))) sts"

definition trust_verify ::
  "codecs \<Rightarrow> ('ed, 'ec) verifiers \<Rightarrow> fetcher \<Rightarrow> (u64 \<Rightarrow> string) \<Rightarrow> string \<Rightarrow> u64 \<Rightarrow> string list \<Rightarrow>
   (verify_outcome \<times> report list, trust_error) result" where
  "trust_verify c vs fetch isot issuer now jwts =
     (if jwts = [] then Ok (Untrusted, [])
      else
        and_then (decode_statements c 0 jwts) (\<lambda>decoded.
        and_then (verify_all c vs fetch isot now (newest_first decoded) (context_new issuer)) (\<lambda>reports.
          Ok (if length (filter rp_verdict reports) > 0 then Trusted else Untrusted, reports))))"

section \<open>What a trusted verdict means\<close>

lemma find_verifying_key_ok:
  assumes "find_verifying_key c vs d kid = Ok key"
  obtains vm k vk where "vm \<in> set (dd_verification_method d)" "vm_id vm = kid"
    "vm_public_key vm = Jwk (EC k)" "ec_crv k = ''P-256''" "key = EcdsaP256 vk"
    "verifying_key_from_jwk c vs (EC k) = Ok (EcdsaP256 vk)"
proof -
  obtain vm where f: "List.find (\<lambda>vm. vm_id vm = kid) (dd_verification_method d) = Some vm"
    using assms
    by (cases "List.find (\<lambda>vm. vm_id vm = kid) (dd_verification_method d)")
      (auto simp: find_verifying_key_def)
  obtain k where k: "vm_public_key vm = Jwk k"
    using assms f by (cases "vm_public_key vm") (auto simp: find_verifying_key_def)
  then have vm: "List.find (\<lambda>vm. vm_id vm = kid) (dd_verification_method d) = Some vm"
      "vm_public_key vm = Jwk k" "verifying_key_from_jwk c vs k = Ok key" "key_alg key = ''ES256''"
    using assms f by (auto simp: find_verifying_key_def ok_iff split: if_split_asm)
  obtain vk where key: "key = EcdsaP256 vk" using vm(4) by (cases key) auto
  obtain e where e: "k = EC e" "ec_crv e = ''P-256''"
    using vm(3) unfolding key verifying_key_ec by blast
  have "vm \<in> set (dd_verification_method d)" "vm_id vm = kid"
    using vm(1) by (auto simp: find_Some_iff)
  then show ?thesis using that vm key e by blast
qed

lemma check_freshness_passed:
  "check_passed (check_freshness isot st now) \<longleftrightarrow>
     (\<forall>nbf. ts_nbf st = Some nbf \<longrightarrow> nbf \<le> now) \<and> (\<forall>ex. ts_exp st = Some ex \<longrightarrow> now < ex)"
  by (auto simp: check_freshness_def Let_def not_less split: option.splits)

text \<open>A document the run uses for a DID: cached before, or fetched now.\<close>

definition doc_of ::
  "codecs \<Rightarrow> fetcher \<Rightarrow> (string, diddoc) fmap \<Rightarrow> string \<Rightarrow> (diddoc, trust_error) result" where
  "doc_of c fetch cache iss =
     (case fmlookup cache iss of Some d \<Rightarrow> Ok d | None \<Rightarrow> fetch_issuer_doc c fetch iss)"

lemma load_issuer_doc_ok:
  "load_issuer_doc c fetch iss cache = Ok (d, cache') \<longleftrightarrow>
     doc_of c fetch cache iss = Ok d
     \<and> cache' = (if fmlookup cache iss = None then fmupd iss d cache else cache)"
  by (auto simp: load_issuer_doc_def doc_of_def ok_iff split: option.splits)

definition stmt_signed :: "codecs \<Rightarrow> ('ed, 'ec) verifiers \<Rightarrow> diddoc \<Rightarrow> trust_statement \<Rightarrow> bool" where
  "stmt_signed c vs d st \<longleftrightarrow>
     (\<exists>vm k vk. vm \<in> set (dd_verification_method d) \<and> vm_id vm = ts_kid st
        \<and> vm_public_key vm = Jwk (EC k) \<and> verifying_key_from_jwk c vs (EC k) = Ok (EcdsaP256 vk)
        \<and> length (ts_signature st) = 64 \<and> ec_sig_ok vs (ts_signature st)
        \<and> ec_verify vs vk (as_bytes (ts_signing_input st)) (ts_signature st))"

lemma stmt_signature_passed:
  assumes "verify_stmt_signature c vs fetch st ctx = Ok (CheckOk m, ctx')"
  shows "ts_alg st = ''ES256'' \<and> (\<exists>kid_did frag d. ts_kid st = kid_did @ ''#'' @ frag
    \<and> CHR ''#'' \<notin> set kid_did \<and> doc_of c fetch (vc_issuer_docs ctx) kid_did = Ok d
    \<and> stmt_signed c vs d st)"
proof -
  have alg: "ts_alg st = ''ES256''"
    using assms by (auto simp: verify_stmt_signature_def split: if_splits)
  obtain kid_did frag where kid: "split_once (CHR ''#'') (ts_kid st) = Some (kid_did, frag)"
    using assms alg
    by (cases "split_once (CHR ''#'') (ts_kid st)")
      (auto simp: verify_stmt_signature_def simp del: split_once_none)
  obtain d cache where d: "load_issuer_doc c fetch kid_did (vc_issuer_docs ctx) = Ok (d, cache)"
    using assms alg kid by (auto simp: verify_stmt_signature_def ok_iff)
  obtain key where key: "find_verifying_key c vs d (ts_kid st) = Ok key"
    using assms alg kid d
    by (cases "find_verifying_key c vs d (ts_kid st)") (auto simp: verify_stmt_signature_def Let_def)
  have sig: "verify_signature vs key (as_bytes (ts_signing_input st)) (ts_signature st) = Ok ()"
    using assms alg kid d key
    by (cases "verify_signature vs key (as_bytes (ts_signing_input st)) (ts_signature st)")
      (auto simp: verify_stmt_signature_def Let_def split: jws_error.splits)
  obtain vm k vk where vm: "vm \<in> set (dd_verification_method d)" "vm_id vm = ts_kid st"
      "vm_public_key vm = Jwk (EC k)" "key = EcdsaP256 vk"
      "verifying_key_from_jwk c vs (EC k) = Ok (EcdsaP256 vk)"
    by (rule find_verifying_key_ok [OF key])
  have "length (ts_signature st) = 64 \<and> ec_sig_ok vs (ts_signature st)
      \<and> ec_verify vs vk (as_bytes (ts_signing_input st)) (ts_signature st)"
    using sig unfolding verify_signature_ok vm(4) by simp
  then have "stmt_signed c vs d st"
    unfolding stmt_signed_def using vm(1,2,3,5) by blast
  moreover have "doc_of c fetch (vc_issuer_docs ctx) kid_did = Ok d"
    using d by (simp add: load_issuer_doc_ok)
  moreover have "ts_kid st = kid_did @ ''#'' @ frag" "CHR ''#'' \<notin> set kid_did"
    using kid by (simp_all add: split_once_some)
  ultimately show ?thesis using alg by blast
qed

text \<open>
  A status list that the issuer vouches for: fetched from the URL, signed under a key of the
  issuer's own document, and decoded from the signed payload.
\<close>

definition list_vouched ::
  "codecs \<Rightarrow> ('ed, 'ec) verifiers \<Rightarrow> fetcher \<Rightarrow> string \<Rightarrow> string \<Rightarrow> status_list \<Rightarrow> bool" where
  "list_vouched c vs fetch issuer url l \<longleftrightarrow>
     (\<exists>txt h p s payload sig d kid vk inner.
        fetch url = Ok (Some txt) \<and> split_on (CHR ''.'') (trim txt) = [h, p, s]
      \<and> sl_json_part c url ''payload'' p = Ok payload \<and> b64_decode c s = Ok sig
      \<and> fetch_issuer_doc c fetch issuer = Ok d \<and> find_verifying_key c vs d kid = Ok vk
      \<and> verify_signature vs vk (as_bytes (h @ ''.'' @ p)) sig = Ok ()
      \<and> json_get payload ''status_list'' = Some inner \<and> status_list_from_json c inner = Ok l)"

definition coherent ::
  "codecs \<Rightarrow> ('ed, 'ec) verifiers \<Rightarrow> fetcher \<Rightarrow> string \<Rightarrow> verify_context \<Rightarrow> bool" where
  "coherent c vs fetch issuer ctx \<longleftrightarrow>
     vc_expected_issuer ctx = issuer
   \<and> (\<forall>iss d. fmlookup (vc_issuer_docs ctx) iss = Some d \<longrightarrow> fetch_issuer_doc c fetch iss = Ok d)
   \<and> (\<forall>url l. fmlookup (vc_status_lists ctx) url = Some l \<longrightarrow> list_vouched c vs fetch issuer url l)"

lemma coherent_new: "coherent c vs fetch issuer (context_new issuer)"
  by (simp add: coherent_def context_new_def)

lemma load_issuer_doc_coherent:
  assumes "coherent c vs fetch issuer ctx" "load_issuer_doc c fetch iss (vc_issuer_docs ctx) = Ok (d, cache)"
  shows "fetch_issuer_doc c fetch iss = Ok d" "coherent c vs fetch issuer (ctx\<lparr>vc_issuer_docs := cache\<rparr>)"
  using assms by (auto simp: load_issuer_doc_ok doc_of_def coherent_def split: option.splits if_splits)

lemma parse_and_verify_ok:
  assumes "parse_and_verify_status_list c vs fetch url jwt ctx = Ok (l, ctx')"
  obtains h p s payload sig d kid vk inner cache where
    "split_on (CHR ''.'') jwt = [h, p, s]" "sl_json_part c url ''payload'' p = Ok payload"
    "b64_decode c s = Ok sig"
    "load_issuer_doc c fetch (vc_expected_issuer ctx) (vc_issuer_docs ctx) = Ok (d, cache)"
    "find_verifying_key c vs d kid = Ok vk"
    "verify_signature vs vk (as_bytes (h @ ''.'' @ p)) sig = Ok ()"
    "json_get payload ''status_list'' = Some inner" "status_list_from_json c inner = Ok l"
    "ctx' = ctx\<lparr>vc_issuer_docs := cache\<rparr>"
proof -
  let ?segs = "split_on (CHR ''.'') jwt"
  have "length ?segs = 3"
    using assms by (auto simp: parse_and_verify_status_list_def Let_def split: if_splits)
  then obtain h p s where segs: "?segs = [h, p, s]"
    by (auto simp: numeral_3_eq_3 length_Suc_conv)
  show ?thesis
    using assms that [OF segs]
    by (auto simp: parse_and_verify_status_list_def Let_def segs ok_iff
        split: if_split_asm prod.split_asm option.split_asm)
qed

lemma load_status_list_coherent:
  assumes co: "coherent c vs fetch issuer ctx"
    and load: "load_status_list c vs fetch url ctx = Ok (l, ctx')"
  shows "list_vouched c vs fetch issuer url l \<and> coherent c vs fetch issuer ctx'"
proof (cases "fmlookup (vc_status_lists ctx) url")
  case (Some l')
  with load co show ?thesis by (auto simp: load_status_list_def coherent_def)
next
  case None
  obtain body where f: "fetch url = Ok (Some body)"
    using load None
    by (cases "fetch url") (auto simp: load_status_list_def split: option.split_asm)
  obtain ctx1 where parse: "parse_and_verify_status_list c vs fetch url (trim body) ctx = Ok (l, ctx1)"
      "ctx' = ctx1\<lparr>vc_status_lists := fmupd url l (vc_status_lists ctx1)\<rparr>"
    using load None f by (auto simp: load_status_list_def ok_iff)
  obtain h p s payload sig d kid vk inner cache where v:
    "split_on (CHR ''.'') (trim body) = [h, p, s]" "sl_json_part c url ''payload'' p = Ok payload"
    "b64_decode c s = Ok sig"
    "load_issuer_doc c fetch (vc_expected_issuer ctx) (vc_issuer_docs ctx) = Ok (d, cache)"
    "find_verifying_key c vs d kid = Ok vk"
    "verify_signature vs vk (as_bytes (h @ ''.'' @ p)) sig = Ok ()"
    "json_get payload ''status_list'' = Some inner" "status_list_from_json c inner = Ok l"
    "ctx1 = ctx\<lparr>vc_issuer_docs := cache\<rparr>"
    by (rule parse_and_verify_ok [OF parse(1)])
  have issuer: "vc_expected_issuer ctx = issuer" using co by (simp add: coherent_def)
  note doc = load_issuer_doc_coherent [OF co v(4)]
  have vouched: "list_vouched c vs fetch issuer url l"
    unfolding list_vouched_def using f v(1-3,5-8) doc(1) issuer by blast
  moreover have "coherent c vs fetch issuer ctx'"
    using doc(2) vouched by (auto simp: parse(2) v(9) coherent_def)
  ultimately show ?thesis by blast
qed

lemma stmt_signature_coherent:
  assumes co: "coherent c vs fetch issuer ctx"
    and v: "verify_stmt_signature c vs fetch st ctx = Ok (k, ctx')"
  shows "coherent c vs fetch issuer ctx'"
proof (cases "ts_alg st \<noteq> ''ES256'' \<or> split_once (CHR ''#'') (ts_kid st) = None")
  case True
  then have "ctx' = ctx"
    using v by (auto simp: verify_stmt_signature_def simp del: split_once_none split: if_split_asm)
  with co show ?thesis by simp
next
  case False
  then obtain kid_did frag where kid: "split_once (CHR ''#'') (ts_kid st) = Some (kid_did, frag)"
      "ts_alg st = ''ES256''"
    by (auto simp del: split_once_none)
  obtain d cache where d: "load_issuer_doc c fetch kid_did (vc_issuer_docs ctx) = Ok (d, cache)"
    using v kid by (auto simp: verify_stmt_signature_def ok_iff)
  have "ctx' = ctx\<lparr>vc_issuer_docs := cache\<rparr>"
  proof (cases "find_verifying_key c vs d (ts_kid st)")
    case (Inl e)
    with v kid d show ?thesis by (simp add: verify_stmt_signature_def Let_def)
  next
    case (Inr key)
    show ?thesis
    proof (cases "verify_signature vs key (as_bytes (ts_signing_input st)) (ts_signature st)")
      case (Inl e)
      with v kid d Inr show ?thesis by (cases e) (simp_all add: verify_stmt_signature_def Let_def)
    qed (use v kid d Inr in \<open>simp add: verify_stmt_signature_def Let_def\<close>)
  qed
  then show ?thesis using load_issuer_doc_coherent(2) [OF co d] by simp
qed

lemma check_status_coherent:
  assumes "coherent c vs fetch issuer ctx" "check_status c vs fetch st ctx = Ok (k, ctx')"
  shows "coherent c vs fetch issuer ctx'"
    "check_passed k \<Longrightarrow> \<exists>info l. ts_status st = Some info
       \<and> list_vouched c vs fetch issuer (slp_uri info) l \<and> value_at l (slp_idx info) = Ok Valid"
proof -
  have "coherent c vs fetch issuer ctx' \<and> (check_passed k \<longrightarrow> (\<exists>info l. ts_status st = Some info
       \<and> list_vouched c vs fetch issuer (slp_uri info) l \<and> value_at l (slp_idx info) = Ok Valid))"
  proof (cases "ts_status st")
    case None
    with assms show ?thesis by (auto simp: check_status_def)
  next
    case (Some info)
    then obtain l v where l: "load_status_list c vs fetch (slp_uri info) ctx = Ok (l, ctx')"
        "value_at l (slp_idx info) = Ok v"
      using assms(2) by (auto simp: check_status_def ok_iff Let_def)
    moreover have "check_passed k \<longrightarrow> v = Valid"
      using assms(2) Some l by (cases v) (auto simp: check_status_def Let_def)
    ultimately have l: "load_status_list c vs fetch (slp_uri info) ctx = Ok (l, ctx')"
        "value_at l (slp_idx info) = Ok v" "check_passed k \<longrightarrow> v = Valid"
      by blast+
    with load_status_list_coherent [OF assms(1) l(1)] Some show ?thesis by auto
  qed
  then show "coherent c vs fetch issuer ctx'"
    "check_passed k \<Longrightarrow> \<exists>info l. ts_status st = Some info
       \<and> list_vouched c vs fetch issuer (slp_uri info) l \<and> value_at l (slp_idx info) = Ok Valid"
    by blast+
qed

text \<open>The statements a verdict may rest on.\<close>

definition stmt_trusted ::
  "codecs \<Rightarrow> ('ed, 'ec) verifiers \<Rightarrow> fetcher \<Rightarrow> string \<Rightarrow> u64 \<Rightarrow> trust_statement \<Rightarrow> bool" where
  "stmt_trusted c vs fetch issuer now st \<longleftrightarrow>
     ts_iss st = issuer \<and> ts_alg st = ''ES256''
   \<and> (\<exists>kid_did frag d. ts_kid st = kid_did @ ''#'' @ frag \<and> CHR ''#'' \<notin> set kid_did
        \<and> fetch_issuer_doc c fetch kid_did = Ok d \<and> stmt_signed c vs d st)
   \<and> (\<forall>nbf. ts_nbf st = Some nbf \<longrightarrow> nbf \<le> now) \<and> (\<forall>ex. ts_exp st = Some ex \<longrightarrow> now < ex)
   \<and> (\<exists>info l. ts_status st = Some info \<and> list_vouched c vs fetch issuer (slp_uri info) l
        \<and> value_at l (slp_idx info) = Ok Valid)"

lemma doc_of_coherent:
  "coherent c vs fetch issuer ctx \<Longrightarrow> doc_of c fetch (vc_issuer_docs ctx) iss = Ok d \<Longrightarrow>
   fetch_issuer_doc c fetch iss = Ok d"
  by (auto simp: doc_of_def coherent_def split: option.splits)

lemma verify_one_coherent:
  assumes co: "coherent c vs fetch issuer ctx"
    and v: "verify_one c vs fetch isot st now ctx = Ok (r, ctx')"
  shows "coherent c vs fetch issuer ctx'" "rp_statement r = st"
    "rp_verdict r \<Longrightarrow> stmt_trusted c vs fetch issuer now st"
proof -
  have issuer: "vc_expected_issuer ctx = issuer" using co by (simp add: coherent_def)
  obtain sig ctx1 status where steps:
    "(if ts_iss st \<noteq> issuer then Ok (CheckSkip ''(issuer mismatch)'', ctx)
      else verify_stmt_signature c vs fetch st ctx) = Ok (sig, ctx1)"
    "(if \<not> check_passed sig
      then Ok (CheckSkip ''(would only matter if signature were trusted)'', ctx1)
      else check_status c vs fetch st ctx1) = Ok (status, ctx')"
    "rp_statement r = st"
    "rp_verdict r \<longrightarrow> ts_iss st = issuer \<and> check_passed sig
       \<and> check_passed (check_freshness isot st now) \<and> check_passed status"
    using v issuer by (auto simp: verify_one_def Let_def ok_iff split: if_split_asm)
  have co1: "coherent c vs fetch issuer ctx1"
    using steps(1) co stmt_signature_coherent [OF co] by (auto split: if_split_asm)
  then show "coherent c vs fetch issuer ctx'"
    using steps(2) check_status_coherent(1) [OF co1] by (auto split: if_split_asm)
  show "rp_statement r = st" by (rule steps(3))
  assume "rp_verdict r"
  then have ok: "ts_iss st = issuer" "check_passed sig" "check_passed (check_freshness isot st now)"
      "check_passed status" using steps(4) by blast+
  obtain m where m: "sig = CheckOk m" using ok(2) by (cases sig) auto
  have sign: "verify_stmt_signature c vs fetch st ctx = Ok (CheckOk m, ctx1)"
    using steps(1) ok(1) m by simp
  note s = stmt_signature_passed [OF sign]
  have "check_status c vs fetch st ctx1 = Ok (status, ctx')" using steps(2) ok(2) by simp
  note l = check_status_coherent(2) [OF co1 this ok(4)]
  show "stmt_trusted c vs fetch issuer now st"
    unfolding stmt_trusted_def
    using s l ok(1,3) doc_of_coherent [OF co] by (auto simp: check_freshness_passed)
qed

lemma verify_all_trusted:
  assumes "verify_all c vs fetch isot now sts ctx = Ok rs" "coherent c vs fetch issuer ctx"
    "r \<in> set rs" "rp_verdict r"
  shows "rp_statement r \<in> set sts \<and> stmt_trusted c vs fetch issuer now (rp_statement r)"
  using assms
proof (induction sts arbitrary: ctx rs)
  case (Cons st sts)
  obtain r0 ctx1 rs1 where step: "verify_one c vs fetch isot st now ctx = Ok (r0, ctx1)"
      "verify_all c vs fetch isot now sts ctx1 = Ok rs1" "rs = r0 # rs1"
    using Cons.prems(1) by (auto simp: ok_iff)
  note one = verify_one_coherent [OF Cons.prems(2) step(1)]
  from Cons.prems(3) step(3) consider "r = r0" | "r \<in> set rs1" by auto
  then show ?case
  proof cases
    case 1
    with one Cons.prems(4) show ?thesis by simp
  next
    case 2
    from Cons.IH [OF step(2) one(1) this Cons.prems(4)] show ?thesis by simp
  qed
qed simp

lemma decode_statements_from:
  "decode_statements c i js = Ok sts \<Longrightarrow> st \<in> set sts \<Longrightarrow> \<exists>j \<in> set js. try_from_jwt c j = Ok st"
proof (induction js arbitrary: i sts)
  case (Cons j js)
  then obtain x xs where "try_from_jwt c j = Ok x" "decode_statements c (i + 1) js = Ok xs" "sts = x # xs"
    by (auto simp: ok_iff)
  with Cons show ?case by auto
qed simp

section \<open>A sample world\<close>

text \<open>
  Two DIDs, each with a published document that holds one P-256 key of its own; a status list
  published by the issuer \<open>did:tdw:S:i\<close>; and a statement that names this issuer and points
  into its status list, but whose key id and signature are those of the other DID,
  \<open>did:tdw:S:a\<close>. The text encodings are toys that tell names apart by their first letter,
  and a signature is valid under a key when both repeat the same byte.
\<close>

definition world_doc :: "string \<Rightarrow> diddoc" where
  "world_doc n =
     add_verification_method (diddoc_new (''did:tdw:S:'' @ n))
       \<lparr>vm_id = ''did:tdw:S:'' @ n @ ''#k'', vm_type = ''JsonWebKey2020'',
        vm_controller = ''did:tdw:S:'' @ n, vm_public_key = Jwk (EC (ec_key_new ''P-256'' n n))\<rparr>"

definition world_header :: "string \<Rightarrow> json" where
  "world_header n =
     json_obj [(''alg'', JString ''ES256''), (''kid'', JString (''did:tdw:S:'' @ n @ ''#k''))]"

definition world_pointer :: status_list_pointer where
  "world_pointer = \<lparr>slp_type = ''SwissTokenStatusList-1.0'', slp_idx = 0, slp_uri = ''u''\<rparr>"

definition world_slice :: "u8 list \<Rightarrow> json" where
  "world_slice bs =
     (if hd bs = of_char (CHR ''h'') then world_header ''a''
      else if hd bs = of_char (CHR ''H'') then world_header ''i''
      else if hd bs = of_char (CHR ''p'') then
        json_obj [(''iss'', JString ''did:tdw:S:i''), (''iat'', json_u64 5),
                  (''status'', json_obj [(''status_list'', pointer_to_json world_pointer)])]
      else json_obj [(''status_list'', json_obj [(''bits'', json_u64 1), (''lst'', JString ''0'')])])"

definition world_entry :: "codecs \<Rightarrow> string \<Rightarrow> did_log_entry" where
  "world_entry c n =
     entry_new_tdw ''2-Q'' ''t'' (params_new_tdw None None None None None None None None None)
       (StateValue (diddoc_to_json c (world_doc n))) []"

definition world_codecs :: codecs where
  "world_codecs =
     plain_codecs
       \<lparr>b64_decode := (\<lambda>s. Ok (replicate 64 (hd (as_bytes s)))),
        json_from_slice := (\<lambda>bs. Ok (world_slice bs)),
        json_from_str := (\<lambda>s. Ok (if s = ''l'' then JArray [JString ''h.p.a'']
          else entry_to_json (world_entry plain_codecs s)))\<rparr>"

definition world_verifiers :: "(u8 list, u8 list) verifiers" where
  "world_verifiers =
     plain_verifiers\<lparr>ec_verify := (\<lambda>k msg sig. hd sig = hd (tl k))\<rparr>"

definition world_fetch :: fetcher where
  "world_fetch url =
     (if url = ''https://a/.well-known/did.jsonl'' then Ok (Some ''a'')
      else if url = ''https://i/.well-known/did.jsonl'' then Ok (Some ''i'')
      else if url = ''u'' then Ok (Some ''H.P.i'') else Ok None)"

definition world_statement :: trust_statement where
  "world_statement =
     \<lparr>ts_vct = ''(unknown)'', ts_iss = ''did:tdw:S:i'', ts_iat = 5, ts_nbf = None, ts_exp = None,
      ts_entity_name = fmempty, ts_is_state_actor = None, ts_status = Some world_pointer,
      ts_kid = ''did:tdw:S:a#k'', ts_alg = ''ES256'', ts_signing_input = ''h.p'',
      ts_signature = replicate 64 (of_char (CHR ''a''))\<rparr>"

lemma world_b64 [simp]: "b64_decode world_codecs (x # xs) = Ok (replicate 64 (of_char x))"
  by (simp add: world_codecs_def as_bytes_def)

lemma world_json [simp]:
  "json_from_slice world_codecs (replicate 64 b) = Ok (world_slice [b])"
  by (simp add: world_codecs_def world_slice_def)

lemma world_statement_decodes: "try_from_jwt world_codecs ''h.p.a'' = Ok world_statement"
  by (simp add: try_from_jwt_def trim_end_matches_def jwt_json_def jwt_segment_def world_slice_def
      world_header_def json_obj_def header_string_def sd_digests_def status_pointer_def
      string_or_unknown_def world_statement_def pointer_codec.dec_enc)

lemma world_trim: "trim ''a'' = ''a''" "trim ''i'' = ''i''" "trim ''H.P.i'' = ''H.P.i''"
  by (simp_all add: trim_def trim_start_def trim_end_def trim_front.simps white_space_def)

lemma world_docs:
  assumes "n = ''a'' \<or> n = ''i''"
  shows "fetch_issuer_doc world_codecs world_fetch (''did:tdw:S:'' @ n) = Ok (world_doc n)"
proof -
  define iss where iss: "iss = ''did:tdw:S:'' @ n"
  have did: "did_from_str iss =
      Ok \<lparr>did_method = Tdw, did_scid = Some ''S'', did_domain = n, did_path = None\<rparr>"
    using assms by (auto simp: iss did_from_str_def numeral_3_eq_3 did_from_parts_def Let_def
        is_valid_domain_def)
  have url: "world_fetch (did_log_url \<lparr>did_method = Tdw, did_scid = Some ''S'', did_domain = n, did_path = None\<rparr>)
      = Ok (Some n)"
    using assms by (auto simp: did_log_url_def str_replace_def world_fetch_def replace_nonempty.simps)
  have entries: "log_from_jsonl world_codecs n = Ok [world_entry plain_codecs n]"
  proof -
    have wire: "wire_entry (world_entry plain_codecs n)"
      by (simp add: wire_entry_def world_entry_def entry_on_wire_def params_on_wire_def
          portable_written_def entry_new_tdw_def
          params_new_tdw_def)
    have "json_from_str world_codecs n = Ok (entry_to_json (world_entry plain_codecs n))"
      using assms by (auto simp: world_codecs_def)
    then show ?thesis
      using assms entry_codec.dec_enc [OF wire]
      by (auto simp: log_from_jsonl_def str_lines_def Let_def strip_cr_def world_trim)
  qed
  have doc: "diddoc_from_json world_codecs (diddoc_to_json plain_codecs (world_doc n)) = Ok (world_doc n)"
  proof -
    have "diddoc_to_json plain_codecs (world_doc n) = diddoc_to_json world_codecs (world_doc n)"
      by (simp add: diddoc_to_json_def world_doc_def add_verification_method_def diddoc_new_def
          vm_to_json_def insert_nonempty_def)
    then show ?thesis
      using diddoc_codec.dec_enc [of world_codecs "world_doc n"]
      by (simp add: diddoc_portable_def world_doc_def add_verification_method_def diddoc_new_def vm_portable_def)
  qed
  show ?thesis
    unfolding iss [symmetric]
    by (simp add: fetch_issuer_doc_def did url entries world_entry_def entry_new_tdw_def doc)
qed

lemma world_key:
  "find_verifying_key world_codecs world_verifiers (world_doc n) (''did:tdw:S:'' @ n @ ''#k'') =
     (case n of [] \<Rightarrow> find_verifying_key world_codecs world_verifiers (world_doc n) (''did:tdw:S:'' @ n @ ''#k'')
      | ch # _ \<Rightarrow> Ok (EcdsaP256 (4 # replicate 64 (of_char ch) @ replicate 64 (of_char ch))))"
  by (cases n) (simp_all add: find_verifying_key_def world_doc_def add_verification_method_def
      diddoc_new_def ec_key_new_def ec_verifying_key_def world_verifiers_def plain_verifiers_def)

lemma world_verify:
  "verify_signature world_verifiers (EcdsaP256 (4 # replicate 64 b @ xs)) msg (replicate 64 b') =
     (if b' = b then Ok () else Err JwsSignatureMismatch)"
  by (simp add: verify_signature_def world_verifiers_def plain_verifiers_def)

lemma world_doc_a: "fetch_issuer_doc world_codecs world_fetch ''did:tdw:S:a'' = Ok (world_doc ''a'')"
  and world_doc_i: "fetch_issuer_doc world_codecs world_fetch ''did:tdw:S:i'' = Ok (world_doc ''i'')"
  using world_docs [of "''a''"] world_docs [of "''i''"] by simp_all

lemma world_key_a: "find_verifying_key world_codecs world_verifiers (world_doc ''a'') ''did:tdw:S:a#k'' =
    Ok (EcdsaP256 (4 # replicate 64 97 @ replicate 64 97))"
  and world_key_i: "find_verifying_key world_codecs world_verifiers (world_doc ''i'') ''did:tdw:S:i#k'' =
    Ok (EcdsaP256 (4 # replicate 64 105 @ replicate 64 105))"
  using world_key [of "''a''"] world_key [of "''i''"] by simp_all

lemma world_list:
  assumes "vc_expected_issuer ctx = ''did:tdw:S:i''" "fmlookup (vc_issuer_docs ctx) ''did:tdw:S:i'' = None"
    "fmlookup (vc_status_lists ctx) ''u'' = None"
  shows "\<exists>ctx'. load_status_list world_codecs world_verifiers world_fetch ''u'' ctx =
      Ok (\<lparr>sl_bits = 1, sl_bytes = replicate 64 48\<rparr>, ctx')"
proof -
  have body: "world_fetch ''u'' = Ok (Some ''H.P.i'')" by (simp add: world_fetch_def)
  have parts: "sl_json_part world_codecs ''u'' l ''H'' = Ok (world_header ''i'')"
    "sl_json_part world_codecs ''u'' l ''P'' =
       Ok (json_obj [(''status_list'', json_obj [(''bits'', json_u64 1), (''lst'', JString ''0'')])])" for l
    by (simp_all add: sl_json_part_def world_slice_def)
  have inner: "status_list_from_json world_codecs (json_obj [(''bits'', json_u64 1), (''lst'', JString ''0'')])
      = Ok \<lparr>sl_bits = 1, sl_bytes = replicate 64 48\<rparr>"
    by (simp add: status_list_from_json_def json_obj_def read_bits_def sl_str_def json_u64_def
        u8_try_from_def) (simp add: world_codecs_def plain_codecs_def)
  have fields: "json_get (world_header ''i'') ''alg'' = Some (JString ''ES256'')"
    "json_get (world_header ''i'') ''kid'' = Some (JString ''did:tdw:S:i#k'')"
    "json_get (json_obj [(''status_list'', x)]) ''status_list'' = Some x" for x
    by (simp_all add: world_header_def json_obj_def)
  show ?thesis
    using assms
    by (simp add: load_status_list_def body world_trim parse_and_verify_status_list_def Let_def parts fields
        load_issuer_doc_def world_doc_i world_key_i world_verify inner)
qed

lemma world_trusts:
  "\<exists>reports. trust_verify world_codecs world_verifiers world_fetch (\<lambda>_. []) ''did:tdw:S:i'' 9 [''h.p.a'']
     = Ok (Trusted, reports)"
proof -
  let ?ctx = "context_new ''did:tdw:S:i''\<lparr>vc_issuer_docs := fmupd ''did:tdw:S:a'' (world_doc ''a'') fmempty\<rparr>"
  obtain ctx' where l: "load_status_list world_codecs world_verifiers world_fetch ''u'' ?ctx =
      Ok (\<lparr>sl_bits = 1, sl_bytes = replicate 64 48\<rparr>, ctx')"
    using world_list [of ?ctx] by (auto simp: context_new_def)
  have slot: "value_at \<lparr>sl_bits = 1, sl_bytes = replicate 64 48\<rparr> 0 = Ok Valid"
    by (simp add: value_at_def vec_get_def status_from_raw_def)
  have sig: "verify_stmt_signature world_codecs world_verifiers world_fetch world_statement
      (context_new ''did:tdw:S:i'') = Ok (CheckOk ''valid (kid: did:tdw:S:a#k)'', ?ctx)"
    by (simp add: verify_stmt_signature_def world_statement_def load_issuer_doc_def context_new_def
        world_doc_a world_key_a world_verify)
  have status: "\<exists>m. check_status world_codecs world_verifiers world_fetch world_statement ?ctx =
      Ok (CheckOk m, ctx')"
    by (simp add: check_status_def world_statement_def world_pointer_def l slot)
  have fresh: "check_passed (check_freshness (\<lambda>_. []) world_statement 9)"
    by (simp add: check_freshness_def world_statement_def)
  have iss: "ts_iss world_statement = vc_expected_issuer (context_new ''did:tdw:S:i'')"
    by (simp add: world_statement_def context_new_def)
  obtain m where m: "check_status world_codecs world_verifiers world_fetch world_statement ?ctx =
      Ok (CheckOk m, ctx')"
    using status by blast
  obtain r where "verify_one world_codecs world_verifiers world_fetch (\<lambda>_. []) world_statement 9
      (context_new ''did:tdw:S:i'') = Ok (r, ctx')" "rp_verdict r"
    using fresh by (simp add: verify_one_def iss sig m)
  then show ?thesis
    by (simp add: trust_verify_def world_statement_decodes newest_first_def)
qed

section \<open>The verdict\<close>

text \<open>What a trusted verdict means. If the command calls an entity trusted, one of the
  fetched statements decodes to a statement that names the expected issuer, is signed with
  ES256 under a P-256 key that the document fetched for its key id lists under that id, is
  within its validity at the time of the run, and points at a slot that reads \<open>Valid\<close> in a
  status list signed under a key of the issuer's own document. The caches that make the run
  fetch every document and list once never change that meaning.\<close>

theorem trusted_verdict_sound:
  assumes "trust_verify c vs fetch isot issuer now jwts = Ok (Trusted, reports)"
  shows "\<exists>jwt \<in> set jwts. \<exists>st. try_from_jwt c jwt = Ok st \<and> stmt_trusted c vs fetch issuer now st"
proof -
  have ne: "jwts \<noteq> []" using assms by (auto simp: trust_verify_def)
  obtain sts where sts: "decode_statements c 0 jwts = Ok sts"
      "verify_all c vs fetch isot now (newest_first sts) (context_new issuer) = Ok reports"
      "filter rp_verdict reports \<noteq> []"
    using assms ne by (auto simp: trust_verify_def ok_iff split: if_split_asm)
  then obtain r where r: "r \<in> set reports" "rp_verdict r"
    by (auto simp: filter_empty_conv)
  from verify_all_trusted [OF sts(2) coherent_new r]
  have "rp_statement r \<in> set sts" "stmt_trusted c vs fetch issuer now (rp_statement r)"
    by (simp_all add: newest_first_def)
  with decode_statements_from [OF sts(1)] show ?thesis by blast
qed

theorem trusted_verdict_sound_witness:
  "\<exists>st. try_from_jwt world_codecs ''h.p.a'' = Ok st
     \<and> stmt_trusted world_codecs world_verifiers world_fetch ''did:tdw:S:i'' 9 st"
proof -
  obtain reports where run:
    "trust_verify world_codecs world_verifiers world_fetch (\<lambda>_. []) ''did:tdw:S:i'' 9 [''h.p.a'']
       = Ok (Trusted, reports)"
    using world_trusts by blast
  from trusted_verdict_sound [OF run] show ?thesis by simp
qed

text \<open>C33: the key id of a statement is not bound to its issuer. The signature check takes any DID
  the key id names: its result is the same whatever issuer the statement claims and whatever
  issuer is expected, so a statement that claims the expected issuer is called trusted on a
  signature by the key of a DID that has nothing to do with it. Status lists are bound, by a
  comparison that the check of the statement itself does not make.\<close>

theorem kid_not_bound_to_issuer:
  "and_then (verify_stmt_signature c vs fetch (st\<lparr>ts_iss := x\<rparr>) (context_new y)) (\<lambda>(k, _). Ok k)
    = and_then (verify_stmt_signature c vs fetch st (context_new z)) (\<lambda>(k, _). Ok k)
   \<and> (\<exists>reports d. trust_verify world_codecs world_verifiers world_fetch (\<lambda>_. []) ''did:tdw:S:i'' 9 [''h.p.a'']
        = Ok (Trusted, reports)
      \<and> try_from_jwt world_codecs ''h.p.a'' = Ok world_statement
      \<and> fetch_issuer_doc world_codecs world_fetch ''did:tdw:S:i'' = Ok d
      \<and> ts_kid world_statement \<notin> vm_id ` set (dd_verification_method d))"
proof (intro conjI)
  show "and_then (verify_stmt_signature c vs fetch (st\<lparr>ts_iss := x\<rparr>) (context_new y)) (\<lambda>(k, _). Ok k)
    = and_then (verify_stmt_signature c vs fetch st (context_new z)) (\<lambda>(k, _). Ok k)"
  proof (cases "split_once (CHR ''#'') (ts_kid st)")
    case None
    then show ?thesis by (simp add: verify_stmt_signature_def del: split_once_none)
  next
    case (Some kf)
    obtain kid frag where kf: "kf = (kid, frag)" by (cases kf)
    show ?thesis
    proof (cases "fetch_issuer_doc c fetch kid")
      case (Inl e)
      with Some kf show ?thesis
        by (simp add: verify_stmt_signature_def load_issuer_doc_def context_new_def del: split_once_none)
    next
      case (Inr d)
      with Some kf show ?thesis
        by (simp add: verify_stmt_signature_def load_issuer_doc_def context_new_def Let_def
            del: split_once_none split: sum.split jws_error.split)
    qed
  qed
  have "ts_kid world_statement \<notin> vm_id ` set (dd_verification_method (world_doc ''i''))"
    by (simp add: world_statement_def world_doc_def add_verification_method_def diddoc_new_def)
  then show "\<exists>reports d. trust_verify world_codecs world_verifiers world_fetch (\<lambda>_. []) ''did:tdw:S:i'' 9 [''h.p.a'']
        = Ok (Trusted, reports)
      \<and> try_from_jwt world_codecs ''h.p.a'' = Ok world_statement
      \<and> fetch_issuer_doc world_codecs world_fetch ''did:tdw:S:i'' = Ok d
      \<and> ts_kid world_statement \<notin> vm_id ` set (dd_verification_method d)"
    using world_trusts world_statement_decodes world_doc_i by blast
qed

end
