(* ===== verification/Oid4vci.thy ===== *)
theory Oid4vci
  imports Json
begin

text \<open>The profile constants of \<open>swiyu-core/src/oid4vci/mod.rs\<close> and the metadata values built
  from them.\<close>

definition OID_FORMAT :: string where
  "OID_FORMAT = ''vc+sd-jwt''"

definition CREDENTIAL_SIGNING_ALG :: string where
  "CREDENTIAL_SIGNING_ALG = ''ES256''"

definition CRYPTOGRAPHIC_BINDING_METHOD_JWK :: string where
  "CRYPTOGRAPHIC_BINDING_METHOD_JWK = ''jwk''"

definition PROOF_TYPE_JWT :: string where
  "PROOF_TYPE_JWT = ''jwt''"

definition credential_signing_alg_values_supported :: json where
  "credential_signing_alg_values_supported = json_strings [CREDENTIAL_SIGNING_ALG]"

definition cryptographic_binding_methods_supported :: json where
  "cryptographic_binding_methods_supported = json_strings [CRYPTOGRAPHIC_BINDING_METHOD_JWK]"

definition proof_types_supported :: json where
  "proof_types_supported =
     json_obj [(PROOF_TYPE_JWT,
       json_obj [(''proof_signing_alg_values_supported'', json_strings [CREDENTIAL_SIGNING_ALG])])]"

lemma proof_types_lookup:
  "Option.bind (json_get proof_types_supported PROOF_TYPE_JWT)
     (\<lambda>v. json_get v ''proof_signing_alg_values_supported'') = Some credential_signing_alg_values_supported"
  by (simp add: proof_types_supported_def json_obj_def credential_signing_alg_values_supported_def)

end
