(* ===== verification/Files.thy ===== *)
theory Files
  imports StrLib "HOL-Library.FSet" "HOL-Library.Sublist"
begin

text \<open>
  The part of the file system the command line tool uses (\<open>std::fs\<close>, \<open>std::path\<close>): plain
  files with their permission bits, directories, and the operations \<open>exists\<close>, \<open>read\<close>,
  \<open>write\<close>, \<open>create_dir_all\<close>, \<open>read_dir\<close>, \<open>remove_dir_all\<close> and \<open>rename\<close>. A path is the list
  of its components. Operations return the state also when they fail, because a failing
  command leaves behind what it did before. The operating system may refuse to open any path, for
  any reason, and it may break off a write after any number of bytes, when a disk is full or a
  quota reached: which paths, and why, is part of the state. Looking whether a path exists is not
  refused.
\<close>

section \<open>State\<close>

type_synonym path = "string list"

datatype io_error =
    IoNotFound path
  | IoIsDirectory path
  | IoNotDirectory path
  | IoInvalidUtf8 path
  | IoRefused path string
  | IoFull path

text \<open>A path that cannot be opened, and a file that takes no more than a number of bytes.\<close>

datatype denial = Refused string | Full nat

record files =
  fs_files :: "(path, nat \<times> string) fmap"
  fs_dirs :: "path fset"
  fs_refuses :: "path \<Rightarrow> denial option"

section \<open>Computations over a state\<close>

text \<open>
  A fallible computation that returns the state in every case. The state is the files for most
  commands; the requests sent so far for those that talk to a registry.
\<close>

type_synonym ('s, 'a, 'e) effect = "'s \<Rightarrow> ('a, 'e) result \<times> 's"

type_synonym ('a, 'e) io = "(files, 'a, 'e) effect"

definition io_ok :: "'a \<Rightarrow> ('s, 'a, 'e) effect" where
  "io_ok x = (\<lambda>s. (Ok x, s))"

definition io_err :: "'e \<Rightarrow> ('s, 'a, 'e) effect" where
  "io_err e = (\<lambda>s. (Err e, s))"

text \<open>The operator \<open>?\<close> in a command with effects.\<close>

definition io_then ::
  "('s, 'a, 'e) effect \<Rightarrow> ('a \<Rightarrow> ('s, 'b, 'e) effect) \<Rightarrow> ('s, 'b, 'e) effect" where
  "io_then m f = (\<lambda>s. case m s of (Inr x, s') \<Rightarrow> f x s' | (Inl e, s') \<Rightarrow> (Err e, s'))"

definition io_map_err :: "('e \<Rightarrow> 'f) \<Rightarrow> ('s, 'a, 'e) effect \<Rightarrow> ('s, 'a, 'f) effect" where
  "io_map_err g m = (\<lambda>s. case m s of (r, s') \<Rightarrow> (map_err g r, s'))"

text \<open>A fallible value without effects.\<close>

definition io_of :: "('a, 'e) result \<Rightarrow> ('s, 'a, 'e) effect" where
  "io_of r = (\<lambda>s. (r, s))"

text \<open>A computation that only looks at the state.\<close>

definition io_look :: "('s \<Rightarrow> ('a, 'e) result) \<Rightarrow> ('s, 'a, 'e) effect" where
  "io_look f = (\<lambda>s. (f s, s))"

lemma io_then_ok [ok_iff]:
  "io_then m f s = (Inr y, s'') \<longleftrightarrow> (\<exists>x s'. m s = (Inr x, s') \<and> f x s' = (Inr y, s''))"
  by (auto simp: io_then_def split: prod.splits sum.splits)

lemma io_then_err [err_iff]:
  "io_then m f s = (Inl e, s'') \<longleftrightarrow>
     m s = (Inl e, s'') \<or> (\<exists>x s'. m s = (Inr x, s') \<and> f x s' = (Inl e, s''))"
  by (auto simp: io_then_def split: prod.splits sum.splits)

lemma io_map_err_ok [ok_iff]: "io_map_err g m s = (Inr y, s') \<longleftrightarrow> m s = (Inr y, s')"
  by (auto simp: io_map_err_def ok_iff split: prod.splits)

lemma io_map_err_err [err_iff]: "io_map_err g m s = (Inl e, s') \<longleftrightarrow> (\<exists>e'. m s = (Inl e', s') \<and> e = g e')"
  by (auto simp: io_map_err_def err_iff split: prod.splits)

lemma io_simps [simp]:
  "io_ok x s = (Ok x, s)" "io_err e s = (Err e, s)" "io_of r s = (r, s)" "io_look f s = (f s, s)"
  by (simp_all add: io_ok_def io_err_def io_of_def io_look_def)

lemma io_then_run [simp]:
  "m s = (Inr x, s') \<Longrightarrow> io_then m f s = f x s'"
  "m s = (Inl e, s') \<Longrightarrow> io_then m f s = (Inl e, s')"
  by (simp_all add: io_then_def)

lemma io_map_err_run [simp]: "m s = (r, s') \<Longrightarrow> io_map_err g m s = (map_err g r, s')"
  by (simp add: io_map_err_def)

section \<open>What a computation does to the state\<close>

text \<open>
  Every run relates the state before it to the state after it. A relation that is reflexive and
  transitive holds for a sequence of steps if it holds for each of them, whether the sequence ends
  or fails half way.
\<close>

definition moves :: "('s \<Rightarrow> 's \<Rightarrow> bool) \<Rightarrow> ('s, 'a, 'e) effect \<Rightarrow> bool" where
  "moves R m \<longleftrightarrow> (\<forall>s. R s (snd (m s)))"

lemma movesD: "moves R m \<Longrightarrow> m s = (r, s') \<Longrightarrow> R s s'"
  unfolding moves_def by (erule allE [of _ s]) simp

lemma moves_mono: "moves R m \<Longrightarrow> (\<And>s s'. R s s' \<Longrightarrow> Q s s') \<Longrightarrow> moves Q m"
  by (auto simp: moves_def)

locale state_preorder =
  fixes R :: "'s \<Rightarrow> 's \<Rightarrow> bool"
  assumes stays: "R s s"
    and onwards: "R s s' \<Longrightarrow> R s' s'' \<Longrightarrow> R s s''"
begin

lemma basic: "moves R (io_ok x)" "moves R (io_err e)" "moves R (io_of r)" "moves R (io_look f)"
  by (simp_all add: moves_def stays)

lemma sequence:
  assumes "moves R m" "\<And>x. moves R (f x)"
  shows "moves R (io_then m f)"
  unfolding moves_def
proof
  fix s
  obtain r s1 where m: "m s = (r, s1)" by (cases "m s")
  note first = movesD [OF assms(1) m]
  show "R s (snd (io_then m f s))"
  proof (cases r)
    case (Inr x)
    have "R s1 (snd (f x s1))" using assms(2) [of x] by (simp add: moves_def)
    with first m Inr show ?thesis by (simp add: onwards [of s s1])
  qed (simp add: m first)
qed

text \<open>What a step gave is known in the rest of the sequence.\<close>

lemma after_step:
  assumes "moves R m" "\<And>s x s'. m s = (Inr x, s') \<Longrightarrow> moves R (g x)"
  shows "moves R (io_then m g)"
  unfolding moves_def
proof
  fix s
  obtain r s1 where m: "m s = (r, s1)" by fastforce
  note first = movesD [OF assms(1) m]
  show "R s (snd (io_then m g s))"
  proof (cases r)
    case (Inr x)
    then have "R s1 (snd (g x s1))" using assms(2) m by (simp add: moves_def)
    with first m Inr show ?thesis by (simp add: onwards [of s s1])
  qed (simp add: m first)
qed

lemma mapped: "moves R m \<Longrightarrow> moves R (io_map_err g m)"
  by (simp add: moves_def io_map_err_def case_prod_beta)

lemma branches:
  "moves R a \<Longrightarrow> moves R b \<Longrightarrow> moves R (if Q then a else b)"
  "(\<And>y z. moves R (f y z)) \<Longrightarrow> moves R (case x of (y, z) \<Rightarrow> f y z)"
  by (auto split: prod.split)

end

text \<open>An invariant kept by every step is kept by the whole.\<close>

definition keeps :: "('s \<Rightarrow> bool) \<Rightarrow> ('s, 'a, 'e) effect \<Rightarrow> bool" where
  "keeps P m \<longleftrightarrow> (\<forall>s. P s \<longrightarrow> P (snd (m s)))"

named_theorems keeps_intro "computations that keep an invariant of the files"

interpretation kept: state_preorder "\<lambda>s s'. P s \<longrightarrow> P s'" for P
  by unfold_locales auto

lemma keeps_moves: "keeps P m \<longleftrightarrow> moves (\<lambda>s s'. P s \<longrightarrow> P s') m"
  by (simp add: keeps_def moves_def)

lemmas keeps_basic [keeps_intro] = kept.basic [folded keeps_moves]
lemmas keeps_then [keeps_intro] = kept.sequence [folded keeps_moves]
lemmas keeps_map_err [keeps_intro] = kept.mapped [folded keeps_moves]
lemmas keeps_cases [keeps_intro] = kept.branches [folded keeps_moves]

lemma keepsD: "keeps P m \<Longrightarrow> m s = (r, s') \<Longrightarrow> P s \<Longrightarrow> P s'"
  unfolding keeps_moves by (drule (1) movesD) simp

section \<open>Reading\<close>

fun refusal :: "denial option \<Rightarrow> string option" where
  "refusal (Some (Refused why)) = Some why"
| "refusal _ = None"

definition path_is_dir :: "files \<Rightarrow> path \<Rightarrow> bool" where
  "path_is_dir s p \<longleftrightarrow> p |\<in>| fs_dirs s"

definition path_exists :: "files \<Rightarrow> path \<Rightarrow> bool" where
  "path_exists s p \<longleftrightarrow> fmlookup (fs_files s) p \<noteq> None \<or> path_is_dir s p"

definition read_to_string :: "path \<Rightarrow> files \<Rightarrow> (string, io_error) result" where
  "read_to_string p s =
     (case refusal (fs_refuses s p) of
        Some why \<Rightarrow> Err (IoRefused p why)
      | None \<Rightarrow>
          (case fmlookup (fs_files s) p of
             Some (mode, t) \<Rightarrow> Ok t
           | None \<Rightarrow> if path_is_dir s p then Err (IoIsDirectory p) else Err (IoNotFound p)))"

text \<open>The names in a directory, in no particular order.\<close>

definition child_names :: "path \<Rightarrow> path fset \<Rightarrow> string fset" where
  "child_names p qs = last |`| ffilter (\<lambda>q. q \<noteq> [] \<and> butlast q = p) qs"

definition dir_names :: "path \<Rightarrow> files \<Rightarrow> string fset" where
  "dir_names p s = child_names p (fmdom (fs_files s) |\<union>| fs_dirs s)"

definition read_dir :: "path \<Rightarrow> files \<Rightarrow> (string fset, io_error) result" where
  "read_dir p s =
     (case refusal (fs_refuses s p) of
        Some why \<Rightarrow> Err (IoRefused p why)
      | None \<Rightarrow>
          if path_is_dir s p
          then Ok (dir_names p s)
          else if fmlookup (fs_files s) p \<noteq> None then Err (IoNotDirectory p)
          else Err (IoNotFound p))"

lemma child_names_iff: "n |\<in>| child_names p qs \<longleftrightarrow> p @ [n] |\<in>| qs"
proof
  assume "n |\<in>| child_names p qs"
  then obtain q where "q |\<in>| qs" "q \<noteq> []" "butlast q = p" "last q = n"
    by (auto simp: child_names_def)
  then have "p @ [n] = q" by (metis append_butlast_last_id)
  with \<open>q |\<in>| qs\<close> show "p @ [n] |\<in>| qs" by simp
next
  assume "p @ [n] |\<in>| qs"
  then show "n |\<in>| child_names p qs"
    by (auto simp: child_names_def intro!: image_eqI [where x = "p @ [n]"])
qed

lemma child_names_insert [simp]:
  "child_names q (finsert p X) =
     (if q = butlast p \<and> p \<noteq> [] then finsert (last p) (child_names q X) else child_names q X)"
  by (auto simp: child_names_def)

lemma read_dir_ok [ok_iff]:
  "read_dir p s = Inr ns \<longleftrightarrow> refusal (fs_refuses s p) = None \<and> path_is_dir s p \<and> ns = dir_names p s"
  by (auto simp: read_dir_def split: option.splits)

lemma read_to_string_ok [ok_iff]:
  "read_to_string p s = Inr t \<longleftrightarrow>
     refusal (fs_refuses s p) = None \<and> (\<exists>m. fmlookup (fs_files s) p = Some (m, t))"
  by (auto simp: read_to_string_def split: option.splits)

section \<open>Writing\<close>

text \<open>The usual mode of a new file, \<open>0644\<close>, and that of a private one, \<open>0600\<close>.\<close>

definition default_mode :: nat where "default_mode = 420"
definition private_mode :: nat where "private_mode = 384"

text \<open>What a file takes of a text.\<close>

fun taken :: "denial option \<Rightarrow> string \<Rightarrow> string" where
  "taken (Some (Full n)) t = take n t"
| "taken _ t = t"

text \<open>
  Open for writing, create if missing with the given mode, truncate, write: the mode counts
  only for a file that did not exist. A write that is broken off leaves what was written.
\<close>

definition open_and_write :: "nat \<Rightarrow> path \<Rightarrow> string \<Rightarrow> (unit, io_error) io" where
  "open_and_write mode p t s =
     (case refusal (fs_refuses s p) of
        Some why \<Rightarrow> (Err (IoRefused p why), s)
      | None \<Rightarrow>
          if path_is_dir s p then (Err (IoIsDirectory p), s)
          else if \<not> path_is_dir s (butlast p) then (Err (IoNotFound p), s)
          else
            let written = taken (fs_refuses s p) t
            in (if length written < length t then Err (IoFull p) else Ok (),
                s\<lparr>fs_files := fmupd p
                     (case fmlookup (fs_files s) p of Some (m, _) \<Rightarrow> m | None \<Rightarrow> mode, written)
                     (fs_files s)\<rparr>))"

definition fs_write :: "path \<Rightarrow> string \<Rightarrow> (unit, io_error) io" where
  "fs_write = open_and_write default_mode"

text \<open>All directories on the way to a path, the path included.\<close>

fun create_dirs :: "path \<Rightarrow> path \<Rightarrow> (unit, io_error) io" where
  "create_dirs done [] s = (Ok (), s)"
| "create_dirs done (n # ns) s =
     (let p = done @ [n]
      in if path_is_dir s p then create_dirs p ns s
         else case refusal (fs_refuses s p) of
           Some why \<Rightarrow> (Err (IoRefused p why), s)
         | None \<Rightarrow>
             if fmlookup (fs_files s) p \<noteq> None then (Err (IoNotDirectory p), s)
             else create_dirs p ns (s\<lparr>fs_dirs := finsert p (fs_dirs s)\<rparr>))"

definition create_dir_all :: "path \<Rightarrow> (unit, io_error) io" where
  "create_dir_all p = create_dirs [] p"

definition below :: "path \<Rightarrow> path \<Rightarrow> bool" where
  "below p q \<longleftrightarrow> take (length p) q = p"

definition remove_dir_all :: "path \<Rightarrow> (unit, io_error) io" where
  "remove_dir_all p s =
     (case refusal (fs_refuses s p) of
        Some why \<Rightarrow> (Err (IoRefused p why), s)
      | None \<Rightarrow>
          if \<not> path_is_dir s p then (Err (IoNotFound p), s)
          else (Ok (),
                s\<lparr>fs_files := fmfilter (\<lambda>q. \<not> below p q) (fs_files s),
                  fs_dirs := ffilter (\<lambda>q. \<not> below p q) (fs_dirs s)\<rparr>))"

definition fs_rename :: "path \<Rightarrow> path \<Rightarrow> (unit, io_error) io" where
  "fs_rename a b s =
     (case refusal (fs_refuses s b) of
        Some why \<Rightarrow> (Err (IoRefused b why), s)
      | None \<Rightarrow>
          (case fmlookup (fs_files s) a of
             None \<Rightarrow> (Err (IoNotFound a), s)
           | Some f \<Rightarrow>
               if path_is_dir s b then (Err (IoIsDirectory b), s)
               else (Ok (), s\<lparr>fs_files := fmupd b f (fmdrop a (fs_files s))\<rparr>)))"

section \<open>What the operations do\<close>

text \<open>A path that takes the whole of a text.\<close>

fun takes :: "denial option \<Rightarrow> string \<Rightarrow> bool" where
  "takes None t = True"
| "takes (Some (Refused why)) t = False"
| "takes (Some (Full n)) t = (length t \<le> n)"

lemma takes_iff: "takes r t \<longleftrightarrow> refusal r = None \<and> \<not> length (taken r t) < length t"
  by (cases "(r, t)" rule: takes.cases) auto

lemma takes_all: "takes r t \<Longrightarrow> taken r t = t"
  by (cases "(r, t)" rule: takes.cases) auto

lemma takes_refusal: "takes r t \<Longrightarrow> refusal r = None"
  by (simp add: takes_iff)

lemma taken_prefix: "prefix (taken r t) t"
  by (cases "(r, t)" rule: taken.cases) (auto simp: take_is_prefix)

lemma open_and_write_ok [ok_iff]:
  "open_and_write mode p t s = (Inr x, s') \<longleftrightarrow>
     takes (fs_refuses s p) t \<and> \<not> path_is_dir s p \<and> path_is_dir s (butlast p)
     \<and> s' = s\<lparr>fs_files := fmupd p
          (case fmlookup (fs_files s) p of Some (m, _) \<Rightarrow> m | None \<Rightarrow> mode, t) (fs_files s)\<rparr>"
  by (auto simp: open_and_write_def Let_def takes_iff takes_all [unfolded takes_iff] split: option.splits)

text \<open>A failed write leaves the file as it was, or a beginning of the text in it.\<close>

lemma open_and_write_err:
  assumes "open_and_write mode p t s = (Inl e, s')"
  shows "s' = s \<or> \<not> path_is_dir s p \<and> path_is_dir s (butlast p)
    \<and> (\<exists>m part. strict_prefix part t \<and> s' = s\<lparr>fs_files := fmupd p (m, part) (fs_files s)\<rparr>)"
proof -
  have "strict_prefix (taken r t) t" if "length (taken r t) < length t" for r
    using that taken_prefix [of r t] by (auto simp: strict_prefix_def)
  then show ?thesis
    using assms by (fastforce simp: open_and_write_def Let_def split: option.split_asm if_split_asm)
qed

lemma open_and_write_frame:
  assumes "open_and_write mode p t s = (r, s')"
  shows "fs_dirs s' = fs_dirs s" "fs_refuses s' = fs_refuses s"
    "q \<noteq> p \<Longrightarrow> fmlookup (fs_files s') q = fmlookup (fs_files s) q"
  using assms by (auto simp: open_and_write_def Let_def split: option.split_asm if_split_asm)

lemma create_dirs_frame:
  "create_dirs d ns s = (r, s') \<Longrightarrow>
     fs_files s' = fs_files s \<and> fs_refuses s' = fs_refuses s \<and> fs_dirs s |\<subseteq>| fs_dirs s'"
  by (induction d ns s arbitrary: r s' rule: create_dirs.induct)
    (fastforce simp: Let_def split: if_split_asm option.split_asm)+

lemma create_dirs_new:
  "create_dirs d ns s = (r, s') \<Longrightarrow> q |\<in>| fs_dirs s' \<Longrightarrow>
     q |\<in>| fs_dirs s \<or> prefix q (d @ ns) \<and> length d < length q \<and> fmlookup (fs_files s) q = None"
  by (induction d ns s arbitrary: r s' rule: create_dirs.induct)
    (fastforce simp: Let_def prefix_def split: if_split_asm option.split_asm)+

lemma create_dirs_made:
  "create_dirs d ns s = (Inr x, s') \<Longrightarrow> ns \<noteq> [] \<Longrightarrow> d @ ns |\<in>| fs_dirs s'"
proof (induction d ns s arbitrary: s' rule: create_dirs.induct)
  case (2 d n ns s)
  show ?case
  proof (cases "ns = []")
    case True
    with "2.prems" show ?thesis
      by (auto simp: Let_def path_is_dir_def split: if_split_asm option.split_asm)
  next
    case False
    with 2 show ?thesis
      by (auto simp: Let_def split: if_split_asm option.split_asm)
  qed
qed simp

lemma create_dirs_made_prefix:
  "create_dirs d ns s = (Inr x, s') \<Longrightarrow> prefix q (d @ ns) \<Longrightarrow> length d < length q \<Longrightarrow> q |\<in>| fs_dirs s'"
proof (induction d ns s arbitrary: s' rule: create_dirs.induct)
  case (1 d s)
  then show ?case by (auto dest: prefix_length_le)
next
  case (2 d n ns s)
  let ?p = "d @ [n]"
  obtain s1 where s1: "create_dirs ?p ns s1 = (Inr x, s')" "?p |\<in>| fs_dirs s1"
    using "2.prems"(1) by (auto simp: Let_def path_is_dir_def split: if_split_asm option.split_asm)
  have p: "?p |\<in>| fs_dirs s'" using create_dirs_frame [OF s1(1)] s1(2) by blast
  show ?case
  proof (cases "length q = Suc (length d)")
    case True
    then have "q = ?p" using "2.prems"(2) by (auto simp: prefix_append prefix_Cons dest: prefix_length_le)
    with p show ?thesis by simp
  next
    case False
    with 2 show ?thesis
      by (auto simp: Let_def split: if_split_asm option.split_asm)
  qed
qed

text \<open>The operations keep to their paths.\<close>

lemma create_dir_all_frame:
  assumes "create_dir_all p s = (r, s')"
  shows "fs_files s' = fs_files s" "fs_refuses s' = fs_refuses s" "fs_dirs s |\<subseteq>| fs_dirs s'"
    "q |\<in>| fs_dirs s' \<Longrightarrow> q |\<in>| fs_dirs s \<or> prefix q p \<and> q \<noteq> []"
  using create_dirs_frame [of "[]" p s r s'] create_dirs_new [of "[]" p s r s' q] assms
  by (auto simp: create_dir_all_def)

lemma create_dir_all_made: "create_dir_all p s = (Inr x, s') \<Longrightarrow> p \<noteq> [] \<Longrightarrow> path_is_dir s' p"
  using create_dirs_made [of "[]" p s x s'] by (simp add: create_dir_all_def path_is_dir_def)

lemma create_dir_all_made_prefix:
  "create_dir_all p s = (Inr x, s') \<Longrightarrow> prefix q p \<Longrightarrow> q \<noteq> [] \<Longrightarrow> path_is_dir s' q"
  using create_dirs_made_prefix [of "[]" p s x s' q] by (simp add: create_dir_all_def path_is_dir_def)

lemma below_refl [simp]: "below p p" "below p (p @ q)"
  by (simp_all add: below_def)

lemma below_iff: "below p q \<longleftrightarrow> prefix p q"
  by (metis append_take_drop_id below_def below_refl(2) prefix_def)

end
