(* ===== verification/KeyFiles.thy ===== *)
theory KeyFiles
  imports Files PublicKeys
begin

text \<open>
  Key pairs and their PEM files, \<open>swiyu-didtool/src/crypto.rs\<close>. A signing key is opaque: its
  public half, its signatures and its PEM encodings are what the crates \<open>ed25519_dalek\<close>,
  \<open>p256\<close> and \<open>pkcs8\<close> say. Generating a key is an argument wherever the code does it.
\<close>

record ('es, 'ps) key_ops =
  es_public :: "'es \<Rightarrow> u8 list"
  es_sign :: "'es \<Rightarrow> u8 list \<Rightarrow> u8 list"
  es_to_pem :: "'es \<Rightarrow> (string, string) result"
  es_from_pem :: "string \<Rightarrow> ('es, string) result"
  es_public_to_pem :: "u8 list \<Rightarrow> (string, string) result"
  es_public_from_pem :: "string \<Rightarrow> (u8 list, string) result"
  ps_public :: "'ps \<Rightarrow> p256_public_key"
  ps_sign :: "'ps \<Rightarrow> u8 list \<Rightarrow> u8 list"
  ps_to_pem :: "'ps \<Rightarrow> (string, string) result"
  ps_from_pem :: "string \<Rightarrow> ('ps, string) result"
  ps_public_to_pem :: "p256_public_key \<Rightarrow> (string, string) result"
  ps_public_from_pem :: "string \<Rightarrow> (p256_public_key, string) result"
  blake3_hex :: "u8 list \<Rightarrow> string"

text \<open>A key that its PEM text gives back.\<close>

definition es_pem_law :: "('es, 'ps) key_ops \<Rightarrow> 'es \<Rightarrow> bool" where
  "es_pem_law ops k \<longleftrightarrow> (\<forall>pem. es_to_pem ops k = Ok pem \<longrightarrow> es_from_pem ops pem = Ok k)"

definition ps_pem_law :: "('es, 'ps) key_ops \<Rightarrow> 'ps \<Rightarrow> bool" where
  "ps_pem_law ops k \<longleftrightarrow> (\<forall>pem. ps_to_pem ops k = Ok pem \<longrightarrow> ps_from_pem ops pem = Ok k)"

datatype crypto_error = CryptoIo io_error | CryptoInvalidKey string

section \<open>Writing\<close>

definition write_private_key_file :: "path \<Rightarrow> string \<Rightarrow> (unit, crypto_error) io" where
  "write_private_key_file p t = io_map_err CryptoIo (open_and_write private_mode p t)"

definition write_private_key_ecdsa ::
  "('es, 'ps) key_ops \<Rightarrow> 'ps \<Rightarrow> path \<Rightarrow> (unit, crypto_error) io" where
  "write_private_key_ecdsa ops k p =
     io_then (io_of (map_err CryptoInvalidKey (ps_to_pem ops k))) (\<lambda>pem. write_private_key_file p pem)"

definition write_public_key_ecdsa ::
  "('es, 'ps) key_ops \<Rightarrow> p256_public_key \<Rightarrow> path \<Rightarrow> (unit, crypto_error) io" where
  "write_public_key_ecdsa ops k p =
     io_then (io_of (map_err CryptoInvalidKey (ps_public_to_pem ops k))) (\<lambda>pem.
       io_map_err CryptoIo (fs_write p pem))"

definition write_private_key_eddsa ::
  "('es, 'ps) key_ops \<Rightarrow> 'es \<Rightarrow> path \<Rightarrow> (unit, crypto_error) io" where
  "write_private_key_eddsa ops k p =
     io_then (io_of (map_err CryptoInvalidKey (es_to_pem ops k))) (\<lambda>pem. write_private_key_file p pem)"

definition write_public_key_eddsa ::
  "('es, 'ps) key_ops \<Rightarrow> u8 list \<Rightarrow> path \<Rightarrow> (unit, crypto_error) io" where
  "write_public_key_eddsa ops k p =
     io_then (io_of (map_err CryptoInvalidKey (es_public_to_pem ops k))) (\<lambda>pem.
       io_map_err CryptoIo (fs_write p pem))"

section \<open>Reading\<close>

definition parse_private_key_ecdsa :: "('es, 'ps) key_ops \<Rightarrow> string \<Rightarrow> ('ps, crypto_error) result" where
  "parse_private_key_ecdsa ops pem = map_err CryptoInvalidKey (ps_from_pem ops pem)"

definition parse_private_key_eddsa :: "('es, 'ps) key_ops \<Rightarrow> string \<Rightarrow> ('es, crypto_error) result" where
  "parse_private_key_eddsa ops pem = map_err CryptoInvalidKey (es_from_pem ops pem)"

definition read_private_key_ecdsa :: "('es, 'ps) key_ops \<Rightarrow> path \<Rightarrow> files \<Rightarrow> ('ps, crypto_error) result" where
  "read_private_key_ecdsa ops p s =
     and_then (map_err CryptoIo (read_to_string p s)) (parse_private_key_ecdsa ops)"

definition read_private_key_eddsa :: "('es, 'ps) key_ops \<Rightarrow> path \<Rightarrow> files \<Rightarrow> ('es, crypto_error) result" where
  "read_private_key_eddsa ops p s =
     and_then (map_err CryptoIo (read_to_string p s)) (parse_private_key_eddsa ops)"

definition read_public_key_ecdsa ::
  "('es, 'ps) key_ops \<Rightarrow> path \<Rightarrow> files \<Rightarrow> (p256_public_key, crypto_error) result" where
  "read_public_key_ecdsa ops p s =
     and_then (map_err CryptoIo (read_to_string p s)) (\<lambda>pem.
       map_err CryptoInvalidKey (ps_public_from_pem ops pem))"

definition read_public_key_eddsa ::
  "('es, 'ps) key_ops \<Rightarrow> path \<Rightarrow> files \<Rightarrow> (u8 list, crypto_error) result" where
  "read_public_key_eddsa ops p s =
     and_then (map_err CryptoIo (read_to_string p s)) (\<lambda>pem.
       map_err CryptoInvalidKey (es_public_from_pem ops pem))"

section \<open>What was written is read\<close>

text \<open>
  The effect of writing one file successfully: the file holds the text, its mode is the one
  it had or the given one, and nothing else changes.
\<close>

definition wrote :: "nat \<Rightarrow> path \<Rightarrow> string \<Rightarrow> files \<Rightarrow> files \<Rightarrow> bool" where
  "wrote mode p t s s' \<longleftrightarrow>
     takes (fs_refuses s p) t \<and> \<not> path_is_dir s p \<and> path_is_dir s (butlast p)
     \<and> s' = s\<lparr>fs_files := fmupd p
          (case fmlookup (fs_files s) p of Some (m, _) \<Rightarrow> m | None \<Rightarrow> mode, t) (fs_files s)\<rparr>"

lemma fs_write_ok [ok_iff]: "fs_write p t s = (Inr x, s') \<longleftrightarrow> wrote default_mode p t s s'"
  by (simp add: fs_write_def open_and_write_ok wrote_def)

lemma write_keys_ok [ok_iff]:
  "write_private_key_file p t s = (Inr x, s') \<longleftrightarrow> wrote private_mode p t s s'"
  "write_private_key_ecdsa ops k p s = (Inr x, s') \<longleftrightarrow>
     (\<exists>pem. ps_to_pem ops k = Ok pem \<and> wrote private_mode p pem s s')"
  "write_private_key_eddsa ops k' p s = (Inr x, s') \<longleftrightarrow>
     (\<exists>pem. es_to_pem ops k' = Ok pem \<and> wrote private_mode p pem s s')"
  "write_public_key_ecdsa ops pk p s = (Inr x, s') \<longleftrightarrow>
     (\<exists>pem. ps_public_to_pem ops pk = Ok pem \<and> wrote default_mode p pem s s')"
  "write_public_key_eddsa ops pk' p s = (Inr x, s') \<longleftrightarrow>
     (\<exists>pem. es_public_to_pem ops pk' = Ok pem \<and> wrote default_mode p pem s s')"
  by (auto simp: write_private_key_file_def write_private_key_ecdsa_def write_private_key_eddsa_def
      write_public_key_ecdsa_def write_public_key_eddsa_def open_and_write_ok wrote_def ok_iff)

lemma wrote_frame:
  assumes "wrote mode p t s s'"
  shows "fs_dirs s' = fs_dirs s" "fs_refuses s' = fs_refuses s"
    "q \<noteq> p \<Longrightarrow> fmlookup (fs_files s') q = fmlookup (fs_files s) q"
    "\<exists>m. fmlookup (fs_files s') p = Some (m, t)"
    "fmlookup (fs_files s) p = None \<Longrightarrow> fmlookup (fs_files s') p = Some (mode, t)"
    "q \<noteq> p \<Longrightarrow> read_to_string q s' = read_to_string q s" "read_to_string p s' = Ok t"
  using assms takes_refusal [of "fs_refuses s p" t]
  by (auto simp: wrote_def read_to_string_def path_is_dir_def split: option.split)

lemma wrote_names:
  assumes "wrote mode p t s s'"
  shows "dir_names q s' = (if q = butlast p \<and> p \<noteq> [] then finsert (last p) (dir_names q s)
      else dir_names q s)"
  using assms by (auto simp: wrote_def dir_names_def)

end
