(* ===== verification/KeyStore.thy ===== *)
theory KeyStore
  imports KeyFiles Did "HOL-Library.List_Lexorder" "HOL-Library.Char_ord"
begin

text \<open>
  The store of key pairs, \<open>swiyu-didtool/src/keystore.rs\<close>: one directory per DID, named by
  the first twelve digits of the hash of the DID, holding \<open>did.txt\<close> and numbered snapshots
  of three key pairs each. The abstract view of a store is a map from DIDs to the list of
  their snapshots; the theorems say that the files implement it.
\<close>

section \<open>Data\<close>

datatype key_role = Authorized | Authentication | Assertion

fun key_role_file_stem :: "key_role \<Rightarrow> string" where
  "key_role_file_stem Authorized = ''authorized''"
| "key_role_file_stem Authentication = ''authentication''"
| "key_role_file_stem Assertion = ''assertion''"

datatype keystore_error =
    KSIo io_error
  | KSAlreadyExists string
  | KSNotFound string
  | KSMismatch string
  | KSHomeDirNotFound
  | KSCrypto crypto_error

record ('es, 'ps) staged_keys =
  sk_authorized :: 'es
  sk_authentication :: 'ps
  sk_assertion :: 'ps

definition staged_from_parts :: "'es \<Rightarrow> 'ps \<Rightarrow> 'ps \<Rightarrow> ('es, 'ps) staged_keys" where
  "staged_from_parts a n x = \<lparr>sk_authorized = a, sk_authentication = n, sk_assertion = x\<rparr>"

definition sign_with_authorized ::
  "('es, 'ps) key_ops \<Rightarrow> ('es, 'ps) staged_keys \<Rightarrow> u8 list \<Rightarrow> u8 list" where
  "sign_with_authorized ops st msg = es_sign ops (sk_authorized st) msg"

definition authorized_key_bytes :: "('es, 'ps) key_ops \<Rightarrow> ('es, 'ps) staged_keys \<Rightarrow> u8 list" where
  "authorized_key_bytes ops st = es_public ops (sk_authorized st)"

definition authentication_key_coords ::
  "('es, 'ps) key_ops \<Rightarrow> ('es, 'ps) staged_keys \<Rightarrow> p256_public_key" where
  "authentication_key_coords ops st = ps_public ops (sk_authentication st)"

definition assertion_key_coords ::
  "('es, 'ps) key_ops \<Rightarrow> ('es, 'ps) staged_keys \<Rightarrow> p256_public_key" where
  "assertion_key_coords ops st = ps_public ops (sk_assertion st)"

record keystore_entry =
  ke_hash :: string
  ke_did :: string
  ke_dir :: path

section \<open>Snapshots of an entry\<close>

text \<open>The number of a snapshot directory: four decimal digits.\<close>

definition version_of_name :: "string \<Rightarrow> u32 option" where
  "version_of_name n =
     (if length n = 4 \<and> list_all (\<lambda>ch. digit_value ch \<noteq> None) n
      then map_option of_nat (read_nat n) else None)"

definition versions_in :: "string fset \<Rightarrow> u32 fset" where
  "versions_in ns = the |`| ffilter (\<lambda>v. v \<noteq> None) (version_of_name |`| ns)"

definition latest_version :: "keystore_entry \<Rightarrow> files \<Rightarrow> (u32, keystore_error) result" where
  "latest_version e s =
     and_then (map_err KSIo (read_dir (ke_dir e) s)) (\<lambda>ns.
       if versions_in ns = {||} then Err (KSNotFound (ke_hash e))
       else Ok (Max (fset (versions_in ns))))"

definition all_versions :: "keystore_entry \<Rightarrow> files \<Rightarrow> (u32 list, keystore_error) result" where
  "all_versions e s =
     and_then (map_err KSIo (read_dir (ke_dir e) s)) (\<lambda>ns.
       if versions_in ns = {||} then Err (KSNotFound (ke_hash e))
       else Ok (sorted_list_of_set (fset (versions_in ns))))"

fun resolve_version :: "keystore_entry \<Rightarrow> u32 option \<Rightarrow> files \<Rightarrow> (u32, keystore_error) result" where
  "resolve_version e (Some v) s = Ok v"
| "resolve_version e None s = latest_version e s"

definition key_file_name :: "key_role \<Rightarrow> bool \<Rightarrow> string" where
  "key_file_name role private =
     key_role_file_stem role @ ''-'' @ (if private then ''private'' else ''public'') @ ''.pem''"

definition key_path :: "keystore_entry \<Rightarrow> u32 \<Rightarrow> key_role \<Rightarrow> bool \<Rightarrow> path" where
  "key_path e v role private = ke_dir e @ [show_pad4 (unat v), key_file_name role private]"

text \<open>The text of a key file that must exist.\<close>

definition read_key_file ::
  "keystore_entry \<Rightarrow> key_role \<Rightarrow> bool \<Rightarrow> u32 option \<Rightarrow> files \<Rightarrow> (string, keystore_error) result" where
  "read_key_file e role private version s =
     and_then (resolve_version e version s) (\<lambda>v.
       let p = key_path e v role private
       in if \<not> path_exists s p then Err (KSNotFound (ke_hash e))
          else map_err KSIo (read_to_string p s))"

definition public_key_pem ::
  "keystore_entry \<Rightarrow> key_role \<Rightarrow> u32 option \<Rightarrow> files \<Rightarrow> (string, keystore_error) result" where
  "public_key_pem e role version s = read_key_file e role False version s"

definition export_public_key ::
  "keystore_entry \<Rightarrow> key_role \<Rightarrow> u32 option \<Rightarrow> path \<Rightarrow> (unit, keystore_error) io" where
  "export_public_key e role version dest =
     io_then (io_look (public_key_pem e role version)) (\<lambda>pem.
       io_map_err KSIo (fs_write dest pem))"

definition export_private_key ::
  "keystore_entry \<Rightarrow> key_role \<Rightarrow> u32 option \<Rightarrow> path \<Rightarrow> (unit, keystore_error) io" where
  "export_private_key e role version dest =
     io_then (io_look (read_key_file e role True version)) (\<lambda>pem.
       io_map_err KSCrypto (write_private_key_file dest pem))"

definition load_eddsa ::
  "('es, 'ps) key_ops \<Rightarrow> keystore_entry \<Rightarrow> key_role \<Rightarrow> u32 option \<Rightarrow> files \<Rightarrow>
   ('es, keystore_error) result" where
  "load_eddsa ops e role version s =
     and_then (read_key_file e role True version s) (\<lambda>pem.
       map_err KSCrypto (parse_private_key_eddsa ops pem))"

definition load_ecdsa ::
  "('es, 'ps) key_ops \<Rightarrow> keystore_entry \<Rightarrow> key_role \<Rightarrow> u32 option \<Rightarrow> files \<Rightarrow>
   ('ps, keystore_error) result" where
  "load_ecdsa ops e role version s =
     and_then (read_key_file e role True version s) (\<lambda>pem.
       map_err KSCrypto (parse_private_key_ecdsa ops pem))"

text \<open>The six files of a snapshot, in the order they are written.\<close>

definition write_snapshot ::
  "('es, 'ps) key_ops \<Rightarrow> ('es, 'ps) staged_keys \<Rightarrow> path \<Rightarrow> (unit, keystore_error) io" where
  "write_snapshot ops st d =
     (let file = (\<lambda>role private. d @ [key_file_name role private])
      in io_map_err KSCrypto
        (io_then (write_private_key_eddsa ops (sk_authorized st) (file Authorized True)) (\<lambda>_.
         io_then (write_public_key_eddsa ops (es_public ops (sk_authorized st)) (file Authorized False)) (\<lambda>_.
         io_then (write_private_key_ecdsa ops (sk_authentication st) (file Authentication True)) (\<lambda>_.
         io_then (write_public_key_ecdsa ops (ps_public ops (sk_authentication st))
                    (file Authentication False)) (\<lambda>_.
         io_then (write_private_key_ecdsa ops (sk_assertion st) (file Assertion True)) (\<lambda>_.
           write_public_key_ecdsa ops (ps_public ops (sk_assertion st)) (file Assertion False))))))))"

definition add_version ::
  "('es, 'ps) key_ops \<Rightarrow> keystore_entry \<Rightarrow> ('es, 'ps) staged_keys \<Rightarrow> (u32, keystore_error) io" where
  "add_version ops e st =
     io_then (io_look (latest_version e)) (\<lambda>latest.
       let v = latest + 1; d = ke_dir e @ [show_pad4 (unat v)]
       in io_then (io_map_err KSIo (create_dir_all d)) (\<lambda>_.
          io_then (write_snapshot ops st d) (\<lambda>_. io_ok v)))"

section \<open>The store\<close>

definition did_to_hash :: "('es, 'ps) key_ops \<Rightarrow> string \<Rightarrow> string" where
  "did_to_hash ops d = take 12 (blake3_hex ops (as_bytes d))"

definition store_open :: "path \<Rightarrow> files \<Rightarrow> (path, keystore_error) result" where
  "store_open root s = (if \<not> path_is_dir s root then Err (KSIo (IoNotFound root)) else Ok root)"

definition store_open_or_create :: "path \<Rightarrow> (path, keystore_error) io" where
  "store_open_or_create root = io_then (io_map_err KSIo (create_dir_all root)) (\<lambda>_. io_ok root)"

definition store_open_default :: "path option \<Rightarrow> (path, keystore_error) io" where
  "store_open_default home =
     io_then (io_of (ok_or home KSHomeDirNotFound)) (\<lambda>h.
       store_open_or_create (h @ [''.didtool'', ''keys'']))"

definition store_commit ::
  "('es, 'ps) key_ops \<Rightarrow> path \<Rightarrow> ('es, 'ps) staged_keys \<Rightarrow> did \<Rightarrow> (keystore_entry, keystore_error) io" where
  "store_commit ops root st d =
     (let did_str = did_to_string d; hash = did_to_hash ops did_str; entry_dir = root @ [hash];
          snapshot_dir = entry_dir @ [''0001'']
      in io_then (io_look (\<lambda>s. if path_exists s entry_dir then Err (KSAlreadyExists hash) else Ok ())) (\<lambda>_.
         io_then (io_map_err KSIo (create_dir_all snapshot_dir)) (\<lambda>_.
         io_then (write_snapshot ops st snapshot_dir) (\<lambda>_.
         io_then (io_map_err KSIo (fs_write (entry_dir @ [''did.txt'']) did_str)) (\<lambda>_.
           io_ok \<lparr>ke_hash = hash, ke_did = did_str, ke_dir = entry_dir\<rparr>)))))"

definition store_lookup ::
  "('es, 'ps) key_ops \<Rightarrow> path \<Rightarrow> did \<Rightarrow> files \<Rightarrow> (keystore_entry option, keystore_error) result" where
  "store_lookup ops root d s =
     (let did_str = did_to_string d; hash = did_to_hash ops did_str; entry_dir = root @ [hash]
      in if \<not> path_exists s entry_dir then Ok None
         else
           and_then (map_err KSIo (read_to_string (entry_dir @ [''did.txt'']) s)) (\<lambda>stored.
             if trim stored \<noteq> did_str then Err (KSMismatch hash)
             else Ok (Some \<lparr>ke_hash = hash, ke_did = did_str, ke_dir = entry_dir\<rparr>)))"

definition store_lookup_by_hash ::
  "path \<Rightarrow> string \<Rightarrow> files \<Rightarrow> (keystore_entry option, keystore_error) result" where
  "store_lookup_by_hash root hash s =
     (let entry_dir = root @ [hash]
      in if \<not> path_exists s entry_dir then Ok None
         else
           and_then (map_err KSIo (read_to_string (entry_dir @ [''did.txt'']) s)) (\<lambda>stored.
             Ok (Some \<lparr>ke_hash = hash, ke_did = trim stored, ke_dir = entry_dir\<rparr>)))"

definition store_remove :: "('es, 'ps) key_ops \<Rightarrow> path \<Rightarrow> did \<Rightarrow> (unit, keystore_error) io" where
  "store_remove ops root d =
     (let hash = did_to_hash ops (did_to_string d); entry_dir = root @ [hash]
      in io_then (io_look (\<lambda>s. if \<not> path_exists s entry_dir then Err (KSNotFound hash) else Ok ())) (\<lambda>_.
           io_map_err KSIo (remove_dir_all entry_dir)))"

definition store_exists :: "('es, 'ps) key_ops \<Rightarrow> path \<Rightarrow> did \<Rightarrow> files \<Rightarrow> bool" where
  "store_exists ops root d s = path_exists s (root @ [did_to_hash ops (did_to_string d)])"

text \<open>The entries, sorted by hash (the names in a directory are distinct).\<close>

definition list_entry :: "path \<Rightarrow> files \<Rightarrow> string \<Rightarrow> (string \<times> string) option" where
  "list_entry root s n =
     (if \<not> path_is_dir s (root @ [n]) then None
      else map_option (\<lambda>t. (n, trim t)) (res_ok (read_to_string (root @ [n, ''did.txt'']) s)))"

definition store_list :: "path \<Rightarrow> files \<Rightarrow> ((string \<times> string) list, keystore_error) result" where
  "store_list root s =
     and_then (map_err KSIo (read_dir root s)) (\<lambda>ns.
       Ok (List.map_filter (list_entry root s)
            (sorted_list_of_set (fset ns))))"

section \<open>Names of snapshots\<close>

lemma length_show_nat_le: "n < 10000 \<Longrightarrow> length (show_nat n) \<le> 4"
  "10000 \<le> n \<Longrightarrow> 4 < length (show_nat n)"
proof -
  have len: "length (show_nat n) = (if n < 10 then 1 else Suc (length (show_nat (n div 10))))" for n
    by (simp add: show_nat.simps [of n])
  show "n < 10000 \<Longrightarrow> length (show_nat n) \<le> 4"
    by (simp add: len div_mult2_eq [symmetric])
  show "4 < length (show_nat n)" if "10000 \<le> n"
  proof -
    have "10 \<le> n" "10 \<le> n div 10" "10 \<le> n div 10 div 10" "10 \<le> n div 10 div 10 div 10"
      using that by (simp_all add: div_mult2_eq [symmetric] less_eq_div_iff_mult_less_eq)
    then show ?thesis
      by (simp add: len [of n] len [of "n div 10"] len [of "n div 10 div 10"]
          len [of "n div 10 div 10 div 10"])
  qed
qed

lemma length_show_pad4: "length (show_pad4 n) = 4 \<longleftrightarrow> n < 10000"
  using length_show_nat_le [of n] by (cases "n < 10000") (auto simp: show_pad4_def)

lemma read_zeros: "read_digits 0 (replicate k (CHR ''0'') @ t) = read_digits 0 t"
  by (induction k) (auto simp: digit_value_def)

lemma read_show_pad4 [simp]: "read_nat (show_pad4 n) = Some n"
  by (simp add: read_nat_def show_pad4_def read_zeros read_digits_show)

lemma show_pad4_inj [simp]: "show_pad4 m = show_pad4 n \<longleftrightarrow> m = n"
  by (metis option.inject read_show_pad4)

lemma version_of_show_pad4:
  "version_of_name (show_pad4 n) = (if n < 10000 then Some (of_nat n) else None)"
proof -
  have "digit_value ch \<noteq> None" if "ch \<in> set (show_pad4 n)" for ch
    using that show_nat_digits [of ch n] by (auto simp: show_pad4_def digit_value_def split: if_splits)
  then show ?thesis
    by (auto simp: version_of_name_def length_show_pad4 list_all_iff)
qed

lemma versions_in_iff: "v |\<in>| versions_in ns \<longleftrightarrow> (\<exists>n. n |\<in>| ns \<and> version_of_name n = Some v)"
proof
  assume "\<exists>n. n |\<in>| ns \<and> version_of_name n = Some v"
  then obtain n where "n |\<in>| ns" "version_of_name n = Some v" by blast
  then have "Some v |\<in>| ffilter (\<lambda>v. v \<noteq> None) (version_of_name |`| ns)" by force
  then show "v |\<in>| versions_in ns" unfolding versions_in_def by force
qed (auto simp: versions_in_def)

lemma versions_in_insert:
  "versions_in (finsert n ns) =
     (case version_of_name n of Some v \<Rightarrow> finsert v (versions_in ns) | None \<Rightarrow> versions_in ns)"
  by (rule fset_eqI) (auto simp: versions_in_iff split: option.split)

lemma version_of_did_txt [simp]: "version_of_name ''did.txt'' = None"
  by (simp add: version_of_name_def)

lemma first_version [simp]: "version_of_name ''0001'' = Some 1"
  by (simp add: version_of_name_def digit_value_def read_nat_def)

lemma show_pad4_one: "show_pad4 1 = ''0001''"
  by (simp add: show_pad4_def show_nat.simps digit_char_def eval_nat_numeral)

lemma max_version:
  assumes "0 < n" "n < 10000" "fset vs = of_nat ` {1..n}"
  shows "vs \<noteq> {||}" "Max (fset vs) = (of_nat n :: u32)"
proof -
  have u: "unat (of_nat k :: u32) = k" if "k \<le> n" for k
    using that assms(2) by (intro unat_of_nat_small) simp
  show "vs \<noteq> {||}" using assms by auto
  show "Max (fset vs) = (of_nat n :: u32)"
  proof (rule Max_eqI)
    fix v assume "v \<in> fset vs"
    then obtain k where "v = of_nat k" "k \<le> n" using assms(3) by auto
    with u [of k] u [of n] show "v \<le> of_nat n" by (simp add: word_le_nat_alt)
  qed (use assms in auto)
qed

end
