(* ===== verification/KeyVault.thy ===== *)
theory KeyVault
  imports KeyStore
begin

text \<open>
  The abstract view of the key store: a map from the text of a DID to the list of its key
  sets, oldest first. \<open>represents\<close> relates the files under the root of a store to such a map,
  and the operations of \<open>swiyu-didtool/src/keystore.rs\<close> are shown to act on it as insertion,
  append, lookup and removal.
\<close>

section \<open>What an operation touches\<close>

definition same_at :: "files \<Rightarrow> files \<Rightarrow> path \<Rightarrow> bool" where
  "same_at s s' q \<longleftrightarrow>
     fmlookup (fs_files s') q = fmlookup (fs_files s) q \<and> (q |\<in>| fs_dirs s' \<longleftrightarrow> q |\<in>| fs_dirs s)"

text \<open>Two states that agree everywhere but at a path, above it and below it.\<close>

definition same_beside :: "path \<Rightarrow> files \<Rightarrow> files \<Rightarrow> bool" where
  "same_beside p s s' \<longleftrightarrow> fs_refuses s' = fs_refuses s
     \<and> (\<forall>q. \<not> prefix p q \<and> \<not> prefix q p \<longrightarrow> same_at s s' q)"

interpretation beside: state_preorder "same_beside p" for p
  by unfold_locales (auto simp: same_beside_def same_at_def)

definition touches :: "path \<Rightarrow> ('a, 'e) io \<Rightarrow> bool" where
  "touches p m \<longleftrightarrow>
     (\<forall>s r s'. m s = (r, s') \<longrightarrow> fs_refuses s' = fs_refuses s
        \<and> (\<forall>q. \<not> prefix p q \<and> \<not> prefix q p \<longrightarrow> same_at s s' q))"

named_theorems touches_intro "computations that change nothing beside a path"

lemma touches_moves: "touches p m \<longleftrightarrow> moves (same_beside p) m"
  by (simp add: touches_def moves_def same_beside_def) (metis prod.collapse snd_conv)

lemmas touches_basic [touches_intro] = beside.basic [folded touches_moves]
lemmas touches_then [touches_intro] = beside.sequence [folded touches_moves]
lemmas touches_map_err [touches_intro] = beside.mapped [folded touches_moves]

lemma touches_write [touches_intro]: "prefix p q \<Longrightarrow> touches p (open_and_write mode q t)"
  unfolding touches_def same_at_def using open_and_write_frame by metis

lemma touches_writes [touches_intro]:
  assumes "prefix p q"
  shows "touches p (fs_write q t)" "touches p (write_private_key_file q t)"
    "touches p (write_private_key_ecdsa ops k q)" "touches p (write_private_key_eddsa ops k' q)"
    "touches p (write_public_key_ecdsa ops pk q)" "touches p (write_public_key_eddsa ops pk' q)"
  unfolding fs_write_def write_private_key_file_def write_private_key_ecdsa_def
    write_private_key_eddsa_def write_public_key_ecdsa_def write_public_key_eddsa_def
  by (intro touches_intro assms)+

lemma touches_create_dir_all [touches_intro]:
  assumes "prefix p q"
  shows "touches p (create_dir_all q)"
  unfolding touches_def same_at_def
proof (intro allI impI conjI)
  fix s r s' x assume run: "create_dir_all q s = (r, s')"
  note frame = create_dir_all_frame [OF run]
  show "fs_refuses s' = fs_refuses s" by (rule frame(2))
  assume "\<not> prefix p x \<and> \<not> prefix x p"
  then have "\<not> prefix x q" using assms by (metis prefix_same_cases)
  then show "x |\<in>| fs_dirs s' \<longleftrightarrow> x |\<in>| fs_dirs s"
    using frame(3) frame(4) [of x] by blast
qed (simp add: create_dir_all_frame(1))

lemma touches_remove [touches_intro]: "touches p (remove_dir_all p)"
  by (auto simp: touches_def remove_dir_all_def same_at_def below_iff split: option.splits if_splits)

lemma touches_snapshot [touches_intro]: "prefix p d \<Longrightarrow> touches p (write_snapshot ops st d)"
  unfolding write_snapshot_def Let_def by (intro touches_intro) simp_all

lemma touches_add_version: "touches (ke_dir e) (add_version ops e st)"
  unfolding add_version_def Let_def by (intro touches_intro) simp_all

lemma touches_commit: "touches (root @ [did_to_hash ops (did_to_string d)]) (store_commit ops root st d)"
  unfolding store_commit_def Let_def by (intro touches_intro) simp_all

lemma touches_store_remove:
  "touches (root @ [did_to_hash ops (did_to_string d)]) (store_remove ops root d)"
  unfolding store_remove_def Let_def by (intro touches_intro)

section \<open>What an entry holds\<close>

text \<open>The three private keys of a version.\<close>

definition snapshot_at ::
  "('es, 'ps) key_ops \<Rightarrow> keystore_entry \<Rightarrow> u32 \<Rightarrow> files \<Rightarrow> (('es, 'ps) staged_keys, keystore_error) result" where
  "snapshot_at ops e v s =
     and_then (load_eddsa ops e Authorized (Some v) s) (\<lambda>a.
     and_then (load_ecdsa ops e Authentication (Some v) s) (\<lambda>n.
     and_then (load_ecdsa ops e Assertion (Some v) s) (\<lambda>x.
       Ok (staged_from_parts a n x))))"

definition entry_holds ::
  "('es, 'ps) key_ops \<Rightarrow> keystore_entry \<Rightarrow> ('es, 'ps) staged_keys list \<Rightarrow> files \<Rightarrow> bool" where
  "entry_holds ops e sts s \<longleftrightarrow>
     path_is_dir s (ke_dir e)
   \<and> (\<forall>q. prefix (ke_dir e) q \<longrightarrow> fs_refuses s q = None)
   \<and> read_to_string (ke_dir e @ [''did.txt'']) s = Ok (ke_did e)
   \<and> sts \<noteq> [] \<and> length sts < 10000
   \<and> fset (versions_in (dir_names (ke_dir e) s)) = of_nat ` {1..length sts}
   \<and> (\<forall>i < length sts. snapshot_at ops e (of_nat (Suc i)) s = Ok (sts ! i))"

lemma entry_holds_latest:
  assumes "entry_holds ops e sts s"
  shows "latest_version e s = Ok (of_nat (length sts))"
    "all_versions e s = Ok (map of_nat [1..<Suc (length sts)])"
proof -
  let ?n = "length sts" and ?vs = "versions_in (dir_names (ke_dir e) s)"
  have n: "0 < ?n" "?n < 10000" and vs: "fset ?vs = of_nat ` {1..?n}"
    using assms by (auto simp: entry_holds_def)
  have dir: "read_dir (ke_dir e) s = Ok (dir_names (ke_dir e) s)"
    using assms by (simp add: entry_holds_def read_dir_ok)
  note max = max_version [OF n vs]
  show "latest_version e s = Ok (of_nat ?n)" by (simp add: latest_version_def dir max)
  have mono: "sorted (map (of_nat :: nat \<Rightarrow> u32) [1..<Suc ?n])" "distinct (map (of_nat :: nat \<Rightarrow> u32) [1..<Suc ?n])"
  proof -
    have u: "unat (of_nat k :: u32) = k" if "k \<le> ?n" for k
      using that n(2) by (intro unat_of_nat_small) simp
    show "sorted (map (of_nat :: nat \<Rightarrow> u32) [1..<Suc ?n])"
      by (auto simp: sorted_iff_nth_mono word_le_nat_alt u simp del: upt_Suc of_nat_Suc)
    have "inj_on (of_nat :: nat \<Rightarrow> u32) {1..<Suc ?n}"
      by (rule inj_on_inverseI [where g = unat]) (simp add: u)
    then show "distinct (map (of_nat :: nat \<Rightarrow> u32) [1..<Suc ?n])"
      by (simp add: distinct_map del: upt_Suc)
  qed
  have "sorted_list_of_set (fset ?vs) = map of_nat [1..<Suc ?n]"
  proof -
    have "set (map of_nat [1..<Suc ?n]) = fset ?vs" by (simp only: vs set_map set_upt atLeastLessThanSuc_atLeastAtMost)
    then show ?thesis
      using sorted_list_of_set.idem_if_sorted_distinct [OF mono] by metis
  qed
  then show "all_versions e s = Ok (map of_nat [1..<Suc ?n])"
    by (simp add: all_versions_def dir max(1))
qed

lemma entry_holds_cong:
  assumes "\<And>q. prefix (ke_dir e) q \<Longrightarrow> same_at s s' q" "fs_refuses s' = fs_refuses s"
    "entry_holds ops e sts s"
  shows "entry_holds ops e sts s'"
proof -
  have read: "read_to_string q s' = read_to_string q s" "path_exists s' q = path_exists s q"
    if "prefix (ke_dir e) q" for q
    using assms(1) [OF that] assms(2)
    by (simp_all add: read_to_string_def path_exists_def path_is_dir_def same_at_def split: option.split)
  have key: "read_key_file e role b (Some v) s' = read_key_file e role b (Some v) s"
    for role b v
    by (simp add: read_key_file_def key_path_def Let_def read)
  have snap: "snapshot_at ops e v s' = snapshot_at ops e v s" for v
    by (simp add: snapshot_at_def load_eddsa_def load_ecdsa_def key)
  have "dir_names (ke_dir e) s' = dir_names (ke_dir e) s"
    using assms(1) by (intro fset_eqI) (auto simp: dir_names_def child_names_iff same_at_def fmlookup_dom_iff)
  with assms read snap show ?thesis
    by (simp add: entry_holds_def path_is_dir_def same_at_def)
qed

lemma entry_untouched:
  assumes "touches (root @ [h]) m" "m s = (r, s')" "h' \<noteq> h" "ke_dir e = root @ [h']"
    "entry_holds ops e sts s"
  shows "entry_holds ops e sts s'"
proof (rule entry_holds_cong [OF _ _ assms(5)])
  note t = assms(1) [unfolded touches_def, rule_format, OF assms(2)]
  show "fs_refuses s' = fs_refuses s" using t by blast
  fix q assume "prefix (ke_dir e) q"
  then have "\<not> prefix (root @ [h]) q \<and> \<not> prefix q (root @ [h])"
    using assms(3,4) by (auto simp: prefix_def)
  with t show "same_at s s' q" by blast
qed

section \<open>Writing a snapshot\<close>

text \<open>Six files, and nothing else; the private ones read back as what was encoded.\<close>

lemma write_snapshot_ok:
  assumes "write_snapshot ops st d s = (Inr x, s')"
  shows "\<exists>pa pn px. es_to_pem ops (sk_authorized st) = Ok pa
      \<and> ps_to_pem ops (sk_authentication st) = Ok pn \<and> ps_to_pem ops (sk_assertion st) = Ok px
      \<and> (\<exists>m. fmlookup (fs_files s') (d @ [key_file_name Authorized True]) = Some (m, pa))
      \<and> (\<exists>m. fmlookup (fs_files s') (d @ [key_file_name Authentication True]) = Some (m, pn))
      \<and> (\<exists>m. fmlookup (fs_files s') (d @ [key_file_name Assertion True]) = Some (m, px))"
    "fs_dirs s' = fs_dirs s" "fs_refuses s' = fs_refuses s"
    "butlast q \<noteq> d \<Longrightarrow> fmlookup (fs_files s') q = fmlookup (fs_files s) q"
    "q \<noteq> d \<Longrightarrow> dir_names q s' = dir_names q s"
proof -
  obtain pa ga pn gn px gx s1 s2 s3 s4 s5 where
    pem: "es_to_pem ops (sk_authorized st) = Ok pa" "ps_to_pem ops (sk_authentication st) = Ok pn"
      "ps_to_pem ops (sk_assertion st) = Ok px"
    and w: "wrote private_mode (d @ [key_file_name Authorized True]) pa s s1"
      "wrote default_mode (d @ [key_file_name Authorized False]) ga s1 s2"
      "wrote private_mode (d @ [key_file_name Authentication True]) pn s2 s3"
      "wrote default_mode (d @ [key_file_name Authentication False]) gn s3 s4"
      "wrote private_mode (d @ [key_file_name Assertion True]) px s4 s5"
      "wrote default_mode (d @ [key_file_name Assertion False]) gx s5 s'"
    using assms by (auto simp: write_snapshot_def Let_def ok_iff)
  note frames = wrote_frame [OF w(1)] wrote_frame [OF w(2)] wrote_frame [OF w(3)]
    wrote_frame [OF w(4)] wrote_frame [OF w(5)] wrote_frame [OF w(6)]
  have names: "key_file_name r b = key_file_name r' b' \<longleftrightarrow> r = r' \<and> b = b'" for r r' b b'
    by (cases r; cases r'; cases b; cases b') (simp_all add: key_file_name_def)
  show "\<exists>pa pn px. es_to_pem ops (sk_authorized st) = Ok pa
      \<and> ps_to_pem ops (sk_authentication st) = Ok pn \<and> ps_to_pem ops (sk_assertion st) = Ok px
      \<and> (\<exists>m. fmlookup (fs_files s') (d @ [key_file_name Authorized True]) = Some (m, pa))
      \<and> (\<exists>m. fmlookup (fs_files s') (d @ [key_file_name Authentication True]) = Some (m, pn))
      \<and> (\<exists>m. fmlookup (fs_files s') (d @ [key_file_name Assertion True]) = Some (m, px))"
    using pem frames(4,18,32) by (simp add: names frames(3,10,17,24,31,38))
  show "fs_dirs s' = fs_dirs s" "fs_refuses s' = fs_refuses s" by (simp_all add: frames)
  show "butlast q \<noteq> d \<Longrightarrow> fmlookup (fs_files s') q = fmlookup (fs_files s) q"
    by (metis butlast_snoc frames(3,10,17,24,31,38))
  show "q \<noteq> d \<Longrightarrow> dir_names q s' = dir_names q s"
    by (simp add: wrote_names [OF w(1)] wrote_names [OF w(2)] wrote_names [OF w(3)]
        wrote_names [OF w(4)] wrote_names [OF w(5)] wrote_names [OF w(6)])
qed

section \<open>One entry\<close>

lemma load_ok:
  "load_eddsa ops e role (Some v) s = Inr k \<longleftrightarrow>
     refusal (fs_refuses s (key_path e v role True)) = None
     \<and> (\<exists>m pem. fmlookup (fs_files s) (key_path e v role True) = Some (m, pem) \<and> es_from_pem ops pem = Ok k)"
  "load_ecdsa ops e role (Some v) s = Inr k' \<longleftrightarrow>
     refusal (fs_refuses s (key_path e v role True)) = None
     \<and> (\<exists>m pem. fmlookup (fs_files s) (key_path e v role True) = Some (m, pem) \<and> ps_from_pem ops pem = Ok k')"
  by (auto simp: load_eddsa_def load_ecdsa_def read_key_file_def Let_def ok_iff path_exists_def
      parse_private_key_eddsa_def parse_private_key_ecdsa_def)

definition staged_pem_law :: "('es, 'ps) key_ops \<Rightarrow> ('es, 'ps) staged_keys \<Rightarrow> bool" where
  "staged_pem_law ops st \<longleftrightarrow> es_pem_law ops (sk_authorized st)
     \<and> ps_pem_law ops (sk_authentication st) \<and> ps_pem_law ops (sk_assertion st)"

lemma snapshot_written:
  assumes "write_snapshot ops st d s = (Inr x, s')" "staged_pem_law ops st"
    "d = ke_dir e @ [show_pad4 (unat v)]" "\<forall>q. prefix d q \<longrightarrow> fs_refuses s q = None"
  shows "snapshot_at ops e v s' = Ok st"
proof -
  have path: "key_path e v role True = d @ [key_file_name role True]" for role
    by (simp add: key_path_def assms(3))
  have quiet: "fs_refuses s' (d @ [n]) = None" for n
    using assms(4) write_snapshot_ok(2,3) [OF assms(1)] by simp
  have "load_eddsa ops e Authorized (Some v) s' = Ok (sk_authorized st)"
    "load_ecdsa ops e Authentication (Some v) s' = Ok (sk_authentication st)"
    "load_ecdsa ops e Assertion (Some v) s' = Ok (sk_assertion st)"
    using write_snapshot_ok(1) [OF assms(1)] assms(2)
    by (auto simp: load_ok path quiet staged_pem_law_def es_pem_law_def ps_pem_law_def)
  then show ?thesis by (simp add: snapshot_at_def staged_from_parts_def)
qed

lemma snapshot_kept:
  assumes "snapshot_at ops e v s = Ok st" "fs_refuses s' = fs_refuses s"
    "\<And>role. fmlookup (fs_files s') (key_path e v role True) = fmlookup (fs_files s) (key_path e v role True)"
  shows "snapshot_at ops e v s' = Ok st"
  using assms by (auto simp: snapshot_at_def ok_iff load_ok)

lemma names_of_new_dir:
  assumes "create_dir_all (p @ [n]) s = (Inr x, s')"
  shows "dir_names p s' = finsert n (dir_names p s)"
proof (rule fset_eqI)
  fix k
  note f = create_dir_all_frame [OF assms]
  have "path_is_dir s' (p @ [n])" by (rule create_dir_all_made [OF assms]) simp
  moreover have "p @ [k] |\<in>| fs_dirs s' \<longrightarrow> p @ [k] |\<in>| fs_dirs s \<or> k = n"
    using f(4) [of "p @ [k]"] by (auto simp: prefix_def)
  ultimately show "k |\<in>| dir_names p s' \<longleftrightarrow> k |\<in>| finsert n (dir_names p s)"
    using f(1,3) by (auto simp: dir_names_def child_names_iff path_is_dir_def fmlookup_dom_iff)
qed

lemma add_version_holds:
  assumes holds: "entry_holds ops e sts s" and run: "add_version ops e st s = (Inr v, s')"
    and law: "staged_pem_law ops st" and room: "Suc (length sts) < 10000"
  shows "v = of_nat (Suc (length sts))" "entry_holds ops e (sts @ [st]) s'"
proof -
  let ?n = "length sts" and ?p = "ke_dir e"
  have u: "unat (of_nat k :: u32) = k" if "k < 10000" for k
    using that by (intro unat_of_nat_small) simp
  have v: "(of_nat ?n :: u32) + 1 = of_nat (Suc ?n)" by simp
  let ?d = "?p @ [show_pad4 (Suc ?n)]"
  obtain s1 where run1: "create_dir_all ?d s = (Ok (), s1)" "write_snapshot ops st ?d s1 = (Ok (), s')"
      "v = of_nat (Suc ?n)"
    using run by (auto simp: add_version_def entry_holds_latest [OF holds] ok_iff Let_def v u [OF room]
        simp del: of_nat_Suc)
  note f = create_dir_all_frame [OF run1(1)] and g = write_snapshot_ok [OF run1(2)]
  show "v = of_nat (Suc ?n)" by (rule run1(3))
  have quiet: "\<forall>q. prefix ?p q \<longrightarrow> fs_refuses s' q = None"
    using holds f(2) g(3) by (simp add: entry_holds_def)
  have names: "dir_names ?p s' = finsert (show_pad4 (Suc ?n)) (dir_names ?p s)"
    using names_of_new_dir [OF run1(1)] g(5) [of ?p] by simp
  have new: "snapshot_at ops e (of_nat (Suc ?n)) s' = Ok st"
  proof (rule snapshot_written [OF run1(2) law])
    show "?d = ke_dir e @ [show_pad4 (unat (of_nat (Suc ?n) :: u32))]"
      using u [OF room] by (simp del: of_nat_Suc)
    show "\<forall>q. prefix ?d q \<longrightarrow> fs_refuses s1 q = None"
      using quiet g(3) by (auto dest: append_prefixD)
  qed
  have old: "snapshot_at ops e (of_nat (Suc i)) s' = Ok (sts ! i)" if i: "i < ?n" for i
  proof (rule snapshot_kept)
    show "snapshot_at ops e (of_nat (Suc i)) s = Ok (sts ! i)"
      using holds i by (simp add: entry_holds_def del: of_nat_Suc)
    fix role
    have "unat (of_nat (Suc i) :: u32) = Suc i" using i room by (intro u) simp
    then have "butlast (key_path e (of_nat (Suc i)) role True) \<noteq> ?d"
      using i by (simp add: key_path_def butlast_append del: of_nat_Suc)
    then show "fmlookup (fs_files s') (key_path e (of_nat (Suc i)) role True)
        = fmlookup (fs_files s) (key_path e (of_nat (Suc i)) role True)"
      using g(4) f(1) by simp
  qed (use f(2) g(3) in simp)
  have did: "read_to_string (?p @ [''did.txt'']) s' = Ok (ke_did e)"
  proof -
    have "fmlookup (fs_files s') (?p @ [''did.txt'']) = fmlookup (fs_files s) (?p @ [''did.txt''])"
      using g(4) [of "?p @ [''did.txt'']"] f(1) by simp
    then show ?thesis using holds quiet by (simp add: entry_holds_def read_to_string_ok)
  qed
  have dir: "path_is_dir s' ?p" using holds f(3) g(2) by (auto simp: entry_holds_def path_is_dir_def)
  have "fset (versions_in (dir_names ?p s')) = of_nat ` {1..length (sts @ [st])}"
    using holds room
    by (simp add: names versions_in_insert version_of_show_pad4 entry_holds_def atLeastAtMostSuc_conv
        del: of_nat_Suc)
  moreover have "snapshot_at ops e (of_nat (Suc i)) s' = Ok ((sts @ [st]) ! i)"
    if "i < length (sts @ [st])" for i
    using that new old [of i] by (cases "i < ?n") (auto simp: nth_append less_Suc_eq simp del: of_nat_Suc)
  ultimately show "entry_holds ops e (sts @ [st]) s'"
    using dir quiet did room by (simp add: entry_holds_def del: of_nat_Suc)
qed

definition entry_of :: "('es, 'ps) key_ops \<Rightarrow> path \<Rightarrow> string \<Rightarrow> keystore_entry" where
  "entry_of ops root d =
     \<lparr>ke_hash = did_to_hash ops d, ke_did = d, ke_dir = root @ [did_to_hash ops d]\<rparr>"

lemma store_commit_holds:
  assumes run: "store_commit ops root st d s = (Inr e, s')" and law: "staged_pem_law ops st"
    and quiet: "\<forall>q. prefix root q \<longrightarrow> fs_refuses s q = None"
    and closed: "\<And>h x. path_exists s (root @ h # x) \<Longrightarrow> path_exists s (root @ [h])"
  shows "e = entry_of ops root (did_to_string d)" "entry_holds ops e [st] s'"
    "\<not> path_exists s (ke_dir e)"
proof -
  let ?t = "did_to_string d" let ?h = "did_to_hash ops ?t" let ?p = "root @ [?h]"
  let ?sd = "?p @ [''0001'']"
  obtain s1 s2 where *: "\<not> path_exists s ?p" "create_dir_all ?sd s = (Ok (), s1)"
      "write_snapshot ops st ?sd s1 = (Ok (), s2)"
      "wrote default_mode (?p @ [''did.txt'']) ?t s2 s'" "e = entry_of ops root ?t"
    using run by (auto simp: store_commit_def Let_def ok_iff entry_of_def split: if_split_asm)
  note f = create_dir_all_frame [OF *(2)] and g = write_snapshot_ok [OF *(3)] and w = wrote_frame [OF *(4)]
  show e: "e = entry_of ops root ?t" by (rule *(5))
  then have dir: "ke_dir e = ?p" and name: "ke_did e = ?t" by (simp_all add: entry_of_def)
  show "\<not> path_exists s (ke_dir e)" using *(1) by (simp add: dir)
  have quiet': "fs_refuses s' q = None" "fs_refuses s1 q = None" if "prefix ?p q" for q
    using quiet that f(2) g(3) w(2) by (auto dest: append_prefixD)
  have empty: "dir_names ?p s = {||}"
  proof (rule fset_eqI)
    fix n
    have "\<not> path_exists s (?p @ [n])" using closed [of ?h "[n]"] *(1) by auto
    then show "n |\<in>| dir_names ?p s \<longleftrightarrow> n |\<in>| {||}"
      by (auto simp: dir_names_def child_names_iff path_exists_def path_is_dir_def fmlookup_dom_iff)
  qed
  have names: "dir_names ?p s' = {|''did.txt'', ''0001''|}"
    using wrote_names [OF *(4), of ?p] g(5) [of ?p] names_of_new_dir [of ?p "''0001''", OF *(2)] empty
    by (simp add: butlast_append)
  have "snapshot_at ops e 1 s2 = Ok st"
  proof (rule snapshot_written [OF *(3) law])
    show "?sd = ke_dir e @ [show_pad4 (unat (1 :: u32))]" by (simp add: dir show_pad4_one [unfolded One_nat_def])
    show "\<forall>q. prefix ?sd q \<longrightarrow> fs_refuses s1 q = None"
      using quiet'(2) by (metis append_prefixD)
  qed
  then have snap: "snapshot_at ops e 1 s' = Ok st"
    by (rule snapshot_kept) (simp_all add: w(2) w(3) key_path_def dir)
  have "path_is_dir s2 ?p" using *(4) by (simp add: wrote_def butlast_append)
  then have "path_is_dir s' ?p" using w(1) by (simp add: path_is_dir_def)
  with quiet' names snap w(7) show "entry_holds ops e [st] s'"
    by (simp add: entry_holds_def dir name versions_in_insert) (simp add: versions_in_def)
qed

section \<open>The whole store\<close>

type_synonym ('es, 'ps) vault = "string \<rightharpoonup> ('es, 'ps) staged_keys list"

definition store_shape :: "('es, 'ps) key_ops \<Rightarrow> path \<Rightarrow> files \<Rightarrow> ('es, 'ps) vault \<Rightarrow> bool" where
  "store_shape ops root s m \<longleftrightarrow>
     inj_on (did_to_hash ops) (dom m)
   \<and> (\<forall>h. path_exists s (root @ [h]) \<longleftrightarrow> h \<in> did_to_hash ops ` dom m)
   \<and> (\<forall>h x. path_exists s (root @ h # x) \<longrightarrow> path_exists s (root @ [h]))
   \<and> (\<forall>q. prefix root q \<longrightarrow> fs_refuses s q = None)"

definition represents ::
  "('es, 'ps) key_ops \<Rightarrow> path \<Rightarrow> files \<Rightarrow> ('es, 'ps) vault \<Rightarrow> bool" where
  "represents ops root s m \<longleftrightarrow>
     store_shape ops root s m
   \<and> (\<forall>d sts. m d = Some sts \<longrightarrow> entry_holds ops (entry_of ops root d) sts s \<and> trim d = d)"

lemma entry_of_fields [simp]:
  "ke_hash (entry_of ops root d) = did_to_hash ops d" "ke_did (entry_of ops root d) = d"
  "ke_dir (entry_of ops root d) = root @ [did_to_hash ops d]"
  by (simp_all add: entry_of_def)

text \<open>
  One operation changes the store below the directory of one hash \<open>h\<close>. If the other DIDs keep
  their place and at most one DID, \<open>key\<close>, owns that directory, the layout of the store is kept.
\<close>

lemma store_shape_change:
  assumes shape: "store_shape ops root s m" and tt: "same_beside (root @ [h]) s s'"
    and beside: "\<And>d. did_to_hash ops d \<noteq> h \<Longrightarrow> m' d = m d"
    and only: "\<And>d. d \<in> dom m' \<Longrightarrow> did_to_hash ops d = h \<Longrightarrow> d = key"
    and exists: "path_exists s' (root @ [h]) \<longleftrightarrow> key \<in> dom m' \<and> did_to_hash ops key = h"
    and closed: "\<And>x. path_exists s' (root @ h # x) \<Longrightarrow> path_exists s' (root @ [h])"
  shows "store_shape ops root s' m'"
proof -
  have same: "path_exists s' (root @ h' # x) = path_exists s (root @ h' # x)" if "h' \<noteq> h" for h' x
  proof -
    have "same_at s s' (root @ h' # x)" using that tt by (simp add: same_beside_def)
    then show ?thesis by (simp add: same_at_def path_exists_def path_is_dir_def)
  qed
  have dom_beside: "d \<in> dom m' \<longleftrightarrow> d \<in> dom m" if "did_to_hash ops d \<noteq> h" for d
    using beside [OF that] by (simp add: domIff)
  have inj: "inj_on (did_to_hash ops) (dom m')"
    using shape only dom_beside unfolding store_shape_def inj_on_def by metis
  have "path_exists s' (root @ [h']) \<longleftrightarrow> h' \<in> did_to_hash ops ` dom m'" for h'
  proof (cases "h' = h")
    case True
    with exists only show ?thesis by auto
  next
    case False
    have "h' \<in> did_to_hash ops ` dom m' \<longleftrightarrow> h' \<in> did_to_hash ops ` dom m"
      using False dom_beside unfolding image_iff by metis
    with False same [of h' "[]"] shape show ?thesis by (simp add: store_shape_def)
  qed
  moreover have "path_exists s' (root @ [h'])" if "path_exists s' (root @ h' # x)" for h' x
    using that same [of h'] shape closed by (cases "h' = h") (auto simp: store_shape_def)
  ultimately show ?thesis using inj shape tt by (auto simp: store_shape_def same_beside_def)
qed

lemma represents_change:
  assumes rep: "represents ops root s m" and t: "touches (root @ [h]) f" "f s = (r, s')"
    and beside: "\<And>d. did_to_hash ops d \<noteq> h \<Longrightarrow> m' d = m d"
    and only: "\<And>d. d \<in> dom m' \<Longrightarrow> did_to_hash ops d = h \<Longrightarrow> d = key"
    and here: "\<And>sts. did_to_hash ops key = h \<Longrightarrow> m' key = Some sts \<Longrightarrow>
      entry_holds ops (entry_of ops root key) sts s' \<and> trim key = key"
    and exists: "path_exists s' (root @ [h]) \<longleftrightarrow> key \<in> dom m' \<and> did_to_hash ops key = h"
    and closed: "\<And>x. path_exists s' (root @ h # x) \<Longrightarrow> path_exists s' (root @ [h])"
  shows "represents ops root s' m'"
proof -
  have move: "same_beside (root @ [h]) s s'" using t unfolding touches_moves by (rule movesD)
  have shape: "store_shape ops root s m" using rep by (simp add: represents_def)
  have "store_shape ops root s' m'"
    by (rule store_shape_change [OF shape move beside only exists closed])
  moreover have "entry_holds ops (entry_of ops root d) sts s' \<and> trim d = d" if d: "m' d = Some sts" for d sts
  proof (cases "did_to_hash ops d = h")
    case True
    with only [of d] here d show ?thesis by blast
  next
    case False
    with beside d rep have "entry_holds ops (entry_of ops root d) sts s" "trim d = d"
      by (simp_all add: represents_def)
    with False t show ?thesis by (auto intro: entry_untouched)
  qed
  ultimately show ?thesis by (simp add: represents_def)
qed

lemma represents_commit:
  assumes rep: "represents ops root s m" and run: "store_commit ops root st d s = (Inr e, s')"
    and law: "staged_pem_law ops st" and trimmed: "trim (did_to_string d) = did_to_string d"
  shows "represents ops root s' (m(did_to_string d \<mapsto> [st]))"
    "e = entry_of ops root (did_to_string d)" "m (did_to_string d) = None"
proof -
  let ?t = "did_to_string d" let ?h = "did_to_hash ops ?t"
  have shape: "store_shape ops root s m" using rep by (simp add: represents_def)
  then have quiet: "\<forall>q. prefix root q \<longrightarrow> fs_refuses s q = None"
    and closed: "\<And>h x. path_exists s (root @ h # x) \<Longrightarrow> path_exists s (root @ [h])"
    by (auto simp: store_shape_def)
  note c = store_commit_holds [OF run law quiet closed]
  show e: "e = entry_of ops root ?t" by (rule c(1))
  have fresh: "\<not> path_exists s (root @ [?h])" using c(3) by (simp add: e)
  have "path_exists s (root @ [did_to_hash ops d'])" if "d' \<in> dom m" for d'
    using that shape by (simp add: store_shape_def)
  with fresh have none: "did_to_hash ops d' \<noteq> ?h" if "d' \<in> dom m" for d'
    using that by metis
  then show "m ?t = None" by blast
  have exists: "path_exists s' (root @ [?h])"
    using c(2) by (simp add: entry_holds_def e path_exists_def)
  show "represents ops root s' (m(?t \<mapsto> [st]))"
  proof (rule represents_change [OF rep touches_commit run, where key = ?t])
    show "\<And>d'. d' \<in> dom (m(?t \<mapsto> [st])) \<Longrightarrow> did_to_hash ops d' = ?h \<Longrightarrow> d' = ?t"
      using none by (auto split: if_splits)
    show "\<And>sts. (m(?t \<mapsto> [st])) ?t = Some sts \<Longrightarrow> entry_holds ops (entry_of ops root ?t) sts s' \<and> trim ?t = ?t"
      using c(2) trimmed by (simp add: e)
    show "\<And>x. path_exists s' (root @ [?h])" by (rule exists)
  qed (use exists in auto)
qed

lemma represents_add:
  assumes rep: "represents ops root s m" and m: "m d = Some sts"
    and run: "add_version ops (entry_of ops root d) st s = (Inr v, s')"
    and law: "staged_pem_law ops st" and room: "Suc (length sts) < 10000"
  shows "represents ops root s' (m(d \<mapsto> sts @ [st]))" "v = of_nat (Suc (length sts))"
proof -
  let ?h = "did_to_hash ops d"
  have holds: "entry_holds ops (entry_of ops root d) sts s" "trim d = d"
    using rep m by (simp_all add: represents_def)
  note a = add_version_holds [OF holds(1) run law room]
  show "v = of_nat (Suc (length sts))" by (rule a(1))
  have exists: "path_exists s' (root @ [?h])"
    using a(2) by (simp add: entry_holds_def path_exists_def)
  have t: "touches (root @ [?h]) (add_version ops (entry_of ops root d) st)"
    using touches_add_version [of "entry_of ops root d"] by simp
  have inj: "inj_on (did_to_hash ops) (dom m)" using rep by (simp add: represents_def store_shape_def)
  show "represents ops root s' (m(d \<mapsto> sts @ [st]))"
  proof (rule represents_change [OF rep t run, where key = d])
    show "\<And>d'. d' \<in> dom (m(d \<mapsto> sts @ [st])) \<Longrightarrow> did_to_hash ops d' = ?h \<Longrightarrow> d' = d"
      using inj m by (auto dest: inj_onD split: if_splits)
    show "\<And>sts'. (m(d \<mapsto> sts @ [st])) d = Some sts' \<Longrightarrow>
        entry_holds ops (entry_of ops root d) sts' s' \<and> trim d = d"
      using a(2) holds(2) by simp
    show "\<And>x. path_exists s' (root @ [?h])" by (rule exists)
  qed (use exists in auto)
qed

lemma represents_remove:
  assumes rep: "represents ops root s m" and run: "store_remove ops root d s = (Inr x, s')"
  shows "represents ops root s' (m |` {d'. did_to_hash ops d' \<noteq> did_to_hash ops (did_to_string d)})"
proof -
  let ?h = "did_to_hash ops (did_to_string d)"
  have "remove_dir_all (root @ [?h]) s = (Inr x, s')"
    using run by (auto simp: store_remove_def Let_def ok_iff split: if_split_asm)
  then have gone: "\<not> path_exists s' (root @ ?h # y)" for y
    by (auto simp: remove_dir_all_def path_exists_def path_is_dir_def below_iff
        split: option.split_asm if_split_asm)
  show ?thesis
    by (rule represents_change [OF rep touches_store_remove run, where key = "[]"]) (use gone in auto)
qed

text \<open>Reading the store is reading the map.\<close>

lemma represents_lookup:
  assumes rep: "represents ops root s m"
  shows "store_lookup ops root d s =
    (case m (did_to_string d) of
       Some _ \<Rightarrow> Ok (Some (entry_of ops root (did_to_string d)))
     | None \<Rightarrow> if did_to_hash ops (did_to_string d) \<in> did_to_hash ops ` dom m
              then Err (KSMismatch (did_to_hash ops (did_to_string d))) else Ok None)"
proof -
  let ?t = "did_to_string d" let ?h = "did_to_hash ops ?t"
  have shape: "store_shape ops root s m" using rep by (simp add: represents_def)
  show ?thesis
  proof (cases "?h \<in> did_to_hash ops ` dom m")
    case False
    moreover from False have "m ?t = None" by (metis domIff imageI)
    ultimately show ?thesis using shape by (simp add: store_lookup_def Let_def store_shape_def)
  next
    case True
    then obtain d' sts where d': "m d' = Some sts" "did_to_hash ops d' = ?h" by auto
    with rep have holds: "entry_holds ops (entry_of ops root d') sts s" "trim d' = d'"
      by (simp_all add: represents_def)
    have exists: "path_exists s (root @ [?h])" using shape True by (simp add: store_shape_def)
    have stored: "read_to_string (root @ [?h, ''did.txt'']) s = Ok d'"
      using holds(1) d'(2) by (simp add: entry_holds_def)
    have "m ?t = None" if "d' \<noteq> ?t"
      using that d' shape by (metis domI domIff inj_onD store_shape_def)
    with exists stored d' True holds(2) show ?thesis
      by (cases "d' = ?t") (auto simp: store_lookup_def Let_def entry_of_def)
  qed
qed

section \<open>The interface the commands use\<close>

text \<open>
  An entry of versioned key sets, as the commands that sign and rotate see it: the number of
  the latest version, the keys of a version, and appending a version.
\<close>

locale versioned_keys =
  fixes holds :: "'e \<Rightarrow> 'k list \<Rightarrow> 's \<Rightarrow> bool"
    and latest :: "'e \<Rightarrow> 's \<Rightarrow> ('v, 'err) result"
    and keys_at :: "'e \<Rightarrow> 'v \<Rightarrow> 's \<Rightarrow> ('k, 'err) result"
    and add :: "'e \<Rightarrow> 'k \<Rightarrow> 's \<Rightarrow> ('v, 'err) result \<times> 's"
    and number :: "nat \<Rightarrow> 'v"
    and storable :: "'k \<Rightarrow> bool"
    and cap :: nat
  assumes nonempty: "holds e ks s \<Longrightarrow> ks \<noteq> []"
    and latest_is: "holds e ks s \<Longrightarrow> latest e s = Ok (number (length ks))"
    and at_is: "holds e ks s \<Longrightarrow> i < length ks \<Longrightarrow> keys_at e (number (Suc i)) s = Ok (ks ! i)"
    and add_is: "holds e ks s \<Longrightarrow> storable k \<Longrightarrow> Suc (length ks) < cap \<Longrightarrow> add e k s = (Inr v, s') \<Longrightarrow>
      v = number (Suc (length ks)) \<and> holds e (ks @ [k]) s'"
begin

text \<open>The keys of the latest version are the last ones added.\<close>

lemma current: "holds e ks s \<Longrightarrow> and_then (latest e s) (\<lambda>v. keys_at e v s) = Ok (last ks)"
  using nonempty [of e ks s] latest_is [of e ks s] at_is [of e ks s "length ks - 1"]
  by (simp add: last_conv_nth)

lemma added_is_current:
  assumes "holds e ks s" "storable k" "Suc (length ks) < cap" "add e k s = (Inr v, s')"
  shows "latest e s' = Ok v" "keys_at e v s' = Ok k"
proof -
  from add_is [OF assms] have v: "v = number (Suc (length ks))" and h: "holds e (ks @ [k]) s'"
    by blast+
  show "latest e s' = Ok v" using latest_is [OF h] v by simp
  show "keys_at e v s' = Ok k" using at_is [OF h, of "length ks"] v by simp
qed

lemma history_kept:
  assumes "holds e ks s" "storable k" "Suc (length ks) < cap" "add e k s = (Inr v, s')" "i < length ks"
  shows "keys_at e (number (Suc i)) s' = keys_at e (number (Suc i)) s"
  using add_is [OF assms(1-4)] at_is [OF assms(1,5)] at_is [of e "ks @ [k]" s' i] assms(5)
  by (simp add: nth_append)

end

interpretation keys: versioned_keys "entry_holds ops" latest_version "snapshot_at ops" "add_version ops"
    of_nat "staged_pem_law ops" 10000 for ops
proof unfold_locales
  fix e ks s i assume "entry_holds ops e ks s" "i < length ks"
  then show "snapshot_at ops e (of_nat (Suc i)) s = Ok (ks ! i)"
    by (simp add: entry_holds_def del: of_nat_Suc)
next
  fix e ks s k v s'
  assume "entry_holds ops e ks s" "staged_pem_law ops k" "Suc (length ks) < 10000"
    "add_version ops e k s = (Inr v, s')"
  then show "v = of_nat (Suc (length ks)) \<and> entry_holds ops e (ks @ [k]) s'"
    using add_version_holds by blast
qed (simp_all add: entry_holds_latest, simp add: entry_holds_def)

text \<open>The files of an entry, as the commands read them: its latest keys, and finding it by its DID.\<close>

lemma held_snapshot:
  assumes "entry_holds ops e sts s" "latest_version e s = Ok v"
  shows "load_eddsa ops e Authorized (Some v) s = Ok (sk_authorized (last sts))"
    "load_ecdsa ops e KeyStore.Authentication (Some v) s = Ok (sk_authentication (last sts))"
    "load_ecdsa ops e Assertion (Some v) s = Ok (sk_assertion (last sts))"
proof -
  have "snapshot_at ops e v s = Ok (last sts)" using keys.current [OF assms(1)] assms(2) by simp
  then obtain a n x where k: "load_eddsa ops e Authorized (Some v) s = Ok a"
      "load_ecdsa ops e KeyStore.Authentication (Some v) s = Ok n" "load_ecdsa ops e Assertion (Some v) s = Ok x"
      "staged_from_parts a n x = last sts"
    by (auto simp: snapshot_at_def ok_iff)
  moreover from k(4) have "last sts = \<lparr>sk_authorized = a, sk_authentication = n, sk_assertion = x\<rparr>"
    by (simp add: staged_from_parts_def)
  ultimately show "load_eddsa ops e Authorized (Some v) s = Ok (sk_authorized (last sts))"
    "load_ecdsa ops e KeyStore.Authentication (Some v) s = Ok (sk_authentication (last sts))"
    "load_ecdsa ops e Assertion (Some v) s = Ok (sk_assertion (last sts))" by simp_all
qed

lemma held_lookup:
  assumes "entry_holds ops (entry_of ops root (did_to_string d)) sts s" "trim (did_to_string d) = did_to_string d"
  shows "store_lookup ops root d s = Ok (Some (entry_of ops root (did_to_string d)))"
  using assms by (auto simp: store_lookup_def Let_def entry_holds_def entry_of_def path_exists_def)

section \<open>Runs of the store\<close>

text \<open>
  The files and the map a store reaches from empty by successful operations. Removing a DID
  removes the directory of its hash, whoever owns it; adding is limited to four digits.
\<close>

inductive vault_run ::
  "('es, 'ps) key_ops \<Rightarrow> path \<Rightarrow> files \<Rightarrow> ('es, 'ps) vault \<Rightarrow> bool" for ops root where
  empty: "(\<And>h x. \<not> path_exists s (root @ h # x)) \<Longrightarrow> (\<And>q. prefix root q \<Longrightarrow> fs_refuses s q = None) \<Longrightarrow>
    vault_run ops root s Map.empty"
| commit: "vault_run ops root s m \<Longrightarrow> store_commit ops root st d s = (Inr e, s') \<Longrightarrow>
    staged_pem_law ops st \<Longrightarrow> trim (did_to_string d) = did_to_string d \<Longrightarrow>
    vault_run ops root s' (m(did_to_string d \<mapsto> [st]))"
| add: "vault_run ops root s m \<Longrightarrow> store_lookup ops root d s = Ok (Some e) \<Longrightarrow>
    add_version ops e st s = (Inr v, s') \<Longrightarrow> staged_pem_law ops st \<Longrightarrow>
    m (did_to_string d) = Some sts \<Longrightarrow> Suc (length sts) < 10000 \<Longrightarrow>
    vault_run ops root s' (m(did_to_string d \<mapsto> sts @ [st]))"
| remove: "vault_run ops root s m \<Longrightarrow> store_remove ops root d s = (Inr x, s') \<Longrightarrow>
    vault_run ops root s'
      (m |` {d'. did_to_hash ops d' \<noteq> did_to_hash ops (did_to_string d)})"

lemma vault_run_represents: "vault_run ops root s m \<Longrightarrow> represents ops root s m"
proof (induction rule: vault_run.induct)
  case (empty s)
  then show ?case by (simp add: represents_def store_shape_def)
next
  case (commit s m st d e s')
  then show ?case by (intro represents_commit(1))
next
  case (add s m d e st v s' sts)
  have e: "e = entry_of ops root (did_to_string d)"
    using add.hyps(2) represents_lookup [OF add.IH, of d] add.hyps(5) by simp
  show ?case
    by (rule represents_add(1) [OF add.IH add.hyps(5) add.hyps(3) [unfolded e] add.hyps(4,6)])
next
  case (remove s m d x s')
  then show ?case by (intro represents_remove)
qed

section \<open>Success\<close>

lemma create_dirs_succeeds:
  "(\<And>q. prefix q (d @ ns) \<Longrightarrow> length d < length q \<Longrightarrow>
      path_is_dir s q \<or> fs_refuses s q = None \<and> fmlookup (fs_files s) q = None) \<Longrightarrow>
   \<exists>s'. create_dirs d ns s = (Inr (), s')"
proof (induction d ns s rule: create_dirs.induct)
  case (2 d n ns s)
  let ?p = "d @ [n]"
  have here: "path_is_dir s ?p \<or> fs_refuses s ?p = None \<and> fmlookup (fs_files s) ?p = None"
    by (rule "2.prems") simp_all
  have rest: "path_is_dir s' q \<or> fs_refuses s' q = None \<and> fmlookup (fs_files s') q = None"
    if "prefix q (?p @ ns)" "length ?p < length q" "s' = s \<or> s' = s\<lparr>fs_dirs := finsert ?p (fs_dirs s)\<rparr>" for q s'
    using "2.prems" [of q] that by (auto simp: path_is_dir_def)
  show ?case
  proof (cases "path_is_dir s ?p")
    case True
    have "\<exists>s'. create_dirs ?p ns s = (Inr (), s')"
      by (rule "2.IH"(1) [OF refl True]) (rule rest, simp_all)
    with True show ?thesis by simp
  next
    case False
    have "\<exists>s'. create_dirs ?p ns (s\<lparr>fs_dirs := finsert ?p (fs_dirs s)\<rparr>) = (Inr (), s')"
    proof (rule "2.IH"(2) [OF refl False])
      show "refusal (fs_refuses s ?p) = None" "\<not> fmlookup (fs_files s) ?p \<noteq> None" using False here by simp_all
    qed (rule rest, simp_all)
    with False here show ?thesis by (simp add: Let_def)
  qed
qed simp

definition encodable :: "('es, 'ps) key_ops \<Rightarrow> ('es, 'ps) staged_keys \<Rightarrow> bool" where
  "encodable ops st \<longleftrightarrow>
     is_ok (es_to_pem ops (sk_authorized st))
   \<and> is_ok (es_public_to_pem ops (es_public ops (sk_authorized st)))
   \<and> is_ok (ps_to_pem ops (sk_authentication st))
   \<and> is_ok (ps_public_to_pem ops (ps_public ops (sk_authentication st)))
   \<and> is_ok (ps_to_pem ops (sk_assertion st))
   \<and> is_ok (ps_public_to_pem ops (ps_public ops (sk_assertion st)))"

text \<open>A place where a file can be written, and stays one when other files are written.\<close>

definition writable :: "path \<Rightarrow> files \<Rightarrow> bool" where
  "writable p s \<longleftrightarrow> fs_refuses s p = None \<and> \<not> path_is_dir s p \<and> path_is_dir s (butlast p)"

lemma writable_writes:
  assumes "writable p s"
  shows "\<exists>s'. wrote mode p t s s'" "wrote mode' p' t' s s' \<Longrightarrow> writable p s'"
  using assms by (auto simp: writable_def wrote_def path_is_dir_def)

lemma write_snapshot_succeeds:
  assumes enc: "encodable ops st" and w: "\<And>n. writable (d @ [n]) s"
  shows "\<exists>s'. write_snapshot ops st d s = (Inr (), s')"
proof -
  obtain pa ga pn gn px gx where pem: "es_to_pem ops (sk_authorized st) = Ok pa"
      "es_public_to_pem ops (es_public ops (sk_authorized st)) = Ok ga"
      "ps_to_pem ops (sk_authentication st) = Ok pn"
      "ps_public_to_pem ops (ps_public ops (sk_authentication st)) = Ok gn"
      "ps_to_pem ops (sk_assertion st) = Ok px"
      "ps_public_to_pem ops (ps_public ops (sk_assertion st)) = Ok gx"
    using enc by (auto simp: encodable_def is_ok_iff)
  let ?f = "\<lambda>r b. d @ [key_file_name r b]"
  obtain s1 where 1: "wrote private_mode (?f Authorized True) pa s s1"
    using writable_writes(1) [OF w] by blast
  have w1: "writable (d @ [n]) s1" for n by (rule writable_writes(2) [OF w 1])
  obtain s2 where 2: "wrote default_mode (?f Authorized False) ga s1 s2"
    using writable_writes(1) [OF w1] by blast
  have w2: "writable (d @ [n]) s2" for n by (rule writable_writes(2) [OF w1 2])
  obtain s3 where 3: "wrote private_mode (?f Authentication True) pn s2 s3"
    using writable_writes(1) [OF w2] by blast
  have w3: "writable (d @ [n]) s3" for n by (rule writable_writes(2) [OF w2 3])
  obtain s4 where 4: "wrote default_mode (?f Authentication False) gn s3 s4"
    using writable_writes(1) [OF w3] by blast
  have w4: "writable (d @ [n]) s4" for n by (rule writable_writes(2) [OF w3 4])
  obtain s5 where 5: "wrote private_mode (?f Assertion True) px s4 s5"
    using writable_writes(1) [OF w4] by blast
  have w5: "writable (d @ [n]) s5" for n by (rule writable_writes(2) [OF w4 5])
  obtain s6 where 6: "wrote default_mode (?f Assertion False) gx s5 s6"
    using writable_writes(1) [OF w5] by blast
  have "write_snapshot ops st d s = (Inr (), s6)"
    unfolding write_snapshot_def Let_def io_map_err_ok io_then_ok write_keys_ok
    using pem 1 2 3 4 5 6 by blast
  then show ?thesis by blast
qed

definition ready_root :: "path \<Rightarrow> files \<Rightarrow> bool" where
  "ready_root root s \<longleftrightarrow>
     (\<forall>q. prefix q root \<and> q \<noteq> [] \<longrightarrow> path_is_dir s q)
   \<and> (\<forall>q. prefix root q \<longrightarrow> fs_refuses s q = None)
   \<and> (\<forall>h x. path_exists s (root @ h # x) \<longrightarrow> path_exists s (root @ [h]))"

lemma new_snapshot_dir:
  assumes "ready_root root s" "\<not> path_exists s (root @ [h])"
  shows "\<exists>s'. create_dir_all (root @ [h, n]) s = (Inr (), s')
    \<and> path_is_dir s' (root @ [h]) \<and> (\<forall>k. writable (root @ [h, n, k]) s')
    \<and> (\<forall>k. k \<noteq> n \<longrightarrow> writable (root @ [h, k]) s')"
proof -
  have none: "fmlookup (fs_files s) (root @ h # x) = None \<and> \<not> path_is_dir s (root @ h # x)" for x
    using assms by (metis path_exists_def ready_root_def)
  have pre: "path_is_dir s q \<or> fs_refuses s q = None \<and> fmlookup (fs_files s) q = None"
    if p: "prefix q (root @ [h, n])" "q \<noteq> []" for q
  proof (cases "prefix q root")
    case True
    with assms(1) p(2) show ?thesis by (simp add: ready_root_def)
  next
    case False
    then obtain x where "q = root @ h # x" using p(1) by (auto simp: prefix_append prefix_Cons)
    with none assms(1) show ?thesis by (simp add: ready_root_def)
  qed
  obtain s' where run: "create_dir_all (root @ [h, n]) s = (Inr (), s')"
    using create_dirs_succeeds [of "[]" "root @ [h, n]" s] pre by (auto simp: create_dir_all_def)
  note f = create_dir_all_frame [OF run]
  have made: "path_is_dir s' (root @ [h, n])" by (rule create_dir_all_made [OF run]) simp
  have entry: "path_is_dir s' (root @ [h])"
    by (rule create_dir_all_made_prefix [OF run]) simp_all
  have "\<not> path_is_dir s' (root @ [h, n, k])" "k \<noteq> n \<Longrightarrow> \<not> path_is_dir s' (root @ [h, k])" for k
    using f(4) [of "root @ [h, n, k]"] f(4) [of "root @ [h, k]"] none [of "[n, k]"] none [of "[k]"]
    by (auto simp: path_is_dir_def)
  then show ?thesis
    using run made entry f(2) assms(1) by (auto simp: writable_def butlast_append ready_root_def)
qed
section \<open>Properties\<close>

text \<open>C10: the key store is a map from DIDs to their key sets. After any sequence of successful
  commits, rotations and removals: looking up a DID finds its entry exactly if the map has
  it, a hash taken by another DID is reported as a mismatch and never as an entry; the
  latest version is the number of key sets stored, the versions are all there in order, and
  each version loads exactly the keys that were stored under it.\<close>

theorem keystore_refines_map:
  assumes "vault_run ops root s m"
  shows "store_lookup ops root d s =
      (case m (did_to_string d) of
         Some _ \<Rightarrow> Ok (Some (entry_of ops root (did_to_string d)))
       | None \<Rightarrow> if did_to_hash ops (did_to_string d) \<in> did_to_hash ops ` dom m
                then Err (KSMismatch (did_to_hash ops (did_to_string d))) else Ok None)
    \<and> (m t = Some sts \<longrightarrow>
         latest_version (entry_of ops root t) s = Ok (of_nat (length sts))
       \<and> all_versions (entry_of ops root t) s = Ok (map of_nat [1..<Suc (length sts)])
       \<and> (\<forall>i < length sts. snapshot_at ops (entry_of ops root t) (of_nat (Suc i)) s = Ok (sts ! i))
       \<and> and_then (latest_version (entry_of ops root t) s)
           (\<lambda>v. snapshot_at ops (entry_of ops root t) v s) = Ok (last sts))"
proof -
  note rep = vault_run_represents [OF assms]
  have "entry_holds ops (entry_of ops root t) sts s" if "m t = Some sts"
    using rep that by (simp add: represents_def)
  then show ?thesis
    using represents_lookup [OF rep] entry_holds_latest keys.at_is keys.current by blast
qed

lemma commit_runs:
  assumes "ready_root root s" "encodable ops st" "\<not> store_exists ops root d s"
  shows "\<exists>s'. store_commit ops root st d s = (Inr (entry_of ops root (did_to_string d)), s')"
proof -
  let ?t = "did_to_string d" let ?h = "did_to_hash ops ?t"
  have fresh: "\<not> path_exists s (root @ [?h])" using assms(3) by (simp add: store_exists_def)
  obtain s1 where 1: "create_dir_all (root @ [?h, ''0001'']) s = (Inr (), s1)"
      "\<And>k. writable (root @ [?h, ''0001'', k]) s1" "\<And>k. k \<noteq> ''0001'' \<Longrightarrow> writable (root @ [?h, k]) s1"
    using new_snapshot_dir [OF assms(1) fresh, of "''0001''"] by blast
  obtain s2 where 2: "write_snapshot ops st (root @ [?h, ''0001'']) s1 = (Inr (), s2)"
    using write_snapshot_succeeds [OF assms(2), of "root @ [?h, ''0001'']" s1] 1(2) by auto
  note w = write_snapshot_ok [OF 2]
  have "writable (root @ [?h, ''did.txt'']) s2"
    using 1(3) [of "''did.txt''"] w(2,3) by (simp add: writable_def path_is_dir_def)
  then obtain s3 where 3: "wrote default_mode (root @ [?h, ''did.txt'']) ?t s2 s3"
    using writable_writes(1) by blast
  have "store_commit ops root st d s = (Inr (entry_of ops root ?t), s3)"
    using fresh 1(1) 2 3 by (auto simp: store_commit_def Let_def ok_iff entry_of_def)
  then show ?thesis by blast
qed

text \<open>C25: a commit always succeeds, and what it stored is found again. If the root of the store
  exists, the operating system refuses nothing below it, the keys can be encoded and no entry
  has the DID's hash, the commit creates the entry whatever the rest of the store holds;
  looking the DID up then gives that entry, and its latest version loads the keys.\<close>

theorem commit_succeeds:
  assumes "ready_root root s" "encodable ops st" "\<not> store_exists ops root d s"
    and "staged_pem_law ops st" "trim (did_to_string d) = did_to_string d"
  shows "\<exists>e s'. store_commit ops root st d s = (Inr e, s') \<and> store_lookup ops root d s' = Ok (Some e)
    \<and> latest_version e s' = Ok 1 \<and> snapshot_at ops e 1 s' = Ok st"
proof -
  obtain s' where run: "store_commit ops root st d s = (Inr (entry_of ops root (did_to_string d)), s')"
    using commit_runs [OF assms(1-3)] by blast
  have holds: "entry_holds ops (entry_of ops root (did_to_string d)) [st] s'"
    using store_commit_holds(2) [OF run assms(4)] assms(1) by (auto simp: ready_root_def)
  then have "store_lookup ops root d s' = Ok (Some (entry_of ops root (did_to_string d)))"
    using assms(5)
    by (auto simp: store_lookup_def Let_def entry_holds_def entry_of_def path_exists_def)
  then show ?thesis
    using run keys.latest_is [OF holds] keys.at_is [OF holds, of 0] by auto
qed

text \<open>C27: a commit that fails half way leaves the DID stuck. Once the entry directory has been
  made, any later failure (a full disk, a refused file) leaves it behind without
  \<open>did.txt\<close>: every later lookup of the DID is an error, and every later commit is refused
  because the entry already exists.\<close>

theorem failed_commit_blocks:
  assumes "\<forall>h x. path_exists s (root @ h # x) \<longrightarrow> path_exists s (root @ [h])"
    and "\<not> store_exists ops root d s"
    and "store_commit ops root st d s = (Inl e, s')" "store_exists ops root d s'"
  shows "\<not> is_ok (store_lookup ops root d s')
    \<and> store_commit ops root st' d s' = (Inl (KSAlreadyExists (did_to_hash ops (did_to_string d))), s')"
proof -
  let ?h = "did_to_hash ops (did_to_string d)" let ?q = "root @ [?h, ''did.txt'']"
  define P where "P s \<longleftrightarrow> (\<forall>m t. fmlookup (fs_files s) ?q = Some (m, t) \<longrightarrow> length t < length (did_to_string d))" for s :: files
  have start: "P s"
    using assms(1,2) unfolding P_def by (metis option.distinct(1) path_exists_def store_exists_def)
  have w: "keeps P (open_and_write mode q t)" if "q \<noteq> ?q" for mode q t
    unfolding keeps_def P_def using that open_and_write_frame(3) by (metis prod.collapse)
  have ws: "keeps P (fs_write q t)" "keeps P (write_private_key_file q t)" if "q \<noteq> ?q" for q t
    unfolding fs_write_def write_private_key_file_def by (intro keeps_intro w that)+
  have snap: "keeps P (write_snapshot ops st (root @ [?h, ''0001'']))"
    unfolding write_snapshot_def Let_def write_private_key_ecdsa_def write_private_key_eddsa_def
      write_public_key_ecdsa_def write_public_key_eddsa_def
    by (intro keeps_intro ws) simp_all
  have dir: "keeps P (create_dir_all p)" for p
    using create_dir_all_frame(1) [of p] unfolding keeps_def P_def by (metis prod.collapse)
  have last: "P s1" if "fs_write ?q (did_to_string d) s0 = (Inl x, s1)" "P s0" for s0 x s1
    using open_and_write_err [OF that(1) [unfolded fs_write_def]] that(2)
    by (auto simp: P_def dest: prefix_length_less)
  have "P s'"
    using assms(3) start
    by (auto simp: store_commit_def Let_def err_iff ok_iff split: if_split_asm
        dest: keepsD [OF dir] keepsD [OF snap] last)
  moreover have "length t < length (did_to_string d) \<Longrightarrow> trim t \<noteq> did_to_string d" for t
    using length_trim [of t] by auto
  ultimately have "\<not> is_ok (store_lookup ops root d s')"
    using assms(4) by (auto simp: store_lookup_def Let_def store_exists_def is_ok_iff ok_iff P_def split: if_split_asm)
  moreover have "store_commit ops root st' d s' = (Inl (KSAlreadyExists ?h), s')"
    using assms(4) by (simp add: store_commit_def Let_def store_exists_def io_then_def)
  ultimately show ?thesis by blast
qed

text \<open>Versions stop being found at 9999. The next rotation is written as version 10000, in a
  directory of five digits that the search for the latest version skips: it keeps answering
  9999, so the new keys are never used and the next rotation overwrites them.\<close>

theorem versions_stop_at_9999:
  assumes "latest_version e s = Ok 9999" "add_version ops e st s = (Inr v, s')"
  shows "v = 10000 \<and> latest_version e s' = Ok 9999"
proof -
  have u: "unat (10000 :: u32) = 10000" by simp
  let ?d = "ke_dir e @ [show_pad4 10000]"
  obtain s1 where run: "create_dir_all ?d s = (Ok (), s1)" "write_snapshot ops st ?d s1 = (Ok (), s')" "v = 10000"
    using assms by (auto simp: add_version_def ok_iff Let_def u)
  note f = create_dir_all_frame [OF run(1)] and g = write_snapshot_ok [OF run(2)]
  have names: "dir_names (ke_dir e) s' = finsert (show_pad4 10000) (dir_names (ke_dir e) s)"
    using names_of_new_dir [OF run(1)] g(5) [of "ke_dir e"] by simp
  have "versions_in (dir_names (ke_dir e) s') = versions_in (dir_names (ke_dir e) s)"
    by (simp add: names versions_in_insert version_of_show_pad4)
  moreover obtain ns where "read_dir (ke_dir e) s = Ok ns"
    using assms(1) by (auto simp: latest_version_def ok_iff)
  then have "read_dir (ke_dir e) s' = Ok (dir_names (ke_dir e) s')" "ns = dir_names (ke_dir e) s"
    "read_dir (ke_dir e) s = Ok (dir_names (ke_dir e) s)"
    using f(2,3) g(2,3) by (auto simp: read_dir_ok path_is_dir_def)
  ultimately show ?thesis using assms(1) run(3) by (simp add: latest_version_def split: if_split_asm)
qed

section \<open>Instances\<close>

text \<open>A store with textual keys, and files where the operating system refuses the given paths.\<close>

definition plain_keys :: "(string, string) key_ops" where
  "plain_keys = \<lparr>es_public = as_bytes, es_sign = (\<lambda>k m. m), es_to_pem = Inr, es_from_pem = Inr,
     es_public_to_pem = (\<lambda>k. Inr ''pub''), es_public_from_pem = (\<lambda>t. Inl t),
     ps_public = (\<lambda>k. \<lparr>p256_x = [], p256_y = []\<rparr>), ps_sign = (\<lambda>k m. m), ps_to_pem = Inr, ps_from_pem = Inr,
     ps_public_to_pem = (\<lambda>k. Inr ''pub''), ps_public_from_pem = (\<lambda>t. Inl t),
     blake3_hex = (\<lambda>b. ''00'')\<rparr>"

definition plain_files :: "path fset \<Rightarrow> path list \<Rightarrow> files" where
  "plain_files ps refused = \<lparr>fs_files = fmempty, fs_dirs = ps,
     fs_refuses = (\<lambda>p. if p \<in> set refused then Some (Refused ''full'') else None)\<rparr>"

definition plain_staged :: "(string, string) staged_keys" where
  "plain_staged = staged_from_parts ''a'' ''b'' ''c''"

definition plain_did :: did where
  "plain_did = \<lparr>did_method = Tdw, did_scid = Some ''x'', did_domain = ''y'', did_path = None\<rparr>"

lemma plain_laws: "staged_pem_law plain_keys st" "encodable plain_keys st"
  by (simp_all add: plain_keys_def staged_pem_law_def es_pem_law_def ps_pem_law_def encodable_def)

lemma plain_encodes: "es_to_pem plain_keys k = Ok k"
  by (simp add: plain_keys_def)

lemma plain_did_text: "did_to_string plain_did = ''did:tdw:x:y''"
  "trim (did_to_string plain_did) = did_to_string plain_did"
  "did_to_hash plain_keys t = ''00''"
proof -
  show t: "did_to_string plain_did = ''did:tdw:x:y''" by (simp add: did_to_string_def plain_did_def)
  show "trim (did_to_string plain_did) = did_to_string plain_did" unfolding t by code_simp
  show "did_to_hash plain_keys t = ''00''" by (simp add: did_to_hash_def plain_keys_def)
qed

lemma plain_ready: "ready_root [''r''] (plain_files {|[], [''r'']|} [])"
  by (auto simp: ready_root_def plain_files_def path_is_dir_def path_exists_def prefix_Cons)

lemma plain_fresh: "\<not> store_exists plain_keys [''r''] plain_did (plain_files {|[], [''r'']|} r)"
  by (simp add: store_exists_def path_exists_def path_is_dir_def plain_files_def plain_did_text)

theorem keystore_refines_map_witness:
  "\<exists>s. store_lookup plain_keys [''r''] plain_did s
       = Ok (Some (entry_of plain_keys [''r''] (did_to_string plain_did)))
     \<and> latest_version (entry_of plain_keys [''r''] (did_to_string plain_did)) s = Ok 1"
proof -
  let ?s = "plain_files {|[], [''r'']|} []" let ?e = "entry_of plain_keys [''r''] (did_to_string plain_did)"
  obtain s' where run: "store_commit plain_keys [''r''] plain_staged plain_did ?s = (Inr ?e, s')"
    using commit_runs [OF plain_ready plain_laws(2) plain_fresh] by blast
  have "vault_run plain_keys [''r''] ?s Map.empty"
    by (rule vault_run.empty) (auto simp: plain_files_def path_exists_def path_is_dir_def)
  from keystore_refines_map [OF vault_run.commit [OF this run plain_laws(1) plain_did_text(2)],
      of plain_did "did_to_string plain_did" "[plain_staged]"]
  show ?thesis by auto
qed

theorem commit_succeeds_witness:
  "\<exists>e s'. store_commit plain_keys [''r''] plain_staged plain_did (plain_files {|[], [''r'']|} []) = (Inr e, s')
     \<and> latest_version e s' = Ok 1 \<and> snapshot_at plain_keys e 1 s' = Ok plain_staged"
  using commit_succeeds [OF plain_ready plain_laws(2) plain_fresh plain_laws(1) plain_did_text(2)] by blast

text \<open>The disk refuses the first key file.\<close>

theorem failed_commit_blocks_witness:
  "\<exists>e s'. store_commit plain_keys [''r''] plain_staged plain_did
       (plain_files {|[], [''r'']|} [[''r'', ''00'', ''0001'', ''authorized-private.pem'']]) = (Inl e, s')
     \<and> \<not> is_ok (store_lookup plain_keys [''r''] plain_did s')
     \<and> store_commit plain_keys [''r''] plain_staged plain_did s' = (Inl (KSAlreadyExists ''00''), s')"
proof -
  let ?f = "[''r'', ''00'', ''0001'', ''authorized-private.pem'']"
  let ?s = "plain_files {|[], [''r'']|} [?f]"
  let ?ds = "finsert [''r'', ''00'', ''0001''] (finsert [''r'', ''00''] {|[], [''r'']|})"
  have run: "store_commit plain_keys [''r''] plain_staged plain_did ?s
      = (Inl (KSCrypto (CryptoIo (IoRefused ?f ''full''))),
         ?s\<lparr>fs_dirs := ?ds\<rparr>)"
    by (simp add: store_commit_def Let_def plain_did_text io_then_def io_map_err_def plain_files_def
        path_exists_def path_is_dir_def create_dir_all_def write_snapshot_def write_private_key_eddsa_def
        plain_encodes write_private_key_file_def open_and_write_def key_file_name_def)
  from failed_commit_blocks [OF _ plain_fresh run, of plain_staged]
  have "\<not> is_ok (store_lookup plain_keys [''r''] plain_did (?s\<lparr>fs_dirs := ?ds\<rparr>))
    \<and> store_commit plain_keys [''r''] plain_staged plain_did (?s\<lparr>fs_dirs := ?ds\<rparr>)
      = (Inl (KSAlreadyExists ''00''), ?s\<lparr>fs_dirs := ?ds\<rparr>)"
    by (auto simp: store_exists_def path_exists_def path_is_dir_def plain_did_text plain_files_def)
  with run show ?thesis by blast
qed

theorem versions_stop_at_9999_witness:
  "\<exists>s'. add_version plain_keys (entry_of plain_keys [''r''] ''d'') plain_staged
       (plain_files {|[], [''r''], [''r'', ''00''], [''r'', ''00'', ''9999'']|} []) = (Inr 10000, s')
     \<and> latest_version (entry_of plain_keys [''r''] ''d'') s' = Ok 9999"
proof -
  let ?s = "plain_files {|[], [''r''], [''r'', ''00''], [''r'', ''00'', ''9999'']|} []"
  let ?e = "entry_of plain_keys [''r''] ''d''" let ?d = "[''r'', ''00'', show_pad4 10000]"
  have u: "unat (10000 :: u32) = 10000" by simp
  have "dir_names [''r'', ''00''] ?s = {|''9999''|}"
    by (auto simp: plain_files_def dir_names_def child_names_iff)
  then have "read_dir [''r'', ''00''] ?s = Ok {|''9999''|}"
    by (simp add: read_dir_ok) (simp add: plain_files_def path_is_dir_def)
  moreover have "version_of_name ''9999'' = Some 9999"
    by (simp add: version_of_name_def digit_value_def read_nat_def)
  then have "versions_in {|''9999''|} = {|9999|}" by (intro fset_eqI) (auto simp: versions_in_iff)
  ultimately have latest: "latest_version ?e ?s = Ok 9999"
    by (simp add: latest_version_def entry_of_def plain_did_text)
  have pad: "show_pad4 10000 \<noteq> ''9999''" using length_show_pad4 [of 10000] by auto
  have "\<exists>s1. create_dir_all ?d ?s = (Inr (), s1) \<and> (\<forall>n. writable (?d @ [n]) s1)"
    using pad by (simp add: create_dir_all_def plain_files_def path_is_dir_def writable_def Let_def)
  then obtain s1 where 1: "create_dir_all ?d ?s = (Inr (), s1)" "\<And>n. writable (?d @ [n]) s1"
    by blast
  obtain s2 where 2: "write_snapshot plain_keys plain_staged ?d s1 = (Inr (), s2)"
    using write_snapshot_succeeds [OF plain_laws(2) 1(2)] by blast
  have run: "add_version plain_keys ?e plain_staged ?s = (Inr 10000, s2)"
    using latest 1(1) 2 by (simp add: add_version_def Let_def u entry_of_def plain_did_text)
  show ?thesis using versions_stop_at_9999 [OF latest run] run by blast
qed

end
