(* ===== verification/Commands.thy ===== *)
theory Commands
  imports KeyVault
begin

text \<open>
  What the commands share: resolving a \<open><hash|did>\<close> argument against the key store and the
  registry credentials (\<open>swiyu-didtool/src/cmd/mod.rs\<close>), and writing a log to its file, to
  the file it came from, or to the first free fallback file (\<open>cmd/file.rs\<close>).
\<close>

section \<open>Arguments\<close>

datatype registry_args_error = PartnerIdMissing string | RegistryUrlMissing string

definition require_registry_credentials ::
  "string option \<Rightarrow> string option \<Rightarrow> string \<Rightarrow> (string \<times> string, registry_args_error) result" where
  "require_registry_credentials partner_id registry_url no_publish_hint =
     and_then (ok_or partner_id (PartnerIdMissing no_publish_hint)) (\<lambda>p.
     and_then (ok_or registry_url (RegistryUrlMissing no_publish_hint)) (\<lambda>u.
       Ok (p, u)))"

datatype resolve_error = ResolveNotFound string | ResolveDid did_error | ResolveKeyStore keystore_error

definition is_ascii_hexdigit :: "char \<Rightarrow> bool" where
  "is_ascii_hexdigit ch \<longleftrightarrow> ch \<in> set ''0123456789abcdefABCDEF''"

definition is_hash :: "string \<Rightarrow> bool" where
  "is_hash s \<longleftrightarrow> length s = 12 \<and> list_all is_ascii_hexdigit s"

definition resolve_did :: "path \<Rightarrow> string \<Rightarrow> files \<Rightarrow> (did, resolve_error) result" where
  "resolve_did root target s =
     (if is_hash target then
        and_then (map_err ResolveKeyStore (store_lookup_by_hash root target s)) (\<lambda>found.
        and_then (ok_or found (ResolveNotFound target)) (\<lambda>entry.
          map_err ResolveDid (did_from_str (ke_did entry))))
      else map_err ResolveDid (did_from_str target))"

definition resolve_entry ::
  "('es, 'ps) key_ops \<Rightarrow> path \<Rightarrow> string \<Rightarrow> files \<Rightarrow> (keystore_entry, resolve_error) result" where
  "resolve_entry ops root target s =
     (if is_hash target then
        and_then (map_err ResolveKeyStore (store_lookup_by_hash root target s)) (\<lambda>found.
          ok_or found (ResolveNotFound target))
      else
        and_then (map_err ResolveDid (did_from_str target)) (\<lambda>d.
        and_then (map_err ResolveKeyStore (store_lookup ops root d s)) (\<lambda>found.
          ok_or found (ResolveNotFound target))))"

text \<open>\<open>iso8601\<close>: \<open>chrono\<close>'s text of a time, which it has only within its range; the cast to
  \<open>i64\<close> wraps.\<close>

definition iso8601 :: "(int \<Rightarrow> string option) \<Rightarrow> u64 \<Rightarrow> string" where
  "iso8601 from_timestamp unix_secs =
     (case from_timestamp (sint unix_secs) of Some t \<Rightarrow> t | None \<Rightarrow> show_nat (unat unix_secs))"


section \<open>Writing a log\<close>

definition MAX_PENDING_INDEX :: nat where "MAX_PENDING_INDEX = 9999"

datatype write_log_error =
    WLFileExists path
  | WLWriteOutput path io_error
  | WLPendingExhausted nat

text \<open>The path with \<open>.tmp\<close> appended to its last component.\<close>

definition tmp_path :: "path \<Rightarrow> path" where
  "tmp_path p = (if p = [] then [''.tmp''] else butlast p @ [last p @ ''.tmp''])"

definition write_atomic :: "path \<Rightarrow> string \<Rightarrow> (unit, io_error) io" where
  "write_atomic target content =
     io_then (fs_write (tmp_path target) content) (\<lambda>_. fs_rename (tmp_path target) target)"

definition write_log ::
  "string \<Rightarrow> path option \<Rightarrow> path option \<Rightarrow> bool \<Rightarrow> (path option, write_log_error) io" where
  "write_log content source_path out force =
     (case out of
        Some p \<Rightarrow>
          io_then (io_look (\<lambda>s. if path_exists s p \<and> \<not> force then Err (WLFileExists p) else Ok ())) (\<lambda>_.
          io_then (io_map_err (WLWriteOutput p) (fs_write p content)) (\<lambda>_. io_ok (Some p)))
      | None \<Rightarrow>
          (case source_path of
             Some source \<Rightarrow>
               io_then (io_map_err (WLWriteOutput source) (write_atomic source content)) (\<lambda>_.
                 io_ok (Some source))
           | None \<Rightarrow> io_ok None))"

text \<open>The fallback file with a number, in the working directory.\<close>

definition pending_path :: "path \<Rightarrow> nat \<Rightarrow> path" where
  "pending_path cwd n = cwd @ [''did-pending-'' @ show_nat n @ ''.jsonl'']"

fun write_pending :: "path \<Rightarrow> string \<Rightarrow> nat list \<Rightarrow> (path, write_log_error) io" where
  "write_pending cwd content [] s = (Err (WLPendingExhausted MAX_PENDING_INDEX), s)"
| "write_pending cwd content (n # ns) s =
     (if path_exists s (pending_path cwd n) then write_pending cwd content ns s
      else
        io_then (io_map_err (WLWriteOutput (pending_path cwd n)) (fs_write (pending_path cwd n) content))
          (\<lambda>_. io_ok (pending_path cwd n)) s)"

definition write_pending_log :: "path \<Rightarrow> string \<Rightarrow> (path, write_log_error) io" where
  "write_pending_log cwd content = write_pending cwd content [1..<Suc MAX_PENDING_INDEX]"

section \<open>Lemmas\<close>

lemma pending_path_inj [simp]: "pending_path cwd m = pending_path cwd n \<longleftrightarrow> m = n"
  by (simp add: pending_path_def)

lemma write_pending_find:
  "write_pending cwd content ns s =
     (case List.find (\<lambda>n. \<not> path_exists s (pending_path cwd n)) ns of
        Some n \<Rightarrow>
          io_then (io_map_err (WLWriteOutput (pending_path cwd n)) (fs_write (pending_path cwd n) content))
            (\<lambda>_. io_ok (pending_path cwd n)) s
      | None \<Rightarrow> (Err (WLPendingExhausted MAX_PENDING_INDEX), s))"
  by (induction ns) auto

lemma find_upt:
  "List.find P [a..<b] = Some n \<longleftrightarrow> a \<le> n \<and> n < b \<and> P n \<and> (\<forall>k. a \<le> k \<and> k < n \<longrightarrow> \<not> P k)"
  (is "?l \<longleftrightarrow> ?r")
proof
  assume ?l
  then obtain i where i: "i < b - a" "P (a + i)" "n = a + i" "\<forall>j < i. \<not> P (a + j)"
    by (auto simp: find_Some_iff)
  have "\<not> P k" if "a \<le> k" "k < n" for k
    using i(3,4) that by (metis add_less_cancel_left le_add_diff_inverse)
  with i show ?r by auto
next
  assume r: ?r
  show ?l
    unfolding find_Some_iff using r by (intro exI [of _ "n - a"]) auto
qed

lemma fs_write_total:
  "takes (fs_refuses s p) t \<Longrightarrow> \<not> path_is_dir s p \<Longrightarrow> path_is_dir s (butlast p) \<Longrightarrow>
   \<exists>s'. fs_write p t s = (Inr (), s')"
  by (auto simp: fs_write_def open_and_write_ok)

text \<open>What a write that is broken off leaves.\<close>

definition broke_off :: "path \<Rightarrow> string \<Rightarrow> files \<Rightarrow> files \<Rightarrow> bool" where
  "broke_off p t s s' \<longleftrightarrow>
     (\<exists>m part. strict_prefix part t \<and> s' = s\<lparr>fs_files := fmupd p (m, part) (fs_files s)\<rparr>)"

lemma fs_write_fails: "fs_write p t s = (Inl e, s') \<Longrightarrow> s' = s \<or> broke_off p t s s'"
  using open_and_write_err by (fastforce simp: fs_write_def broke_off_def)

lemma broke_off_frame:
  assumes "broke_off p t s s'"
  shows "fs_dirs s' = fs_dirs s" "fs_refuses s' = fs_refuses s"
    "q \<noteq> p \<Longrightarrow> fmlookup (fs_files s') q = fmlookup (fs_files s) q"
  using assms by (auto simp: broke_off_def)

lemma tmp_path_neq: "tmp_path q \<noteq> q"
proof
  assume same: "tmp_path q = q"
  show False
  proof (cases q rule: rev_cases)
    case Nil
    with same show False by (simp add: tmp_path_def)
  next
    case (snoc xs x)
    with same have "x @ ''.tmp'' = x" by (simp add: tmp_path_def)
    then show False by simp
  qed
qed

lemma fs_rename_ok [ok_iff]:
  "fs_rename a b s = (Inr x, s') \<longleftrightarrow> refusal (fs_refuses s b) = None \<and> \<not> path_is_dir s b
     \<and> (\<exists>f. fmlookup (fs_files s) a = Some f \<and> s' = s\<lparr>fs_files := fmupd b f (fmdrop a (fs_files s))\<rparr>)"
  by (auto simp: fs_rename_def split: option.splits)

text \<open>What a successful write of a log leaves.\<close>

lemma write_log_ok:
  assumes "write_log content src out force s = (Inr w, s')"
  shows "w = (if out \<noteq> None then out else src)" "fs_dirs s' = fs_dirs s" "fs_refuses s' = fs_refuses s"
    "w = Some p \<Longrightarrow> \<exists>m. fmlookup (fs_files s') p = Some (m, content)"
    "(\<And>p. w = Some p \<Longrightarrow> q \<noteq> p \<and> q \<noteq> tmp_path p) \<Longrightarrow> fmlookup (fs_files s') q = fmlookup (fs_files s) q"
proof -
  have *: "w = (if out \<noteq> None then out else src) \<and> fs_dirs s' = fs_dirs s \<and> fs_refuses s' = fs_refuses s
    \<and> (\<forall>p. w = Some p \<longrightarrow> (\<exists>m. fmlookup (fs_files s') p = Some (m, content)))
    \<and> ((\<forall>p. w = Some p \<longrightarrow> q \<noteq> p \<and> q \<noteq> tmp_path p) \<longrightarrow> fmlookup (fs_files s') q = fmlookup (fs_files s) q)"
  proof (cases out)
    case (Some p)
    with assms have "wrote default_mode p content s s'" "w = Some p" by (auto simp: write_log_def ok_iff)
    with wrote_frame [OF this(1)] Some show ?thesis by auto
  next
    case None
    show ?thesis
    proof (cases src)
      case (Some p)
      with None assms obtain s1 where w: "wrote default_mode (tmp_path p) content s s1" "w = Some p"
          and r: "fs_rename (tmp_path p) p s1 = (Inr (), s')"
        by (auto simp: write_log_def write_atomic_def ok_iff)
      with wrote_frame [OF w(1)] None Some show ?thesis
        by (auto simp: fs_rename_ok)
    qed (use None assms in \<open>simp add: write_log_def\<close>)
  qed
  then show "w = (if out \<noteq> None then out else src)" "fs_dirs s' = fs_dirs s" "fs_refuses s' = fs_refuses s"
    "w = Some p \<Longrightarrow> \<exists>m. fmlookup (fs_files s') p = Some (m, content)"
    "(\<And>p. w = Some p \<Longrightarrow> q \<noteq> p \<and> q \<noteq> tmp_path p) \<Longrightarrow> fmlookup (fs_files s') q = fmlookup (fs_files s) q"
    by blast+
qed

section \<open>Properties\<close>

text \<open>C29: the fallback file. The search ends after at most 9999 files. It writes the content to the
  lowest-numbered name that is free and touches no other file; it gives up exactly if all
  names are taken; a refused write leaves every file as it was, and one that is broken off a
  beginning of the content in that file.\<close>

theorem write_pending_log_spec:
  "case write_pending_log cwd content s of
     (Inr p, s') \<Rightarrow>
       (\<exists>n \<le> MAX_PENDING_INDEX. p = pending_path cwd n \<and> \<not> path_exists s p
          \<and> (\<nexists>k. 1 \<le> k \<and> k < n \<and> \<not> path_exists s (pending_path cwd k))
          \<and> wrote default_mode p content s s')
   | (Inl e, s') \<Rightarrow>
       (e = WLPendingExhausted MAX_PENDING_INDEX
         \<longleftrightarrow> (\<nexists>k. 1 \<le> k \<and> k \<le> MAX_PENDING_INDEX \<and> \<not> path_exists s (pending_path cwd k)))
       \<and> (s' = s \<or> (\<exists>n io. 1 \<le> n \<and> n \<le> MAX_PENDING_INDEX \<and> \<not> path_exists s (pending_path cwd n)
            \<and> (\<nexists>k. 1 \<le> k \<and> k < n \<and> \<not> path_exists s (pending_path cwd k))
            \<and> e = WLWriteOutput (pending_path cwd n) io \<and> broke_off (pending_path cwd n) content s s'))"
proof (cases "List.find (\<lambda>n. \<not> path_exists s (pending_path cwd n)) [1..<Suc MAX_PENDING_INDEX]")
  case None
  then have "\<nexists>k. 1 \<le> k \<and> k \<le> MAX_PENDING_INDEX \<and> \<not> path_exists s (pending_path cwd k)"
    by (auto simp: find_None_iff simp del: upt_Suc)
  with None show ?thesis by (simp add: write_pending_log_def write_pending_find del: upt_Suc)
next
  case (Some n)
  note n = Some [unfolded find_upt]
  have run: "write_pending_log cwd content s = io_then (io_map_err (WLWriteOutput (pending_path cwd n))
      (fs_write (pending_path cwd n) content)) (\<lambda>_. io_ok (pending_path cwd n)) s"
    using Some by (simp add: write_pending_log_def write_pending_find del: upt_Suc)
  obtain r s' where w: "fs_write (pending_path cwd n) content s = (r, s')" by fastforce
  show ?thesis
  proof (cases r)
    case (Inl e)
    with w have "s' = s \<or> broke_off (pending_path cwd n) content s s'" using fs_write_fails by blast
    then show ?thesis using run w Inl n by auto
  next
    case (Inr u)
    then have "wrote default_mode (pending_path cwd n) content s s'" using w by (simp add: fs_write_ok)
    then show ?thesis using run w Inr n by auto
  qed
qed

text \<open>Writing through the temporary file: the target gets all of the text or none of it.\<close>

lemma write_atomic_spec:
  assumes run: "write_atomic target content s = (r, s')"
  shows "r = Inr () \<and> (\<exists>m. fmlookup (fs_files s') target = Some (m, content))
        \<and> fmlookup (fs_files s') (tmp_path target) = None
      \<or> \<not> is_ok r \<and> fmlookup (fs_files s') target = fmlookup (fs_files s) target"
    "\<And>x. x \<noteq> target \<Longrightarrow> x \<noteq> tmp_path target \<Longrightarrow> fmlookup (fs_files s') x = fmlookup (fs_files s) x"
proof -
  let ?q = target
  have "(r = Inr () \<and> (\<exists>m. fmlookup (fs_files s') ?q = Some (m, content))
        \<and> fmlookup (fs_files s') (tmp_path ?q) = None
      \<or> \<not> is_ok r \<and> fmlookup (fs_files s') ?q = fmlookup (fs_files s) ?q)
      \<and> (\<forall>x. x \<noteq> ?q \<and> x \<noteq> tmp_path ?q \<longrightarrow> fmlookup (fs_files s') x = fmlookup (fs_files s) x)"
  proof (cases "fst (fs_write (tmp_path ?q) content s)")
    case (Inl e)
    then obtain s1 where 1: "fs_write (tmp_path ?q) content s = (Inl e, s1)" by (metis prod.collapse)
    with run have "r = Inl e" "s' = s1" by (auto simp: write_atomic_def)
    with fs_write_fails [OF 1] show ?thesis using tmp_path_neq [of ?q] by (auto simp: broke_off_def)
  next
    case (Inr u)
    then obtain s1 where 1: "fs_write (tmp_path ?q) content s = (Inr (), s1)"
      by (metis prod.collapse unit.exhaust)
    then have w: "wrote default_mode (tmp_path ?q) content s s1" by (simp add: fs_write_ok)
    have "fs_rename (tmp_path ?q) ?q s1 = (r, s')" using run 1 by (simp add: write_atomic_def)
    then show ?thesis
      using wrote_frame(3,4) [OF w] tmp_path_neq [of ?q]
      by (auto simp: fs_rename_def split: option.splits if_split_asm)
  qed
  then show "r = Inr () \<and> (\<exists>m. fmlookup (fs_files s') ?q = Some (m, content))
        \<and> fmlookup (fs_files s') (tmp_path ?q) = None
      \<or> \<not> is_ok r \<and> fmlookup (fs_files s') ?q = fmlookup (fs_files s) ?q"
    and "\<And>x. x \<noteq> ?q \<Longrightarrow> x \<noteq> tmp_path ?q \<Longrightarrow> fmlookup (fs_files s') x = fmlookup (fs_files s) x"
    by blast+
qed

lemma write_log_back:
  assumes "write_log content (Some q) None force s = (r, s')"
  shows "\<exists>ra. write_atomic q content s = (ra, s')
    \<and> r = map_err (WLWriteOutput q) (map_sum id (\<lambda>_. Some q) ra)"
  using assms
  by (cases "write_atomic q content s"; cases "fst (write_atomic q content s)")
    (auto simp: write_log_def io_then_def)

text \<open>C28: where a log is written, and what a crash leaves. The operating system may refuse any path
  and may break off a write after any number of bytes. An existing \<open>--out\<close> file is only overwritten
  with \<open>--force\<close>; otherwise nothing changes. Success means the whole text in that file; a failure
  leaves it as it was or, as it is written in place, a beginning of the text. Writing back to the source
  goes through a temporary file: whatever fails, wherever it is broken off, the source holds its
  old text or the whole new one, never a part, no other file but the temporary one changes, and after
  success that one is gone.\<close>

theorem write_log_spec:
  "(path_exists s p \<longrightarrow> write_log content src (Some p) False s = (Err (WLFileExists p), s))
   \<and> (write_log content src (Some p) force s = (Ok (Some p), s') \<longleftrightarrow>
        (path_exists s p \<longrightarrow> force) \<and> wrote default_mode p content s s')
   \<and> (write_log content src (Some p) force s = (Err e, s') \<longrightarrow> s' = s \<or> broke_off p content s s')
   \<and> (write_log content (Some q) None force s = (r, s') \<longrightarrow>
        (r = Ok (Some q) \<and> (\<exists>m. fmlookup (fs_files s') q = Some (m, content))
           \<and> fmlookup (fs_files s') (tmp_path q) = None
         \<or> \<not> is_ok r \<and> fmlookup (fs_files s') q = fmlookup (fs_files s) q)
      \<and> (\<forall>x. x \<noteq> q \<and> x \<noteq> tmp_path q \<longrightarrow> fmlookup (fs_files s') x = fmlookup (fs_files s) x))"
proof (intro conjI impI, goal_cases)
  case 1
  then show ?case by (simp add: write_log_def)
next
  case 2
  show ?case by (auto simp: write_log_def ok_iff)
next
  case 3
  then show ?case using fs_write_fails by (fastforce simp: write_log_def err_iff split: if_split_asm)
next
  case 4
  then obtain ra where a: "write_atomic q content s = (ra, s')"
      "r = map_err (WLWriteOutput q) (map_sum id (\<lambda>_. Some q) ra)"
    using write_log_back by blast
  show ?case using write_atomic_spec(1) [OF a(1)] a(2) by (cases ra) auto
next
  case 5
  then show ?case using write_log_back write_atomic_spec(2) by blast
qed

definition one_file :: "path \<Rightarrow> string \<Rightarrow> files" where
  "one_file p t = \<lparr>fs_files = fmupd p (default_mode, t) fmempty, fs_dirs = {|butlast p|},
     fs_refuses = (\<lambda>_. None)\<rparr>"

text \<open>A disk that takes one byte more of the temporary file.\<close>

definition full_disk :: files where
  "full_disk = (one_file [''a''] ''old'')\<lparr>fs_refuses := (\<lambda>_. Some (Full 1))\<rparr>"

theorem write_log_spec_witness:
  "write_log ''new'' None (Some [''a'']) False full_disk = (Err (WLFileExists [''a'']), full_disk)
   \<and> (\<exists>s'. write_log ''new'' (Some [''a'']) None False full_disk = (Err (WLWriteOutput [''a''] (IoFull [''a.tmp''])), s')
        \<and> fmlookup (fs_files s') [''a.tmp''] = Some (default_mode, ''n'')
        \<and> fmlookup (fs_files s') [''a''] = Some (default_mode, ''old''))"
proof -
  let ?s = full_disk
  have "path_exists ?s [''a'']" by (simp add: full_disk_def one_file_def path_exists_def)
  moreover obtain r s' where run: "write_log ''new'' (Some [''a'']) None False ?s = (r, s')" by fastforce
  moreover have "r = Err (WLWriteOutput [''a''] (IoFull [''a.tmp'']))"
    "fmlookup (fs_files s') [''a.tmp''] = Some (default_mode, ''n'')"
    using run by (auto simp: write_log_def write_atomic_def fs_write_def open_and_write_def full_disk_def one_file_def
        tmp_path_def path_is_dir_def io_then_def io_map_err_def Let_def)
  moreover have "fmlookup (fs_files ?s) [''a''] = Some (default_mode, ''old'')"
    by (simp add: full_disk_def one_file_def)
  ultimately show ?thesis
    using write_log_spec [of ?s "[''a'']" "''new''" None False s' "WLFileExists [''a'']" "[''a'']" r]
    by auto
qed

end
