(* ===== verification/Http.thy ===== *)
theory Http
  imports TrustVerify
begin

text \<open>
  Fetching a text over HTTPS, \<open>swiyu-didtool/src/cmd/http.rs\<close>. The HTTP client is a
  parameter: what a server answers to a request, with the bytes of the body as they arrive and
  the error that breaks them off, if one does. The size cap, the UTF-8 check and the reading
  of the status are the code's.
\<close>

section \<open>UTF-8\<close>

definition u8_continuation :: "u8 \<Rightarrow> bool" where
  "u8_continuation b \<longleftrightarrow> 0x80 \<le> b \<and> b \<le> 0xBF"

text \<open>The bytes after one well-formed character (\<open>std::str::from_utf8\<close>).\<close>

definition utf8_char :: "u8 list \<Rightarrow> u8 list option" where
  "utf8_char bs =
     (case bs of
        [] \<Rightarrow> None
      | b # r \<Rightarrow>
          if b < 0x80 then Some r
          else if 0xC2 \<le> b \<and> b \<le> 0xDF then
            (case r of c1 # r' \<Rightarrow> if u8_continuation c1 then Some r' else None | _ \<Rightarrow> None)
          else if 0xE0 \<le> b \<and> b \<le> 0xEF then
            (case r of
               c1 # c2 # r' \<Rightarrow>
                 if u8_continuation c1 \<and> u8_continuation c2 \<and> (b = 0xE0 \<longrightarrow> 0xA0 \<le> c1)
                   \<and> (b = 0xED \<longrightarrow> c1 \<le> 0x9F) then Some r' else None
             | _ \<Rightarrow> None)
          else if 0xF0 \<le> b \<and> b \<le> 0xF4 then
            (case r of
               c1 # c2 # c3 # r' \<Rightarrow>
                 if u8_continuation c1 \<and> u8_continuation c2 \<and> u8_continuation c3
                   \<and> (b = 0xF0 \<longrightarrow> 0x90 \<le> c1) \<and> (b = 0xF4 \<longrightarrow> c1 \<le> 0x8F) then Some r' else None
             | _ \<Rightarrow> None)
          else None)"

lemma utf8_char_shorter: "utf8_char bs = Some r \<Longrightarrow> length r < length bs"
  by (auto simp: utf8_char_def split: list.splits if_splits)

function valid_utf8 :: "u8 list \<Rightarrow> bool" where
  "valid_utf8 bs = (bs = [] \<or> (case utf8_char bs of Some r \<Rightarrow> valid_utf8 r | None \<Rightarrow> False))"
  by pat_completeness auto
termination
  by (relation "measure length") (auto dest: utf8_char_shorter)

declare valid_utf8.simps [simp del]

text \<open>\<open>String::from_utf8\<close>.\<close>

definition string_from_utf8 :: "u8 list \<Rightarrow> string option" where
  "string_from_utf8 bs = (if valid_utf8 bs then Some (bytes_text bs) else None)"

text \<open>\<open>chars().take(n)\<close>: the first characters of a text.\<close>

fun take_chars :: "nat \<Rightarrow> string \<Rightarrow> string" where
  "take_chars n [] = []"
| "take_chars n (ch # s) =
     (if utf8_continuation ch then ch # take_chars n s
      else case n of 0 \<Rightarrow> [] | Suc m \<Rightarrow> ch # take_chars m s)"

definition char_count :: "string \<Rightarrow> nat" where
  "char_count s = length (filter (\<lambda>ch. \<not> utf8_continuation ch) s)"

lemma take_chars_prefix: "\<exists>r. s = take_chars n s @ r"
  by (induction n s rule: take_chars.induct) (auto split: nat.split)

lemma take_chars_count: "char_count (take_chars n s) \<le> n"
  by (induction n s rule: take_chars.induct) (auto simp: char_count_def split: nat.split)

section \<open>The exchange\<close>

text \<open>
  A response: its status, the bytes of the body that arrive, the error that stops them (if
  any), and the text \<open>response.text()\<close> gives (empty if that fails).
\<close>

record http_response =
  hr_status :: nat
  hr_body :: "u8 list"
  hr_broken :: "string option"
  hr_text :: string

type_synonym http_client = "string \<Rightarrow> (http_response, string) result"

definition MAX_BYTES :: nat where "MAX_BYTES = 1024 * 1024"

definition FETCH_BODY_SNIPPET :: nat where "FETCH_BODY_SNIPPET = 200"

datatype fetch_outcome = FetchFound string | FetchNotFound

datatype fetch_error =
    FEHttp string string
  | FEHttpStatus string nat string
  | FETooLarge string nat
  | FENonUtf8 string
  | FEIo string string

definition show_fetch_error :: "fetch_error \<Rightarrow> string" where
  "show_fetch_error er =
     (case er of
        FEHttp url e \<Rightarrow> ''cannot fetch '' @ quoted url @ '': '' @ e
      | FEHttpStatus url st body \<Rightarrow> quoted url @ '' returned '' @ show_nat st @ '': '' @ body
      | FETooLarge url n \<Rightarrow> ''response from '' @ quoted url @ '' exceeds '' @ show_nat n @ '' bytes''
      | FENonUtf8 url \<Rightarrow> ''response from '' @ quoted url @ '' is not valid UTF-8''
      | FEIo url e \<Rightarrow> ''reading response body for '' @ quoted url @ '' failed: '' @ e)"

text \<open>\<open>take(n).read_to_end\<close>: at most \<open>n\<close> bytes, an error only if it comes before.\<close>

definition read_limited :: "nat \<Rightarrow> http_response \<Rightarrow> (u8 list, string) result" where
  "read_limited n r =
     (if n \<le> length (hr_body r) then Ok (take n (hr_body r))
      else case hr_broken r of Some e \<Rightarrow> Err e | None \<Rightarrow> Ok (hr_body r))"

definition fetch_text :: "http_client \<Rightarrow> string \<Rightarrow> (fetch_outcome, fetch_error) result" where
  "fetch_text get url =
     and_then (map_err (FEHttp url) (get url)) (\<lambda>response.
       if hr_status response = 404 then Ok FetchNotFound
       else if \<not> (200 \<le> hr_status response \<and> hr_status response < 300)
       then Err (FEHttpStatus url (hr_status response) (take_chars FETCH_BODY_SNIPPET (hr_text response)))
       else
         and_then (map_err (FEIo url) (read_limited (MAX_BYTES + 1) response)) (\<lambda>buf.
           if MAX_BYTES < length buf then Err (FETooLarge url MAX_BYTES)
           else and_then (ok_or (string_from_utf8 buf) (FENonUtf8 url)) (\<lambda>text.
             Ok (FetchFound text))))"

text \<open>The fetcher the trust check of \<open>TrustVerify\<close> is run with.\<close>

definition trust_fetcher :: "http_client \<Rightarrow> fetcher" where
  "trust_fetcher get url =
     (case fetch_text get url of
        Inr (FetchFound t) \<Rightarrow> Ok (Some t)
      | Inr FetchNotFound \<Rightarrow> Ok None
      | Inl e \<Rightarrow> Err (show_fetch_error e))"

text \<open>The outcomes in one view: reading one byte more than the cap only decides which.\<close>

lemma fetch_text_cases:
  "fetch_text get url =
     (case get url of
        Inl e \<Rightarrow> Err (FEHttp url e)
      | Inr r \<Rightarrow>
          if hr_status r = 404 then Ok FetchNotFound
          else if \<not> (200 \<le> hr_status r \<and> hr_status r < 300)
          then Err (FEHttpStatus url (hr_status r) (take_chars FETCH_BODY_SNIPPET (hr_text r)))
          else if MAX_BYTES < length (hr_body r) then Err (FETooLarge url MAX_BYTES)
          else
            (case hr_broken r of
               Some e \<Rightarrow> Err (FEIo url e)
             | None \<Rightarrow>
                 if valid_utf8 (hr_body r) then Ok (FetchFound (bytes_text (hr_body r)))
                 else Err (FENonUtf8 url)))"
  by (cases "get url") (auto simp: fetch_text_def read_limited_def string_from_utf8_def split: option.split)

section \<open>Properties\<close>

text \<open>C40: what a fetch accepts. A text is returned exactly if the request succeeds with a 2xx
  status and the complete body, of at most 1 MiB, arrives without an error and is valid
  UTF-8; the text is then that body byte for byte. A body above the cap is refused as too
  large even if the rest of it would fail, and the body quoted in an error has at most 200
  characters.\<close>

theorem fetch_text_accepts:
  "(fetch_text get url = Ok (FetchFound t) \<longleftrightarrow>
     (\<exists>r. get url = Ok r \<and> 200 \<le> hr_status r \<and> hr_status r < 300 \<and> hr_broken r = None
       \<and> length (hr_body r) \<le> MAX_BYTES \<and> valid_utf8 (hr_body r) \<and> as_bytes t = hr_body r))
   \<and> (fetch_text get url = Ok FetchNotFound \<longleftrightarrow> (\<exists>r. get url = Ok r \<and> hr_status r = 404))
   \<and> (fetch_text get url = Err (FETooLarge url n) \<longleftrightarrow>
       n = MAX_BYTES \<and> (\<exists>r. get url = Ok r \<and> 200 \<le> hr_status r \<and> hr_status r < 300
         \<and> MAX_BYTES < length (hr_body r)))
   \<and> \<not> (\<exists>st b. fetch_text get url = Err (FEHttpStatus url st b) \<and> 200 < char_count b)"
proof -
  have same: "bytes_text b = t \<longleftrightarrow> as_bytes t = b" for b by (metis as_bytes_text bytes_text_of_bytes)
  have snippet: "char_count (take_chars FETCH_BODY_SNIPPET s) \<le> 200" for s
    using take_chars_count [of 200 s] by (simp add: FETCH_BODY_SNIPPET_def)
  show ?thesis
    using snippet
    by (auto simp: fetch_text_cases same not_less split: sum.splits option.splits if_split_asm)
qed

end
