(* ===== verification/LogCmds.thy ===== *)
theory LogCmds
  imports Commands Http LogVerify
begin

text \<open>
  The log commands, \<open>swiyu-didtool/src/cmd/didlog.rs\<close>: loading a log from a file or from the
  server of a DID, verifying it, and listing or printing it. What a command prints is the
  value it returns; an index out of bounds, which panics, is an error of its own.
\<close>

section \<open>Data\<close>

text \<open>What every command runs in: the crates, the HTTP client, the root of the key store, the
  working directory, and the error of standard output, if it has one.\<close>

record ('ed, 'ec, 'es, 'ps) env =
  env_codecs :: codecs
  env_verifiers :: "('ed, 'ec) verifiers"
  env_keys :: "('es, 'ps) key_ops"
  env_http :: http_client
  env_pretty :: "json \<Rightarrow> string"
  env_store :: path
  env_cwd :: path
  env_stdout_error :: "string option"

datatype log_error =
    LGAmbiguousSource
  | LGAmbiguousFormat
  | LGForceWithoutOut
  | LGFileExists path
  | LGReadInput path io_error
  | LGWriteOutput path io_error
  | LGWriteStdout string
  | LGFetch fetch_error
  | LGResolve resolve_error
  | LGKeyStore keystore_error
  | LGParse did_log_error
  | LGVerification verify_error
  | LGBadSelector string
  | LGIndexOutOfRange nat nat
  | LGPanic

record loaded_log =
  ll_raw_lines :: "string list"
  ll_log :: "did_log_entry list"
  ll_source_path :: "path option"

record show_args =
  sa_did :: "string option"
  sa_input :: "path option"
  sa_out :: "path option"
  sa_force :: bool
  sa_raw :: bool
  sa_pretty :: bool

section \<open>Loading\<close>

definition DEFAULT_INPUT :: string where "DEFAULT_INPUT = ''did.jsonl''"

text \<open>The id in the newest entry that has one.\<close>

fun current_did_rev :: "did_log_entry list \<Rightarrow> string option" where
  "current_did_rev [] = None"
| "current_did_rev (e # es) =
     (case le_state e of
        StateValue doc \<Rightarrow>
          (case Option.bind (json_get doc ''id'') as_str of
             Some i \<Rightarrow> Some i
           | None \<Rightarrow> current_did_rev es)
      | StatePatch _ \<Rightarrow> current_did_rev es)"

definition current_did :: "did_log_entry list \<Rightarrow> string option" where
  "current_did log = current_did_rev (rev log)"

definition collect_raw_lines :: "string \<Rightarrow> string list" where
  "collect_raw_lines t = filter (\<lambda>l. trim l \<noteq> []) (str_lines t)"

definition fetch_log :: "http_client \<Rightarrow> string \<Rightarrow> (string, log_error) result" where
  "fetch_log get url =
     and_then (map_err LGFetch (fetch_text get url)) (\<lambda>r.
       case r of
         FetchFound t \<Rightarrow> Ok t
       | FetchNotFound \<Rightarrow> Err (LGFetch (FEHttpStatus url 404 [])))"

definition verify_loaded_log ::
  "codecs \<Rightarrow> ('ed, 'ec) verifiers \<Rightarrow> did_log_entry list \<Rightarrow> did option \<Rightarrow> (unit, log_error) result" where
  "verify_loaded_log c vs log target_did =
     (let is_tdw = (case log of [] \<Rightarrow> False | e # _ \<Rightarrow> le_format e = TDW03)
      in if \<not> is_tdw then Ok ()
         else
           (case (case target_did of
                Some d \<Rightarrow> Some d
              | None \<Rightarrow> Option.bind (current_did log) (\<lambda>t. res_ok (did_from_str t))) of
              Some d \<Rightarrow> map_err LGVerification (verify_log c vs log d)
            | None \<Rightarrow> Ok ()))"

definition load_log ::
  "('ed, 'ec, 'es, 'ps) env \<Rightarrow> string option \<Rightarrow> path option \<Rightarrow> files \<Rightarrow> (loaded_log, log_error) result" where
  "load_log env target input s =
     (if target \<noteq> None \<and> input \<noteq> None then Err LGAmbiguousSource
      else
        and_then
          (case target of
             Some tg \<Rightarrow>
               and_then (map_err LGResolve (resolve_did (env_store env) tg s)) (\<lambda>d.
               and_then (fetch_log (env_http env) (did_log_url d)) (\<lambda>t.
                 Ok (t, None, Some d)))
           | None \<Rightarrow>
               let p = (case input of Some p \<Rightarrow> p | None \<Rightarrow> env_cwd env @ [DEFAULT_INPUT])
               in and_then (map_err (LGReadInput p) (read_to_string p s)) (\<lambda>t.
                    Ok (t, Some p, None)))
          (\<lambda>(t, source_path, target_did).
             and_then (map_err LGParse (log_from_jsonl (env_codecs env) t)) (\<lambda>log.
             and_then (verify_loaded_log (env_codecs env) (env_verifiers env) log target_did) (\<lambda>_.
               Ok \<lparr>ll_raw_lines = collect_raw_lines t, ll_log = log, ll_source_path = source_path\<rparr>))))"

section \<open>Selecting an entry\<close>

datatype selector = SelLatest | SelIndex nat

text \<open>\<open>str::parse::<usize>\<close>: decimal digits after an optional plus sign, below \<open>2^64\<close>.\<close>

definition parse_usize :: "string \<Rightarrow> nat option" where
  "parse_usize s =
     (let ds = (case strip_prefix ''+'' s of Some r \<Rightarrow> r | None \<Rightarrow> s)
      in if ds = [] then None
         else Option.bind (read_nat ds) (\<lambda>n. if n < 2 ^ 64 then Some n else None))"

definition parse_selector :: "string \<Rightarrow> (selector, log_error) result" where
  "parse_selector s =
     (if s = ''latest'' then Ok SelLatest
      else case parse_usize s of
        Some n \<Rightarrow> if 1 \<le> n then Ok (SelIndex n) else Err (LGBadSelector s)
      | None \<Rightarrow> Err (LGBadSelector s))"

fun resolve_selector :: "selector \<Rightarrow> did_log_entry list \<Rightarrow> (nat, log_error) result" where
  "resolve_selector SelLatest log =
     (if length log = 0 then Err (LGIndexOutOfRange 1 (length log)) else Ok (length log - 1))"
| "resolve_selector (SelIndex n) log =
     (if length log < n then Err (LGIndexOutOfRange n (length log)) else Ok (n - 1))"

section \<open>Printing\<close>

datatype format = Raw | Pretty

definition format_from_flags :: "bool \<Rightarrow> bool \<Rightarrow> bool \<Rightarrow> format" where
  "format_from_flags to_file raw pretty =
     (if raw then Raw else if pretty then Pretty else if to_file then Raw else Pretty)"

definition format_pretty_header :: "nat \<Rightarrow> did_log_entry \<Rightarrow> string" where
  "format_pretty_header i e = ''# entry '' @ show_nat (i + 1) @ '' '' @ em_dash @ '' '' @ le_version_id e"

definition pretty_json :: "('ed, 'ec, 'es, 'ps) env \<Rightarrow> did_log_entry \<Rightarrow> string" where
  "pretty_json env e = env_pretty env (entry_to_json e)"

definition newline :: string where "newline = [CHR 0x0A]"

definition pretty_entry :: "('ed, 'ec, 'es, 'ps) env \<Rightarrow> nat \<Rightarrow> did_log_entry \<Rightarrow> string" where
  "pretty_entry env i e = format_pretty_header i e @ newline @ pretty_json env e @ newline"

fun pretty_entries :: "('ed, 'ec, 'es, 'ps) env \<Rightarrow> nat \<Rightarrow> did_log_entry list \<Rightarrow> string" where
  "pretty_entries env i [] = []"
| "pretty_entries env i (e # es) =
     (if 0 < i then newline else []) @ pretty_entry env i e @ pretty_entries env (Suc i) es"

fun render_show :: "('ed, 'ec, 'es, 'ps) env \<Rightarrow> loaded_log \<Rightarrow> format \<Rightarrow> string" where
  "render_show env l Raw =
     (let t = join_with newline (ll_raw_lines l) in if t \<noteq> [] then t @ newline else t)"
| "render_show env l Pretty = pretty_entries env 0 (ll_log l)"

text \<open>Indexing past the end is a panic: no text.\<close>

fun render_entry :: "('ed, 'ec, 'es, 'ps) env \<Rightarrow> loaded_log \<Rightarrow> nat \<Rightarrow> format \<Rightarrow> string option" where
  "render_entry env l i Raw =
     (if i < length (ll_raw_lines l) then Some (ll_raw_lines l ! i @ newline) else None)"
| "render_entry env l i Pretty =
     (if i < length (ll_log l) then Some (pretty_entry env i (ll_log l ! i)) else None)"

definition print_out :: "('ed, 'ec, 'es, 'ps) env \<Rightarrow> string \<Rightarrow> (string, log_error) result" where
  "print_out env t =
     (case env_stdout_error env of None \<Rightarrow> Ok t | Some e \<Rightarrow> Err (LGWriteStdout e))"

definition write_body ::
  "('ed, 'ec, 'es, 'ps) env \<Rightarrow> string \<Rightarrow> path option \<Rightarrow> bool \<Rightarrow> (string, log_error) io" where
  "write_body env body out force =
     (case out of
        Some p \<Rightarrow>
          io_then (io_look (\<lambda>s. if path_exists s p \<and> \<not> force then Err (LGFileExists p) else Ok ())) (\<lambda>_.
          io_then (io_map_err (LGWriteOutput p) (fs_write p body)) (\<lambda>_. io_ok []))
      | None \<Rightarrow> io_of (print_out env body))"

section \<open>The list of a log\<close>

definition keystore_hash_for :: "('ed, 'ec, 'es, 'ps) env \<Rightarrow> string \<Rightarrow> files \<Rightarrow> string option" where
  "keystore_hash_for env d s =
     Option.bind (res_ok (did_from_str d)) (\<lambda>parsed.
     Option.bind (res_ok (store_lookup (env_keys env) (env_store env) parsed s)) (\<lambda>found.
       map_option ke_hash found))"

text \<open>\<open>{:<w$}\<close> pads to a number of characters; the code computes the width in bytes.\<close>

definition pad_right :: "nat \<Rightarrow> string \<Rightarrow> string" where
  "pad_right w s = s @ replicate (w - char_count s) (CHR '' '')"

definition list_line :: "nat \<Rightarrow> nat \<Rightarrow> string \<Rightarrow> string \<Rightarrow> string \<Rightarrow> string" where
  "list_line vid_w vt_w vid vt flag =
     pad_right vid_w vid @ ''  '' @ pad_right vt_w vt @ ''  '' @ flag @ newline"

definition column_width :: "nat \<Rightarrow> string \<Rightarrow> string list \<Rightarrow> nat" where
  "column_width if_none title cells =
     max (if cells = [] then if_none else Max (set (map length cells))) (length title)"

definition print_list :: "('ed, 'ec, 'es, 'ps) env \<Rightarrow> did_log_entry list \<Rightarrow> files \<Rightarrow> (string, log_error) result" where
  "print_list env log s =
     (let vid_w = column_width 10 ''VERSION-ID'' (map le_version_id log);
          vt_w = column_width 0 ''VERSION-TIME'' (map le_version_time log);
          did_str = current_did log;
          hash = Option.bind did_str (\<lambda>d. keystore_hash_for env d s)
      in print_out env
           (''DID:            '' @ (case did_str of Some d \<Rightarrow> d | None \<Rightarrow> ''(unknown)'') @ newline
            @ ''Keystore hash:  '' @ (case hash of Some h \<Rightarrow> h | None \<Rightarrow> ''(not in keystore)'') @ newline
            @ newline
            @ list_line vid_w vt_w ''VERSION-ID'' ''VERSION-TIME'' ''DEACTIVATED''
            @ concat (map (\<lambda>e. list_line vid_w vt_w (le_version_id e) (le_version_time e)
                (if lp_deactivated (le_parameters e) = Some True then ''yes'' else ''no'')) log)))"

section \<open>Commands\<close>

definition log_cmd_list ::
  "('ed, 'ec, 'es, 'ps) env \<Rightarrow> string option \<Rightarrow> path option \<Rightarrow> files \<Rightarrow> (string, log_error) result" where
  "log_cmd_list env target input s =
     and_then (load_log env target input s) (\<lambda>loaded. print_list env (ll_log loaded) s)"

definition log_cmd_show :: "('ed, 'ec, 'es, 'ps) env \<Rightarrow> show_args \<Rightarrow> (string, log_error) io" where
  "log_cmd_show env a =
     (if sa_raw a \<and> sa_pretty a then io_err LGAmbiguousFormat
      else if sa_force a \<and> sa_out a = None then io_err LGForceWithoutOut
      else
        io_then (io_look (load_log env (sa_did a) (sa_input a))) (\<lambda>loaded.
          let fmt = format_from_flags (sa_out a \<noteq> None) (sa_raw a) (sa_pretty a)
          in write_body env (render_show env loaded fmt) (sa_out a) (sa_force a)))"

definition log_cmd_entry ::
  "('ed, 'ec, 'es, 'ps) env \<Rightarrow> show_args \<Rightarrow> string option \<Rightarrow> (string, log_error) io" where
  "log_cmd_entry env a at_sel =
     (if sa_raw a \<and> sa_pretty a then io_err LGAmbiguousFormat
      else if sa_force a \<and> sa_out a = None then io_err LGForceWithoutOut
      else
        io_then (io_of (parse_selector (case at_sel of Some t \<Rightarrow> t | None \<Rightarrow> ''latest''))) (\<lambda>sel.
        io_then (io_look (load_log env (sa_did a) (sa_input a))) (\<lambda>loaded.
        io_then (io_of (resolve_selector sel (ll_log loaded))) (\<lambda>i.
          let fmt = format_from_flags (sa_out a \<noteq> None) (sa_raw a) (sa_pretty a)
          in io_then (io_of (ok_or (render_entry env loaded i fmt) LGPanic)) (\<lambda>body.
               write_body env body (sa_out a) (sa_force a))))))"

section \<open>Lines of a log\<close>

text \<open>White space at the end of a line does not matter to the parser.\<close>

lemma strip_prefix_snoc:
  "p \<noteq> l @ [x] \<Longrightarrow> strip_prefix p (l @ [x]) = map_option (\<lambda>r. r @ [x]) (strip_prefix p l)"
proof -
  assume ne: "p \<noteq> l @ [x]"
  show ?thesis
  proof (cases "strip_prefix p l")
    case (Some r)
    then have "l @ [x] = p @ (r @ [x])" by (simp add: ok_iff)
    with Some show ?thesis by (simp add: strip_prefix_some)
  next
    case None
    have "strip_prefix p (l @ [x]) = None"
    proof (rule ccontr)
      assume "strip_prefix p (l @ [x]) \<noteq> None"
      then obtain r where r: "l @ [x] = p @ r" by (auto simp: ok_iff)
      with ne obtain r' where "r = r' @ [x]" by (cases r rule: rev_cases) auto
      with r None show False by (simp add: strip_prefix_none)
    qed
    with None show ?thesis by simp
  qed
qed

lemma strip_one_of_snoc:
  "(\<And>p. p \<in> set ps \<Longrightarrow> p \<noteq> l @ [x]) \<Longrightarrow>
   strip_one_of ps (l @ [x]) = map_option (\<lambda>r. r @ [x]) (strip_one_of ps l)"
  by (induction ps) (auto simp: strip_prefix_snoc split: option.split)

lemma white_space_cr: "p \<in> set white_space \<Longrightarrow> l \<noteq> [] \<Longrightarrow> p \<noteq> l @ [CHR 0x0D]"
  by (cases l rule: rev_cases) (auto simp: white_space_def)

lemma strip_white_space_cr:
  "strip_one_of white_space [CHR 0x0D] = Some []"
  "strip_one_of (map rev white_space) (CHR 0x0D # s) = Some s"
  "strip_one_of white_space [] = None"
  by (simp_all add: white_space_def)

lemma trim_front_cr:
  "trim_front white_space (l @ [CHR 0x0D]) =
     (let t = trim_front white_space l in if t = [] then [] else t @ [CHR 0x0D])"
proof (induction l rule: length_induct)
  case (1 l)
  show ?case
  proof (cases "l = []")
    case True
    then show ?thesis
      by (simp add: trim_front.simps [of _ "[CHR 0x0D]"] trim_front.simps [of _ "[]"] strip_white_space_cr)
  next
    case False
    have step: "strip_one_of white_space (l @ [CHR 0x0D]) =
        map_option (\<lambda>r. r @ [CHR 0x0D]) (strip_one_of white_space l)"
      by (rule strip_one_of_snoc) (use False white_space_cr in blast)
    show ?thesis
    proof (cases "strip_one_of white_space l")
      case None
      with step False show ?thesis by (simp add: trim_front.simps [of _ l] trim_front.simps [of _ "l @ _"])
    next
      case (Some r)
      with step 1 strip_one_of_shorter [OF Some] show ?thesis
        by (simp add: trim_front.simps [of _ l] trim_front.simps [of _ "l @ _"])
    qed
  qed
qed

lemma trim_end_cr: "trim_end (s @ [CHR 0x0D]) = trim_end s"
  by (simp add: trim_end_def trim_front.simps [of _ "CHR 0x0D # _"] strip_white_space_cr)

lemma trim_cr [simp]: "trim (l @ [CHR 0x0D]) = trim l"
  by (simp add: trim_def trim_start_def trim_front_cr Let_def trim_end_cr)

lemma trim_strip_cr [simp]: "trim (strip_cr l) = trim l"
  by (cases l rule: rev_cases) (auto simp: strip_cr_def)

text \<open>The parser reads the lines that are not blank, each on its own.\<close>

definition line_parses :: "codecs \<Rightarrow> string \<Rightarrow> did_log_entry \<Rightarrow> bool" where
  "line_parses c l e \<longleftrightarrow> (\<exists>v. json_from_str c (trim l) = Ok v \<and> entry_from_json v = Ok e)"

lemma log_from_lines_ok:
  "log_from_lines c i ls = Ok es \<longleftrightarrow> list_all2 (line_parses c) (filter (\<lambda>l. trim l \<noteq> []) ls) es"
  by (induction ls arbitrary: i es)
    (auto simp: ok_iff line_parses_def list_all2_Cons1)

lemma log_from_jsonl_ok:
  "log_from_jsonl c t = Ok es \<longleftrightarrow> list_all2 (line_parses c) (collect_raw_lines t) es"
  by (simp add: log_from_jsonl_def log_from_lines_ok collect_raw_lines_def)

lemma str_lines_no_lf: "l \<in> set (str_lines t) \<Longrightarrow> CHR 0x0A \<notin> set l"
proof -
  have cr: "set (strip_cr p) \<subseteq> set p" for p by (auto simp: strip_cr_def dest: in_set_butlastD)
  assume "l \<in> set (str_lines t)"
  then consider p where "p \<in> set (split_on (CHR 0x0A) t)" "l = strip_cr p" | "l \<in> set (split_on (CHR 0x0A) t)"
    by (auto simp: str_lines_def Let_def dest: in_set_butlastD split: if_split_asm)
  then show ?thesis by cases (use cr split_on_pieces in blast)+
qed

lemma str_lines_ended:
  assumes "\<And>l. l \<in> set ls \<Longrightarrow> CHR 0x0A \<notin> set l"
  shows "str_lines (concat (map (\<lambda>l. l @ newline) ls)) = map strip_cr ls"
proof -
  have "split_on (CHR 0x0A) (concat (map (\<lambda>l. l @ newline) ls)) = ls @ [[]]"
    using assms by (induction ls) (simp_all add: split_on_append newline_def)
  then show ?thesis by (simp add: str_lines_def Let_def)
qed

lemma line_parses_strip_cr [simp]: "line_parses c (strip_cr l) e = line_parses c l e"
  by (simp add: line_parses_def)

text \<open>A text made of the lines of a log, each ended by a line feed, is that log again.\<close>

lemma parse_ended:
  assumes "\<And>l. l \<in> set ls \<Longrightarrow> CHR 0x0A \<notin> set l" "\<And>l. l \<in> set ls \<Longrightarrow> trim l \<noteq> []"
  shows "log_from_jsonl c (concat (map (\<lambda>l. l @ newline) ls)) = Ok es \<longleftrightarrow>
    list_all2 (line_parses c) ls es"
proof -
  have "filter (\<lambda>l. trim l \<noteq> []) (map strip_cr ls) = map strip_cr ls"
    using assms(2) by (simp add: filter_map o_def)
  then show ?thesis
    by (simp add: log_from_jsonl_ok collect_raw_lines_def str_lines_ended [OF assms(1)] list_all2_map1)
qed

lemma raw_lines:
  "l \<in> set (collect_raw_lines t) \<Longrightarrow> CHR 0x0A \<notin> set l \<and> trim l \<noteq> []"
  by (auto simp: collect_raw_lines_def dest: str_lines_no_lf)

lemma join_ended:
  "ls \<noteq> [] \<Longrightarrow> join_with newline ls @ newline = concat (map (\<lambda>l. l @ newline) ls)"
  by (induction ls rule: induct_list012) (simp_all add: join_with_Cons)

section \<open>A loaded log\<close>

lemma load_log_ok:
  "load_log env target input s = Ok l \<longleftrightarrow>
     \<not> (target \<noteq> None \<and> input \<noteq> None) \<and>
     (\<exists>t d. (case target of
          Some tg \<Rightarrow> \<exists>d'. d = Some d' \<and> ll_source_path l = None \<and> resolve_did (env_store env) tg s = Ok d'
            \<and> fetch_log (env_http env) (did_log_url d') = Ok t
        | None \<Rightarrow> \<exists>p. d = None \<and> ll_source_path l = Some p
            \<and> p = (case input of Some p \<Rightarrow> p | None \<Rightarrow> env_cwd env @ [DEFAULT_INPUT])
            \<and> read_to_string p s = Ok t)
      \<and> log_from_jsonl (env_codecs env) t = Ok (ll_log l) \<and> ll_raw_lines l = collect_raw_lines t
      \<and> verify_loaded_log (env_codecs env) (env_verifiers env) (ll_log l) d = Ok ())"
  by (cases target; cases input; cases l)
    (auto simp: load_log_def ok_iff Let_def)

lemma loaded_lines:
  assumes "load_log env target input s = Ok l"
  shows "list_all2 (line_parses (env_codecs env)) (ll_raw_lines l) (ll_log l)"
    "x \<in> set (ll_raw_lines l) \<Longrightarrow> CHR 0x0A \<notin> set x" "x \<in> set (ll_raw_lines l) \<Longrightarrow> trim x \<noteq> []"
  using assms raw_lines by (auto simp: load_log_ok log_from_jsonl_ok)

section \<open>Properties\<close>

text \<open>C15: a loaded log is authentic. A \<open>did:tdw\<close> log loaded for a DID verifies as that DID's
  log: its first entry derives the DID's SCID and every document has the DID as its id. A log
  read from a file verifies as the log of the DID it announces itself, if it announces a
  well-formed one.\<close>

theorem loaded_log_authentic:
  assumes "load_log env target input s = Ok l" "ll_log l \<noteq> []" "le_format (hd (ll_log l)) = TDW03"
  shows "case target of
      Some tg \<Rightarrow> \<exists>d. resolve_did (env_store env) tg s = Ok d
        \<and> verify_log (env_codecs env) (env_verifiers env) (ll_log l) d = Ok ()
        \<and> current_did (ll_log l) = Some (did_to_string d)
    | None \<Rightarrow> \<forall>t d. current_did (ll_log l) = Some t \<and> did_from_str t = Ok d \<longrightarrow>
        verify_log (env_codecs env) (env_verifiers env) (ll_log l) d = Ok ()"
proof -
  have shape: "ll_log l = e # es \<Longrightarrow> le_format e = TDW03" for e es using assms(3) by simp
  have cur: "current_did (ll_log l) = Some (did_to_string d)"
    if v: "verify_log (env_codecs env) (env_verifiers env) (ll_log l) d = Ok ()" for d
  proof -
    have "length (ll_log l) - 1 < length (ll_log l)" using assms(2) by simp
    with v obtain scid ks where ev: "entry_valid (env_codecs env) (env_verifiers env) scid (did_to_string d)
        (length (ll_log l) - 1) (prev_version scid (ll_log l) (length (ll_log l) - 1)) ks
        (ll_log l ! (length (ll_log l) - 1))"
      by (rule valid_log_entry)
    obtain xs x where snoc: "ll_log l = xs @ [x]" using assms(2) by (cases "ll_log l" rule: rev_cases) auto
    with ev show ?thesis by (auto simp: entry_valid_def current_did_def)
  qed
  show ?thesis
    using assms(1,2) cur
    by (cases "ll_log l"; cases target)
      (auto simp: load_log_ok verify_loaded_log_def ok_iff dest: shape split: if_split_asm)
qed

text \<open>Other logs are accepted as they are. A log whose first entry is in the \<open>did:webvh\<close>
  format, or an empty one, is loaded for any DID whatever its entries say: not one hash,
  signature or id in it is checked, although \<open>--did\<close> was given.\<close>

theorem webvh_log_unverified:
  assumes "resolve_did (env_store env) tg s = Ok d" "fetch_log (env_http env) (did_log_url d) = Ok t"
    and "log_from_jsonl (env_codecs env) t = Ok log" "log = [] \<or> le_format (hd log) = WebVH10"
  shows "load_log env (Some tg) None s =
    Ok \<lparr>ll_raw_lines = collect_raw_lines t, ll_log = log, ll_source_path = None\<rparr>"
  using assms by (cases log) (auto simp: load_log_def verify_loaded_log_def)

text \<open>What is printed is what was loaded. For a loaded log, every entry can be printed in
  both formats; the raw text of the log parses to exactly the log again, and the raw text of
  one entry to exactly that entry, blank lines and line endings of the source notwithstanding.\<close>

theorem raw_output_faithful:
  assumes "load_log env target input s = Ok l"
  shows "(i < length (ll_log l) \<longrightarrow> render_entry env l i fmt \<noteq> None)
    \<and> log_from_jsonl (env_codecs env) (render_show env l Raw) = Ok (ll_log l)
    \<and> (i < length (ll_log l) \<longrightarrow>
        map_option (log_from_jsonl (env_codecs env)) (render_entry env l i Raw) = Some (Ok [ll_log l ! i]))"
proof -
  note lines = loaded_lines [OF assms]
  have len: "length (ll_raw_lines l) = length (ll_log l)" using lines(1) by (rule list_all2_lengthD)
  have all: "log_from_jsonl (env_codecs env) (concat (map (\<lambda>x. x @ newline) (ll_raw_lines l))) = Ok (ll_log l)"
    using lines by (simp add: parse_ended)
  have "render_show env l Raw = concat (map (\<lambda>x. x @ newline) (ll_raw_lines l))"
  proof (cases "ll_raw_lines l = []")
    case False
    then obtain x xs where "ll_raw_lines l = x # xs" by (cases "ll_raw_lines l") auto
    moreover have "x \<noteq> []" using lines(3) [of x] \<open>ll_raw_lines l = x # xs\<close>
      by (auto simp: trim_def trim_start_def trim_end_def white_space_def trim_front.simps [of _ "[]"])
    ultimately have "join_with newline (ll_raw_lines l) \<noteq> []" by (cases xs) (simp_all add: join_with_Cons)
    then show ?thesis using join_ended [OF False] by (simp add: Let_def)
  qed simp
  moreover have "log_from_jsonl (env_codecs env) (ll_raw_lines l ! i @ newline) = Ok [ll_log l ! i]"
    if i: "i < length (ll_log l)"
  proof -
    have "ll_raw_lines l ! i \<in> set (ll_raw_lines l)" using i len by simp
    then show ?thesis
      using parse_ended [of "[ll_raw_lines l ! i]" "env_codecs env" "[ll_log l ! i]"] lines i len
      by (auto simp: list_all2_conv_all_nth)
  qed
  ultimately show ?thesis using all len by (cases fmt) auto
qed

text \<open>\<open>log entry\<close> never panics. Whatever the selector, the source and the output, the index
  it computes is within both the entries and the raw lines.\<close>

theorem entry_command_never_panics: "fst (log_cmd_entry env a at_sel s) \<noteq> Err LGPanic"
proof
  assume "fst (log_cmd_entry env a at_sel s) = Err LGPanic"
  then obtain s' where run: "log_cmd_entry env a at_sel s = (Err LGPanic, s')" by (metis prod.collapse)
  have quiet: "parse_selector t \<noteq> Err LGPanic" "resolve_selector sel log \<noteq> Err LGPanic"
    "write_body env body out force s1 \<noteq> (Err LGPanic, s2)" for t sel log body out force s1 s2
    by (auto simp: parse_selector_def write_body_def print_out_def err_iff split: option.splits if_split_asm)
      (cases sel; auto split: if_split_asm)
  have load: "load_log env target input s \<noteq> Err LGPanic" for target input
    by (auto simp: load_log_def err_iff Let_def fetch_log_def verify_loaded_log_def
        split: option.splits if_split_asm fetch_outcome.splits list.splits)
  have bound: "i < length (ll_log l)"
    if "resolve_selector sel (ll_log l) = Ok i" "parse_selector t = Ok sel" for sel i l t
    using that by (cases sel) (auto simp: parse_selector_def split: option.splits if_split_asm)
  have "\<exists>l i fmt sel. load_log env (sa_did a) (sa_input a) s = Ok l \<and> render_entry env l i fmt = None
      \<and> parse_selector (case at_sel of Some t \<Rightarrow> t | None \<Rightarrow> ''latest'') = Ok sel
      \<and> resolve_selector sel (ll_log l) = Ok i"
    using run quiet load
    by (auto simp: log_cmd_entry_def err_iff Let_def split: if_split_asm)
  then obtain l i fmt sel where l: "load_log env (sa_did a) (sa_input a) s = Ok l"
      "render_entry env l i fmt = None" "i < length (ll_log l)"
    using bound by blast
  have "length (ll_raw_lines l) = length (ll_log l)"
    using loaded_lines(1) [OF l(1)] by (rule list_all2_lengthD)
  with l(2,3) show False by (cases fmt) auto
qed

section \<open>Instances\<close>

text \<open>A server that answers every request with a text, and codecs with a given JSON syntax.\<close>

definition text_codecs :: "(json \<Rightarrow> string) \<Rightarrow> (string \<Rightarrow> json) \<Rightarrow> codecs" where
  "text_codecs f g = plain_codecs\<lparr>json_to_string := f, json_from_str := (\<lambda>t. Ok (g t))\<rparr>"

definition text_env :: "codecs \<Rightarrow> (string, string) key_ops \<Rightarrow> string \<Rightarrow> (u8 list, u8 list, string, string) env" where
  "text_env c ops t = \<lparr>env_codecs = c, env_verifiers = plain_verifiers, env_keys = ops,
     env_http = (\<lambda>_. Ok \<lparr>hr_status = 200, hr_body = as_bytes t, hr_broken = None, hr_text = []\<rparr>),
     env_pretty = (\<lambda>_. ''p''), env_store = [''r''], env_cwd = [], env_stdout_error = None\<rparr>"

lemma text_env_fields [simp]:
  "env_codecs (text_env c ops t) = c" "env_verifiers (text_env c ops t) = plain_verifiers"
  "env_keys (text_env c ops t) = ops" "env_store (text_env c ops t) = [''r'']" "env_cwd (text_env c ops t) = []"
  by (simp_all add: text_env_def)

definition two_lines :: string where
  "two_lines = ''x'' @ newline @ ''z''"

definition sample_first :: did_log_entry where
  "sample_first = sample_entry ''1'' (Some [sample_multikey])"

definition webvh_first :: did_log_entry where
  "webvh_first = entry_new_webvh ''x'' ''t'' (params_new_webvh_minimal ''m'' ''s'' []) (StateValue JNull) []"

lemma line_texts: "trim ''x'' = ''x''" "trim ''z'' = ''z''" "trim ''y'' = ''y''"
  "collect_raw_lines ''x'' = [''x'']" "collect_raw_lines two_lines = [''x'', ''z'']"
proof -
  show t: "trim ''x'' = ''x''" "trim ''z'' = ''z''" "trim ''y'' = ''y''"
    by (simp_all add: trim_def trim_start_def trim_end_def white_space_def trim_front.simps)
  show "collect_raw_lines ''x'' = [''x'']" by (simp add: t collect_raw_lines_def str_lines_def)
  have "str_lines two_lines = [''x'', ''z'']"
    by (simp add: str_lines_def two_lines_def newline_def strip_cr_def)
  then show "collect_raw_lines two_lines = [''x'', ''z'']" by (simp add: t collect_raw_lines_def)
qed

lemma text_fetched:
  assumes "t = ''x'' \<or> t = two_lines"
  shows "fetch_log (env_http (text_env c ops t)) url = Ok t"
proof -
  have "valid_utf8 (as_bytes ''x'')" "valid_utf8 (as_bytes two_lines)" by code_simp+
  then show ?thesis
    using assms by (auto simp: fetch_log_def text_env_def fetch_text_cases MAX_BYTES_def)
      (simp_all add: two_lines_def newline_def)
qed

lemma sample_wire: "wire_entry (sample_entry n uks)" "wire_entry webvh_first"
  by (simp_all add: wire_entry_def sample_entry_def webvh_first_def entry_new_tdw_def
      entry_new_webvh_def params_new_webvh_minimal_def params_new_webvh_def params_new_tdw_def
      entry_on_wire_def params_on_wire_def portable_written_def)

text \<open>The sample log verifies whatever its JSON syntax is, if all values read are arrays.\<close>

lemma sample_entry_text:
  assumes arrays: "\<And>t. \<exists>xs. g t = JArray xs"
    and "n = show_nat (unat ((of_nat i :: u32) + 1))" "sample_multikey \<in> set ks"
  shows "entry_valid (text_codecs f g) plain_verifiers sample_scid (did_to_string sample_did) i prev ks
    (sample_entry n uks)"
proof -
  let ?c = "text_codecs f g"
  let ?doc = "json_obj [(''id'', JString (did_to_string sample_did))]"
  have "proof_valid plain_codecs plain_verifiers (sample_entry n uks) ?doc ks"
    by (rule sample_proof_valid) (rule assms(3))
  moreover have "bs58_decode ?c = bs58_decode plain_codecs" "sha256 ?c = sha256 plain_codecs"
    "jcs_to_vec ?c = jcs_to_vec plain_codecs" by (simp_all add: text_codecs_def)
  moreover from this have "decode_ed25519_multikey ?c = decode_ed25519_multikey plain_codecs"
    by (intro ext) (simp add: decode_ed25519_multikey_def mb_from_str_def cong: list.case_cong if_cong)
  ultimately have pv: "proof_valid ?c plain_verifiers (sample_entry n uks) ?doc ks"
    by (simp add: proof_valid_def eddsa_jcs_2022_hash_def)
  have hash: "derive_entry_hash ?c (JArray xs) = sample_scid" for xs
    using sample_hash [of xs] by (simp add: derive_entry_hash_def hash_log_entry_def text_codecs_def)
  have "genesis_bound ?c sample_scid v" for v
  proof -
    obtain xs where "g (str_replace sample_scid ''{SCID}'' (json_to_string ?c v)) = JArray xs"
      using arrays by blast
    then show ?thesis
      using hash [of xs] by (simp add: genesis_bound_def derive_scid_def derive_entry_hash_def)
        (simp add: text_codecs_def)
  qed
  with pv hash assms(2) show ?thesis
    by (simp add: entry_valid_def sample_entry_def entry_new_tdw_def hash_form_def json_obj_def)
qed

lemma sample_verifies_text:
  assumes arrays: "\<And>t. \<exists>xs. g t = JArray xs"
  shows "verify_log (text_codecs f g) plain_verifiers [sample_first] sample_did = Ok ()"
    "verify_log (text_codecs f g) plain_verifiers sample_log sample_did = Ok ()"
proof -
  have one: "show_nat (unat ((of_nat 0 :: u32) + 1)) = ''1''"
    "show_nat (unat ((of_nat (Suc 0) :: u32) + 1)) = ''2''"
    by (simp_all add: show_nat.simps digit_char_def)
  have fields: "le_format (sample_entry n uks) = TDW03" "lp_update_keys (le_parameters (sample_entry n uks)) = uks"
    for n uks
    by (simp_all add: sample_entry_def entry_new_tdw_def params_new_tdw_def)
  have scid: "did_scid sample_did = Some sample_scid" by (simp add: sample_did_def)
  have e1: "entry_valid (text_codecs f g) plain_verifiers sample_scid (did_to_string sample_did) 0 p
      [sample_multikey] sample_first" for p
    unfolding sample_first_def by (rule sample_entry_text [OF arrays one(1) [symmetric]]) simp
  have e2: "entry_valid (text_codecs f g) plain_verifiers sample_scid (did_to_string sample_did) (Suc 0) p
      [sample_multikey] (sample_entry ''2'' (Some []))" for p
    by (rule sample_entry_text [OF arrays one(2) [symmetric]]) simp
  show "verify_log (text_codecs f g) plain_verifiers [sample_first] sample_did = Ok ()"
    using e1 by (simp add: verify_log_valid valid_log_def scid authorized_def)
      (simp add: sample_first_def fields)
  show "verify_log (text_codecs f g) plain_verifiers sample_log sample_did = Ok ()"
    using e1 e2 by (auto simp: verify_log_valid valid_log_def scid authorized_def sample_log_def
        less_Suc_eq fields sample_first_def)
qed

lemma sample_resolved: "did_from_str (did_to_string sample_did) = Ok sample_did"
  "resolve_did root (did_to_string sample_did) s = Ok sample_did"
proof -
  have "wf_did sample_did"
    by (simp add: wf_did_def sample_did_def sample_scid_def is_valid_domain_def in_bytes_text)
      (simp add: bytes_text_def)
  then show "did_from_str (did_to_string sample_did) = Ok sample_did"
    by (rule did_from_str_to_string) (simp add: sample_did_def)
  then show "resolve_did root (did_to_string sample_did) s = Ok sample_did"
    by (simp add: resolve_did_def is_hash_def did_to_string_def sample_did_def sample_scid_def bytes_text_def)
qed

lemma text_loaded:
  assumes "t = ''x'' \<and> map g [''x''] = map entry_to_json log \<or> t = two_lines \<and> map g [''x'', ''z''] = map entry_to_json log"
    and "\<And>e. e \<in> set log \<Longrightarrow> wire_entry e"
    and "verify_loaded_log (text_codecs f g) plain_verifiers log (Some sample_did) = Ok ()"
  shows "load_log (text_env (text_codecs f g) ops t) (Some (did_to_string sample_did)) None s
    = Ok \<lparr>ll_raw_lines = collect_raw_lines t, ll_log = log, ll_source_path = None\<rparr>"
proof -
  have read: "json_from_str (text_codecs f g) x = Ok (g x)" for x by (simp add: text_codecs_def)
  have "log_from_jsonl (text_codecs f g) t = Ok log"
    using assms(1,2)
    by (auto simp: log_from_jsonl_ok line_texts line_parses_def read entry_codec.dec_enc list_all2_Cons1
        map_eq_Cons_conv)
  then show ?thesis
    using assms(1,3) text_fetched [of t] by (auto simp: load_log_def sample_resolved)
qed

lemma sample_loaded:
  assumes "\<And>t. \<exists>xs. g t = JArray xs" "g ''x'' = entry_to_json sample_first"
  shows "load_log (text_env (text_codecs f g) ops ''x'') (Some (did_to_string sample_did)) None s
    = Ok \<lparr>ll_raw_lines = [''x''], ll_log = [sample_first], ll_source_path = None\<rparr>"
proof -
  have "le_format sample_first = TDW03" by (simp add: sample_first_def sample_entry_def entry_new_tdw_def)
  then show ?thesis
    using text_loaded [of "''x''" g "[sample_first]" f ops s] sample_verifies_text(1) [of g f] assms sample_wire(1)
    by (simp add: verify_loaded_log_def line_texts sample_first_def)
qed

definition sample_syntax :: "string \<Rightarrow> json" where
  "sample_syntax t = entry_to_json sample_first"

lemma sample_syntax_arrays: "\<exists>xs. sample_syntax t = JArray xs"
  by (simp add: sample_syntax_def sample_first_def sample_entry_def entry_new_tdw_def entry_to_json_def)

lemmas sample_syntax_loaded = sample_loaded [of sample_syntax, OF sample_syntax_arrays, unfolded sample_syntax_def, OF refl]

theorem loaded_log_authentic_witness:
  "current_did [sample_first] = Some (did_to_string sample_did)"
  using loaded_log_authentic [OF sample_syntax_loaded] sample_resolved
  by (simp add: sample_first_def sample_entry_def entry_new_tdw_def)

theorem webvh_log_unverified_witness:
  "load_log (text_env (text_codecs (\<lambda>_. []) (\<lambda>_. entry_to_json webvh_first)) plain_keys ''x'')
     (Some (did_to_string sample_did)) None (one_file [''a''] ''b'')
   = Ok \<lparr>ll_raw_lines = [''x''], ll_log = [webvh_first], ll_source_path = None\<rparr>"
proof -
  let ?c = "text_codecs (\<lambda>_. []) (\<lambda>_. entry_to_json webvh_first)"
  have "log_from_jsonl ?c ''x'' = Ok [webvh_first]"
    using sample_wire(2)
    by (simp add: log_from_jsonl_ok line_texts line_parses_def) (simp add: text_codecs_def entry_codec.dec_enc)
  then show ?thesis
    using webvh_log_unverified [of "text_env ?c plain_keys ''x''" _ _ sample_did "''x''" "[webvh_first]"]
      sample_resolved(2) text_fetched [of "''x''"]
    by (simp add: line_texts webvh_first_def entry_new_webvh_def)
qed

theorem raw_output_faithful_witness:
  "log_from_jsonl (text_codecs (\<lambda>_. []) (\<lambda>_. entry_to_json sample_first))
     (render_show (text_env (text_codecs (\<lambda>_. []) (\<lambda>_. entry_to_json sample_first)) plain_keys ''x'')
        \<lparr>ll_raw_lines = [''x''], ll_log = [sample_first], ll_source_path = None\<rparr> Raw)
   = Ok [sample_first]"
  using raw_output_faithful [OF sample_syntax_loaded, where i = 0 and fmt = Raw and f1 = "\<lambda>_. []" and ops1 = plain_keys]
  by (simp del: render_show.simps)

end
