(* ===== verification/DidCmds.thy ===== *)
theory DidCmds
  imports LogCmds IntegrityProof
begin

text \<open>
  The commands that change a DID, \<open>swiyu-didtool/src/cmd/did/create.rs\<close>, \<open>rotate.rs\<close> and
  \<open>deactivate.rs\<close>: each reads the log and the key store, builds and signs one entry, writes the
  log, commits the keys and publishes, in this order. Generated keys, the clock and the
  registry are parameters; a command returns what it reports and the files it leaves.
\<close>

section \<open>Surroundings\<close>

text \<open>The key pairs the generator hands out, for the three roles.\<close>

record ('es, 'ps) fresh_keys =
  fk_authorized :: 'es
  fk_authentication :: 'ps
  fk_assertion :: 'ps

text \<open>Time in nanoseconds, with \<open>chrono\<close>'s RFC 3339 parser and its printer to seconds.\<close>

record clock =
  clk_now :: int
  clk_parse :: "string \<Rightarrow> int option"
  clk_show :: "int \<Rightarrow> string"

record allocation =
  al_url :: string
  al_identifier :: string

text \<open>The registry (\<open>swiyu.rs\<close>): allocating a place for a partner at a registry, and publishing a
  log there under an identifier; an error is its text.\<close>

record registry =
  reg_allocate :: "string \<Rightarrow> string \<Rightarrow> (allocation, string) result"
  reg_publish :: "string \<Rightarrow> string \<Rightarrow> string \<Rightarrow> string \<Rightarrow> (unit, string) result"

definition nanos :: "int \<Rightarrow> int" where "nanos secs = secs * 1000000000"

text \<open>A signing key as the signer of \<open>IntegrityProof\<close>, and its multikey.\<close>

definition signer_of :: "('es, 'ps) key_ops \<Rightarrow> 'es \<Rightarrow> ed_signer" where
  "signer_of ops k = \<lparr>ed_public = es_public ops k, ed_sign = es_sign ops k\<rparr>"

definition key_multikey :: "codecs \<Rightarrow> ('es, 'ps) key_ops \<Rightarrow> 'es \<Rightarrow> string" where
  "key_multikey c ops k = multikey_of c (es_public ops k)"

definition did_key_of :: "string \<Rightarrow> string" where
  "did_key_of mk = ''did:key:'' @ mk @ ''#'' @ mk"

section \<open>Creating a DID\<close>

record create_args =
  ca_url :: "string option"
  ca_swiyu :: bool
  ca_partner_id :: "string option"
  ca_registry_url :: "string option"
  ca_no_publish :: bool
  ca_format :: log_entry_format
  ca_out :: path
  ca_authorized_key :: "path option"
  ca_authentication_key :: "path option"
  ca_assertion_key :: "path option"

datatype create_error =
    CRUrl string
  | CRAuthorizedKey crypto_error
  | CRAuthenticationKey crypto_error
  | CRAssertionKey crypto_error
  | CRIdenticalKeys
  | CRNoUrlSource
  | CRAmbiguousUrlSource
  | CRRegistryArgs registry_args_error
  | CRNoPublishWithoutSwiyu
  | CRPublishFailed string path
  | CRWriteLog path io_error
  | CRKeyStore keystore_error
  | CRDid did_error
  | CRJson string
  | CRSwiyu string
  | CRPanic

definition url_to_did_components :: "string \<Rightarrow> (string \<times> string option, create_error) result" where
  "url_to_did_components url =
     and_then (ok_or (strip_prefix ''https://'' url)
                 (CRUrl (''URL must use https:// scheme: '' @ url))) (\<lambda>rest.
       let (host, path_str) = (case split_once (CHR ''/'') rest of
              Some (h, p) \<Rightarrow> (h, p) | None \<Rightarrow> (rest, []))
       in if host = [] then Err (CRUrl ''URL is missing a host'')
          else
            let did_host = (case split_once (CHR '':'') host of
                   Some (h, port) \<Rightarrow> h @ ''%3A'' @ port | None \<Rightarrow> host);
                segs0 = filter (\<lambda>x. x \<noteq> []) (split_on (CHR ''/'') path_str);
                segs = (if segs0 \<noteq> [] \<and> last segs0 = ''did.jsonl'' then butlast segs0 else segs0);
                did_path = (if segs = [] \<or> segs = [''.well-known''] then None
                            else Some (join_with '':'' segs))
            in Ok (did_host, did_path))"

fun build_did :: "log_entry_format \<Rightarrow> string option \<Rightarrow> string \<Rightarrow> string option \<Rightarrow> (did, did_error) result" where
  "build_did TDW03 scid dmn path = try_new_tdw scid dmn path"
| "build_did WebVH10 scid dmn path = try_new_webvh scid dmn path"

definition prepare_keys ::
  "('es, 'ps) key_ops \<Rightarrow> ('es, 'ps) fresh_keys \<Rightarrow> create_args \<Rightarrow> files \<Rightarrow>
   (('es, 'ps) staged_keys, create_error) result" where
  "prepare_keys ops fresh args s =
     and_then (case ca_authorized_key args of
         Some p \<Rightarrow> map_err CRAuthorizedKey (read_private_key_eddsa ops p s)
       | None \<Rightarrow> Ok (fk_authorized fresh)) (\<lambda>a.
     and_then (case ca_authentication_key args of
         Some p \<Rightarrow> map_err CRAuthenticationKey (read_private_key_ecdsa ops p s)
       | None \<Rightarrow> Ok (fk_authentication fresh)) (\<lambda>n.
     and_then (case ca_assertion_key args of
         Some p \<Rightarrow> map_err CRAssertionKey (read_private_key_ecdsa ops p s)
       | None \<Rightarrow> Ok (fk_assertion fresh)) (\<lambda>x.
     if ca_authentication_key args \<noteq> None \<and> ca_assertion_key args \<noteq> None
        \<and> ps_public ops n = ps_public ops x
     then Err CRIdenticalKeys
     else Ok (staged_from_parts a n x))))"

definition now_iso8601 :: "clock \<Rightarrow> string" where
  "now_iso8601 clk = clk_show clk (clk_now clk - nanos 5)"

text \<open>\<open>entry[3]["value"]\<close>, \<open>entry["state"]["value"]\<close>: \<open>null\<close> where there is nothing.\<close>

definition value_or_null :: "json option \<Rightarrow> json" where
  "value_or_null v = (case v of Some x \<Rightarrow> x | None \<Rightarrow> JNull)"

fun document_for_hash :: "json \<Rightarrow> log_entry_format \<Rightarrow> json" where
  "document_for_hash v TDW03 =
     (case v of
        JArray xs \<Rightarrow> if 3 < length xs then value_or_null (json_get (xs ! 3) ''value'') else JNull
      | _ \<Rightarrow> JNull)"
| "document_for_hash v WebVH10 =
     value_or_null (Option.bind (json_get v ''state'') (\<lambda>x. json_get x ''value''))"

fun create_purpose :: "log_entry_format \<Rightarrow> proof_purpose" where
  "create_purpose TDW03 = IntegrityProof.Authentication"
| "create_purpose WebVH10 = AssertionMethod"

text \<open>The genesis entry: its SCID, its version and its JSON, ready to be written.\<close>

definition genesis_entry ::
  "codecs \<Rightarrow> ('es, 'ps) key_ops \<Rightarrow> log_entry_format \<Rightarrow> ('es, 'ps) staged_keys \<Rightarrow> string \<Rightarrow> string \<Rightarrow>
   (string \<times> json, create_error) result" where
  "genesis_entry c ops fmt st did_placeholder now =
     (let mk = multikey_of c (authorized_key_bytes ops st);
          entry_template = new_genesis c fmt mk did_placeholder
            (authentication_key_coords ops st) (assertion_key_coords ops st) now;
          prelim = strip_proof_slot (entry_to_json entry_template) fmt;
          scid = derive_scid c prelim;
          with_scid_str = str_replace ''{SCID}'' scid (json_to_string c prelim)
      in and_then (map_err CRJson (json_from_str c with_scid_str)) (\<lambda>entry_value.
           let version_id = ''1-'' @ derive_entry_hash c entry_value;
               versioned = set_version_id entry_value version_id fmt;
               cfg = \<lparr>pc_cryptosuite = EddsaJcs2022, pc_verification_method = did_key_of mk,
                 pc_proof_purpose = create_purpose fmt, pc_challenge = version_id, pc_created = now\<rparr>;
               prf = proof_to_json (sign_proof c (signer_of ops (sk_authorized st))
                 (document_for_hash versioned fmt) cfg)
           in Ok (scid, append_proof versioned prf fmt)))"

text \<open>Where the DID will live: the given URL, or a place the registry allocates.\<close>

definition create_source ::
  "registry \<Rightarrow> create_args \<Rightarrow> (string \<times> allocation option, create_error) result" where
  "create_source reg args =
     (case (ca_url args, ca_swiyu args) of
        (Some _, True) \<Rightarrow> Err CRAmbiguousUrlSource
      | (None, False) \<Rightarrow> Err CRNoUrlSource
      | (None, True) \<Rightarrow>
          and_then (map_err CRRegistryArgs (require_registry_credentials
                      (ca_partner_id args) (ca_registry_url args) [])) (\<lambda>(p, u).
          and_then (map_err CRSwiyu (reg_allocate reg p u)) (\<lambda>al. Ok (al_url al, Some al)))
      | (Some u, False) \<Rightarrow> Ok (u, None))"

text \<open>Publishing the new log, if it was allocated at a registry: the URL it is at.\<close>

definition create_publish ::
  "registry \<Rightarrow> create_args \<Rightarrow> allocation option \<Rightarrow> string \<Rightarrow> (string option, create_error) result" where
  "create_publish reg args alloc line =
     (case alloc of
        Some al \<Rightarrow>
          if ca_no_publish args then Ok None
          else
            (case (ca_partner_id args, ca_registry_url args) of
               (Some p, Some u) \<Rightarrow>
                 and_then (map_err (\<lambda>e. CRPublishFailed e (ca_out args))
                   (reg_publish reg u p (al_identifier al) (trim_end line))) (\<lambda>_.
                     Ok (Some (al_url al)))
             | _ \<Rightarrow> Err CRPanic)
      | None \<Rightarrow> Ok None)"

text \<open>What the command reports.\<close>

record create_outcome =
  co_did :: string
  co_out :: path
  co_hash :: string
  co_published :: "string option"

definition cmd_create ::
  "('ed, 'ec, 'es, 'ps) env \<Rightarrow> ('es, 'ps) fresh_keys \<Rightarrow> clock \<Rightarrow> registry \<Rightarrow> create_args \<Rightarrow>
   (create_outcome, create_error) io" where
  "cmd_create env fresh clk reg args =
     (let c = env_codecs env; ops = env_keys env; fmt = ca_format args in
      if ca_no_publish args \<and> \<not> ca_swiyu args then io_err CRNoPublishWithoutSwiyu
      else
        io_then (io_of (create_source reg args)) (\<lambda>(url, alloc).
        io_then (io_of (url_to_did_components url)) (\<lambda>(dmn, path).
        io_then (io_look (prepare_keys ops fresh args)) (\<lambda>st.
        io_then (io_of (map_err CRDid (build_did fmt None dmn path))) (\<lambda>did_placeholder.
        io_then (io_of (genesis_entry c ops fmt st (did_to_string did_placeholder) (now_iso8601 clk)))
          (\<lambda>(scid, entry_value).
        io_then (io_of (map_err CRDid (build_did fmt (Some scid) dmn path))) (\<lambda>real_did.
        let line = json_to_string c entry_value @ newline in
        io_then (io_map_err (CRWriteLog (ca_out args)) (fs_write (ca_out args) line)) (\<lambda>_.
        io_then (io_map_err CRKeyStore (store_commit ops (env_store env) st real_did)) (\<lambda>entry.
        io_then (io_of (create_publish reg args alloc line)) (\<lambda>published_url.
          io_ok \<lparr>co_did = did_to_string real_did, co_out = ca_out args, co_hash = ke_hash entry,
                 co_published = published_url\<rparr>))))))))))"

section \<open>Rotating keys\<close>

datatype rotate_role = RotAuthorized | RotAuthentication | RotAssertion | RotAll

record rotate_args =
  ra_did :: "string option"
  ra_input :: "path option"
  ra_rotate :: "rotate_role list"
  ra_authorized_key :: "path option"
  ra_authentication_key :: "path option"
  ra_assertion_key :: "path option"
  ra_out :: "path option"
  ra_force :: bool
  ra_no_publish :: bool
  ra_partner_id :: "string option"
  ra_registry_url :: "string option"

text \<open>The errors of both updates, with the constructors of each.\<close>

datatype update_error =
    UPNoChange
  | UPConflictingRotation string
  | UPAlreadyDeactivated
  | UPWriteLog write_log_error
  | UPEmptyLog
  | UPDidNotInLog
  | UPUnsupportedFormat
  | UPPreviousStateIsPatch
  | UPDid string did_error
  | UPKeyStoreMiss string
  | UPKeyImport string crypto_error
  | UPRegistryArgs registry_args_error
  | UPIdentifierExtraction string
  | UPPublishFailed string path
  | UPPublishFailedPending string path
  | UPNoTarget
  | UPKeyStore keystore_error
  | UPLoad log_error

datatype action = Keep | Generate | Import path

record plan =
  pl_authorized :: action
  pl_authentication :: action
  pl_assertion :: action

fun plan_role :: "rotate_role \<Rightarrow> plan \<Rightarrow> plan" where
  "plan_role RotAuthorized p = p\<lparr>pl_authorized := Generate\<rparr>"
| "plan_role RotAuthentication p = p\<lparr>pl_authentication := Generate\<rparr>"
| "plan_role RotAssertion p = p\<lparr>pl_assertion := Generate\<rparr>"
| "plan_role RotAll p = \<lparr>pl_authorized = Generate, pl_authentication = Generate, pl_assertion = Generate\<rparr>"

text \<open>A key file given for a role that is also to be generated is a conflict.\<close>

fun plan_import :: "string \<Rightarrow> path option \<Rightarrow> action \<Rightarrow> (action, update_error) result" where
  "plan_import role None act = Ok act"
| "plan_import role (Some p) act =
     (if act = Generate then Err (UPConflictingRotation role) else Ok (Import p))"

definition plan_rotation :: "rotate_args \<Rightarrow> (plan, update_error) result" where
  "plan_rotation args =
     (let p = fold plan_role (ra_rotate args)
                \<lparr>pl_authorized = Keep, pl_authentication = Keep, pl_assertion = Keep\<rparr>
      in and_then (plan_import ''authorized'' (ra_authorized_key args) (pl_authorized p)) (\<lambda>a.
         and_then (plan_import ''authentication'' (ra_authentication_key args) (pl_authentication p)) (\<lambda>n.
         and_then (plan_import ''assertion'' (ra_assertion_key args) (pl_assertion p)) (\<lambda>x.
         if a = Keep \<and> n = Keep \<and> x = Keep then Err UPNoChange
         else Ok \<lparr>pl_authorized = a, pl_authentication = n, pl_assertion = x\<rparr>))))"

definition stage_keys ::
  "('es, 'ps) key_ops \<Rightarrow> ('es, 'ps) fresh_keys \<Rightarrow> keystore_entry \<Rightarrow> u32 \<Rightarrow> plan \<Rightarrow> files \<Rightarrow>
   (('es, 'ps) staged_keys, update_error) result" where
  "stage_keys ops fresh e v p s =
     and_then (case pl_authorized p of
         Keep \<Rightarrow> map_err UPKeyStore (load_eddsa ops e Authorized (Some v) s)
       | Generate \<Rightarrow> Ok (fk_authorized fresh)
       | Import f \<Rightarrow> map_err (UPKeyImport ''authorized'') (read_private_key_eddsa ops f s)) (\<lambda>a.
     and_then (case pl_authentication p of
         Keep \<Rightarrow> map_err UPKeyStore (load_ecdsa ops e KeyStore.Authentication (Some v) s)
       | Generate \<Rightarrow> Ok (fk_authentication fresh)
       | Import f \<Rightarrow> map_err (UPKeyImport ''authentication'') (read_private_key_ecdsa ops f s)) (\<lambda>n.
     and_then (case pl_assertion p of
         Keep \<Rightarrow> map_err UPKeyStore (load_ecdsa ops e Assertion (Some v) s)
       | Generate \<Rightarrow> Ok (fk_assertion fresh)
       | Import f \<Rightarrow> map_err (UPKeyImport ''assertion'') (read_private_key_ecdsa ops f s)) (\<lambda>x.
       Ok (staged_from_parts a n x))))"

definition compute_version_time :: "clock \<Rightarrow> string \<Rightarrow> string" where
  "compute_version_time clk prev_version_time =
     (let now = clk_now clk - nanos 5
      in clk_show clk
           (case clk_parse clk prev_version_time of
              Some p \<Rightarrow> (let bumped = p + nanos 1 in if bumped > now then bumped else now)
            | None \<Rightarrow> now))"

definition build_updated_log :: "string list \<Rightarrow> string \<Rightarrow> string" where
  "build_updated_log raw_lines new_line =
     concat (map (\<lambda>l. l @ newline) raw_lines) @ new_line
       @ (if new_line \<noteq> [] \<and> last new_line = CHR 0x0A then [] else newline)"

definition extract_registry_identifier :: "did \<Rightarrow> string option" where
  "extract_registry_identifier d =
     Option.bind (did_path d) (\<lambda>p.
       let i = last (split_on (CHR '':'') p) in if i = [] then None else Some i)"

text \<open>
  The new entry of an update: the four elements hashed after the previous version, the new
  version put in their front, and the proof of the previous key over the document.
\<close>

definition signed_update ::
  "codecs \<Rightarrow> ed_signer \<Rightarrow> string \<Rightarrow> u32 \<Rightarrow> string \<Rightarrow> json \<Rightarrow> json \<Rightarrow> string \<times> json" where
  "signed_update c signer prev_version_id next_seq version_time parameters doc =
     (let mk = multikey_of c (ed_public signer);
          rest = [JString version_time, parameters, json_obj [(''value'', doc)]];
          entry_hash = derive_entry_hash c (JArray (JString prev_version_id # rest));
          version_id = show_nat (unat next_seq) @ ''-'' @ entry_hash;
          cfg = \<lparr>pc_cryptosuite = EddsaJcs2022, pc_verification_method = did_key_of mk,
            pc_proof_purpose = IntegrityProof.Authentication, pc_challenge = version_id,
            pc_created = version_time\<rparr>;
          prf = proof_to_json (sign_proof c signer doc cfg)
      in (version_id, JArray (JString version_id # rest @ [JArray [prf]])))"

text \<open>What an update reports; the text it sent to the registry goes with the URL.\<close>

record update_outcome =
  uo_did :: string
  uo_version_id :: string
  uo_saved :: "path option"
  uo_hash :: string
  uo_keystore_version :: u32
  uo_published :: "(string \<times> string) option"

text \<open>
  Publishing the updated log: on failure the file it was written to is named, or the log is
  saved to a fallback file.
\<close>

definition publish_failed ::
  "('ed, 'ec, 'es, 'ps) env \<Rightarrow> string \<Rightarrow> string \<Rightarrow> path option \<Rightarrow> ('a, update_error) io" where
  "publish_failed env source updated_log written_to =
     (case written_to of
        Some f \<Rightarrow> io_err (UPPublishFailed source f)
      | None \<Rightarrow>
          io_then (io_map_err UPWriteLog (write_pending_log (env_cwd env) updated_log)) (\<lambda>f.
            io_err (UPPublishFailedPending source f)))"

definition publish_update ::
  "('ed, 'ec, 'es, 'ps) env \<Rightarrow> registry \<Rightarrow> bool \<Rightarrow> string option \<Rightarrow> string option \<Rightarrow> did \<Rightarrow> string \<Rightarrow>
   string \<Rightarrow> path option \<Rightarrow> ((string \<times> string) option, update_error) io" where
  "publish_update env reg no_publish partner_id registry_url d did_str updated_log written_to =
     (if no_publish then io_ok None
      else
        io_then (io_of (map_err UPRegistryArgs (require_registry_credentials partner_id registry_url
                  '' (or use --no-publish)''))) (\<lambda>(p, u).
        io_then (io_of (ok_or (extract_registry_identifier d) (UPIdentifierExtraction did_str))) (\<lambda>i.
          case reg_publish reg u p i (trim_end updated_log) of
            Inr _ \<Rightarrow> io_ok (Some (did_log_url d, trim_end updated_log))
          | Inl source \<Rightarrow> publish_failed env source updated_log written_to)))"

text \<open>What both updates look up first: the log, its DID, its key store entry and the latest key.\<close>

definition update_target ::
  "('ed, 'ec, 'es, 'ps) env \<Rightarrow> did_log_entry list \<Rightarrow> files \<Rightarrow>
   (string \<times> did \<times> keystore_entry \<times> u32 \<times> 'es, update_error) result" where
  "update_target env log s =
     and_then (ok_or (current_did log) UPDidNotInLog) (\<lambda>did_str.
     and_then (map_err (UPDid did_str) (did_from_str did_str)) (\<lambda>d.
     and_then (map_err UPKeyStore (store_lookup (env_keys env) (env_store env) d s)) (\<lambda>found.
     and_then (ok_or found (UPKeyStoreMiss did_str)) (\<lambda>entry.
     and_then (map_err UPKeyStore (latest_version entry s)) (\<lambda>v.
     and_then (map_err UPKeyStore (load_eddsa (env_keys env) entry Authorized (Some v) s)) (\<lambda>k.
       Ok (did_str, d, entry, v, k)))))))"

definition rotate_parameters :: "string \<Rightarrow> string \<Rightarrow> json" where
  "rotate_parameters prev_multikey new_multikey =
     JObject (if prev_multikey \<noteq> new_multikey
              then fmupd ''updateKeys'' (json_strings [new_multikey]) fmempty else fmempty)"

definition cmd_rotate ::
  "('ed, 'ec, 'es, 'ps) env \<Rightarrow> ('es, 'ps) fresh_keys \<Rightarrow> clock \<Rightarrow> registry \<Rightarrow> rotate_args \<Rightarrow>
   (update_outcome, update_error) io" where
  "cmd_rotate env fresh clk reg args =
     (let c = env_codecs env; ops = env_keys env in
      io_then (io_of (plan_rotation args)) (\<lambda>plan.
      if ra_did args \<noteq> None \<and> ra_out args = None \<and> ra_no_publish args then io_err UPNoTarget
      else
        io_then (io_look (\<lambda>s. map_err UPLoad (load_log env (ra_did args) (ra_input args) s))) (\<lambda>loaded.
        if ll_log loaded = [] then io_err UPEmptyLog
        else
          let lst = last (ll_log loaded) in
          if le_format lst \<noteq> TDW03 then io_err UPUnsupportedFormat
          else
            io_then (io_look (update_target env (ll_log loaded))) (\<lambda>(did_str, d, entry, v, key).
            io_then (io_look (stage_keys ops fresh entry v plan)) (\<lambda>st.
            let new_doc = diddoc_new_genesis c did_str (authentication_key_coords ops st)
                            (assertion_key_coords ops st);
                parameters = rotate_parameters (key_multikey c ops key)
                               (multikey_of c (authorized_key_bytes ops st));
                (version_id, entry_value) =
                  signed_update c (signer_of ops key) (le_version_id lst)
                    (of_nat (length (ll_log loaded)) + 1)
                    (compute_version_time clk (le_version_time lst)) parameters (diddoc_to_json c new_doc);
                updated_log = build_updated_log (ll_raw_lines loaded) (json_to_string c entry_value)
            in
            io_then (io_map_err UPWriteLog (write_log updated_log (ll_source_path loaded)
                       (ra_out args) (ra_force args))) (\<lambda>written_to.
            io_then (io_map_err UPKeyStore (add_version ops entry st)) (\<lambda>new_version.
            io_then (publish_update env reg (ra_no_publish args) (ra_partner_id args)
                       (ra_registry_url args) d did_str updated_log written_to) (\<lambda>published.
              io_ok \<lparr>uo_did = did_str, uo_version_id = version_id, uo_saved = written_to,
                     uo_hash = ke_hash entry, uo_keystore_version = new_version,
                     uo_published = published\<rparr>))))))))"

section \<open>Deactivating a DID\<close>

record deactivate_args =
  da_did :: "string option"
  da_input :: "path option"
  da_out :: "path option"
  da_force :: bool
  da_no_publish :: bool
  da_partner_id :: "string option"
  da_registry_url :: "string option"

definition deactivate_parameters :: json where
  "deactivate_parameters = json_obj [(''deactivated'', JBool True), (''updateKeys'', JArray [])]"

definition cmd_deactivate ::
  "('ed, 'ec, 'es, 'ps) env \<Rightarrow> clock \<Rightarrow> registry \<Rightarrow> deactivate_args \<Rightarrow> (update_outcome, update_error) io" where
  "cmd_deactivate env clk reg args =
     (let c = env_codecs env; ops = env_keys env in
      if da_did args \<noteq> None \<and> da_out args = None \<and> da_no_publish args then io_err UPNoTarget
      else
        io_then (io_look (\<lambda>s. map_err UPLoad (load_log env (da_did args) (da_input args) s))) (\<lambda>loaded.
        if ll_log loaded = [] then io_err UPEmptyLog
        else
          let lst = last (ll_log loaded) in
          if le_format lst \<noteq> TDW03 then io_err UPUnsupportedFormat
          else if lp_deactivated (le_parameters lst) = Some True then io_err UPAlreadyDeactivated
          else
            io_then (io_of (case le_state lst of
                StateValue v \<Rightarrow> Ok v | StatePatch _ \<Rightarrow> Err UPPreviousStateIsPatch)) (\<lambda>prev_doc.
            io_then (io_look (update_target env (ll_log loaded))) (\<lambda>(did_str, d, entry, v, key).
            let (version_id, entry_value) =
                  signed_update c (signer_of ops key) (le_version_id lst)
                    (of_nat (length (ll_log loaded)) + 1)
                    (compute_version_time clk (le_version_time lst)) deactivate_parameters prev_doc;
                updated_log = build_updated_log (ll_raw_lines loaded) (json_to_string c entry_value)
            in
            io_then (io_map_err UPWriteLog (write_log updated_log (ll_source_path loaded)
                       (da_out args) (da_force args))) (\<lambda>written_to.
            io_then (publish_update env reg (da_no_publish args) (da_partner_id args)
                       (da_registry_url args) d did_str updated_log written_to) (\<lambda>published.
              io_ok \<lparr>uo_did = did_str, uo_version_id = version_id, uo_saved = written_to,
                     uo_hash = ke_hash entry, uo_keystore_version = v,
                     uo_published = published\<rparr>))))))"

end
