(* ===== verification/DidLife.thy ===== *)
theory DidLife
  imports DidCmds
begin

text \<open>
  The life of a DID through the commands of \<open>DidCmds\<close>: the entry an update signs verifies
  exactly if its key is in force, the log a command writes is the log it loaded and that entry,
  and a DID that was created and rotated by the tool keeps a log that verifies, signed by keys
  the key store still has.
\<close>

section \<open>The entry of an update\<close>

definition update_entry ::
  "codecs \<Rightarrow> ed_signer \<Rightarrow> string \<Rightarrow> u32 \<Rightarrow> string \<Rightarrow> log_parameters \<Rightarrow> json \<Rightarrow> did_log_entry" where
  "update_entry c signer prev n t p doc =
     (let vid = show_nat (unat n) @ ''-''
            @ derive_entry_hash c (hash_form prev (entry_new_tdw prev t p (StateValue doc) []));
          cfg = \<lparr>pc_cryptosuite = EddsaJcs2022,
            pc_verification_method = did_key_of (multikey_of c (ed_public signer)),
            pc_proof_purpose = IntegrityProof.Authentication, pc_challenge = vid, pc_created = t\<rparr>
      in entry_new_tdw vid t p (StateValue doc) [proof_to_json (sign_proof c signer doc cfg)])"

lemma update_entry_fields [simp]:
  "le_format (update_entry c k prev n t p doc) = TDW03"
  "le_parameters (update_entry c k prev n t p doc) = p"
  "le_version_time (update_entry c k prev n t p doc) = t"
  "le_state (update_entry c k prev n t p doc) = StateValue doc"
  "hash_form q (update_entry c k prev n t p doc) = hash_form q (entry_new_tdw prev t p (StateValue doc) [])"
  by (simp_all add: update_entry_def entry_new_tdw_def Let_def hash_form_def)

lemma update_entry_version:
  "le_version_id (update_entry c k prev n t p doc) =
     show_nat (unat n) @ ''-'' @ derive_entry_hash c (hash_form prev (update_entry c k prev n t p doc))"
  unfolding update_entry_fields by (simp add: update_entry_def entry_new_tdw_def Let_def)

lemma signed_update_entry:
  assumes "parameters = params_to_json p"
  shows "signed_update c k prev n t parameters doc =
    (le_version_id (update_entry c k prev n t p doc), entry_to_json (update_entry c k prev n t p doc))"
  using assms
  by (simp add: signed_update_def update_entry_def entry_to_json_def entry_new_tdw_def Let_def hash_form_def)

definition update_params :: "string list option \<Rightarrow> bool option \<Rightarrow> log_parameters" where
  "update_params uks deactivated = params_new_tdw None None uks None None None deactivated None None"

lemma update_params_fields [simp]:
  "lp_update_keys (update_params u b) = u" "lp_format (update_params u b) = TDW03"
  "lp_deactivated (update_params u b) = b"
  by (simp_all add: update_params_def params_new_tdw_def)

lemma update_wire: "wire_entry (update_entry c k prev n t (update_params u b) doc)"
  by (simp add: wire_entry_def entry_on_wire_def params_on_wire_def update_entry_def Let_def
      entry_new_tdw_def portable_written_def update_params_def params_new_tdw_def)

lemma rotate_parameters_json:
  "rotate_parameters mk mk' = params_to_json (update_params (if mk \<noteq> mk' then Some [mk'] else None) None)"
  by (simp add: rotate_parameters_def params_to_json_def update_params_def params_new_tdw_def
      portable_written_def json_strings_def)

lemma deactivate_parameters_json:
  "deactivate_parameters = params_to_json (update_params (Some []) (Some True))"
proof -
  have "fmupd ''updateKeys'' a (fmupd ''deactivated'' b fmempty)
      = fmupd ''deactivated'' b (fmupd ''updateKeys'' a fmempty)" for a b :: json
    by (rule fmap_ext) auto
  then show ?thesis
    by (simp add: deactivate_parameters_def params_to_json_def update_params_def params_new_tdw_def
        portable_written_def json_strings_def json_obj_def)
qed

lemma did_key_inj:
  assumes "did_key_of a = did_key_of b" "CHR ''#'' \<notin> set a" "CHR ''#'' \<notin> set b"
  shows "a = b"
proof -
  have "split_once (CHR ''#'') (a @ ''#'' @ a) = split_once (CHR ''#'') (b @ ''#'' @ b)"
    using assms(1) by (simp add: did_key_of_def)
  with assms(2,3) show ?thesis by simp
qed

text \<open>The update is accepted exactly if its key is in force.\<close>

lemma update_verifies_iff:
  assumes "bs58_law c" "CHR ''#'' \<notin> set (multikey_of c (ed_public k))" "ed_sound vs k"
    and log: "verify_log c vs log d = Ok ()" "log \<noteq> []"
    and doc: "json_get doc ''id'' = Some (JString (did_to_string d))"
  shows "verify_log c vs (log @ [update_entry c k (le_version_id (last log)) (of_nat (length log) + 1) t p doc]) d
      = Ok () \<longleftrightarrow> multikey_of c (ed_public k) \<in> set (announced [] log)"
proof -
  let ?e = "update_entry c k (le_version_id (last log)) (of_nat (length log) + 1) t p doc"
  let ?mk = "multikey_of c (ed_public k)"
  obtain scid where scid: "did_scid d = Some scid" using log(1) by (auto simp: verify_log_def ok_iff)
  have "verify_log c vs (log @ [?e]) d = Ok () \<longleftrightarrow>
      verify_entry c vs (length log) (of_nat (length log) + 1) ?e scid (did_to_string d)
        (Some (le_version_id (last log))) (announced [] log) = Ok ()"
    using log(1) by (simp add: verify_log_snoc [OF scid log(2)])
  also have "\<dots> \<longleftrightarrow> entry_valid c vs scid (did_to_string d) (length log)
      (le_version_id (last log)) (announced [] log) ?e"
    by (simp add: verify_entry_ok)
  also have "\<dots> \<longleftrightarrow> proof_valid c vs ?e doc (announced [] log)"
    using log(2) doc update_entry_version by (simp add: entry_valid_def)
  also have "\<dots> \<longleftrightarrow> ?mk \<in> set (announced [] log)"
  proof
    obtain cfg where cfg: "le_proofs ?e = [proof_to_json (sign_proof c k doc cfg)]"
        "pc_verification_method cfg = did_key_of ?mk"
      by (simp add: update_entry_def Let_def entry_new_tdw_def)
    assume "proof_valid c vs ?e doc (announced [] log)"
    then obtain mk where mk: "mk \<in> set (announced [] log)" "did_key_of mk = did_key_of ?mk"
        "CHR ''#'' \<notin> set mk"
      using cfg by (auto simp: proof_valid_def proof_to_json_def config_map_def sign_proof_def
          from_signature_def did_key_of_def)
    then show "?mk \<in> set (announced [] log)"
      using did_key_inj [OF mk(2,3) assms(2)] by simp
  next
    assume mk: "?mk \<in> set (announced [] log)"
    have "verify_proof c vs 0 ?e doc (announced [] log) = Ok ()"
      by (rule signed_proof_accepted [OF assms(1,3,2) _ _ mk, where rest = "[]"])
        (simp_all add: update_entry_def Let_def entry_new_tdw_def did_key_of_def)
    then show "proof_valid c vs ?e doc (announced [] log)" by (simp add: verify_proof_ok)
  qed
  finally show ?thesis .
qed

section \<open>The log that is written\<close>

lemma build_updated_ended:
  assumes "one_line l"
  shows "build_updated_log ls l = concat (map (\<lambda>x. x @ newline) (ls @ [l]))"
proof -
  have "last l \<noteq> CHR 0x0A" using assms by (metis one_line_def last_in_set)
  then show ?thesis by (simp add: build_updated_log_def)
qed

lemma updated_log_parses:
  assumes "load_log env target input s = Ok l" "entry_text_law (env_codecs env) e" "wire_entry e"
  shows "log_from_jsonl (env_codecs env) (build_updated_log (ll_raw_lines l) (entry_line (env_codecs env) e))
    = Ok (ll_log l @ [e])"
proof -
  let ?c = "env_codecs env"
  have one: "one_line (entry_line ?c e)" using assms(2) by (simp add: entry_text_law_def)
  have line: "line_parses ?c (entry_line ?c e) e"
    using assms(2,3) by (simp add: line_parses_def entry_text_law_def one_line_def entry_codec.dec_enc)
  note lines = loaded_lines [OF assms(1)]
  have "list_all2 (line_parses ?c) (ll_raw_lines l @ [entry_line ?c e]) (ll_log l @ [e])"
    using lines(1) line by (simp add: list_all2_appendI)
  moreover have "CHR 0x0A \<notin> set x" "trim x \<noteq> []" if "x \<in> set (ll_raw_lines l @ [entry_line ?c e])" for x
    using that lines(2,3) one by (auto simp: one_line_def)
  ultimately show ?thesis
    unfolding build_updated_ended [OF one] using parse_ended by blast
qed

text \<open>The registry gets the same text without the line feed at its end.\<close>

lemma trim_end_kept:
  assumes "strip_one_of (map rev white_space) (rev l) = None" "l \<noteq> []" "X = [] \<or> last X = CHR 0x0A"
  shows "trim_end (X @ l) = X @ l"
proof -
  have "strip_one_of (map rev white_space) (rev l @ rev X) = None"
  proof (rule ccontr)
    assume "strip_one_of (map rev white_space) (rev l @ rev X) \<noteq> None"
    then obtain p r where p: "p \<in> set white_space" "rev l @ rev X = rev p @ r" "p \<noteq> []"
    proof -
      have "\<exists>p \<in> set ps. p \<noteq> [] \<and> (\<exists>r. t = p @ r)" if "strip_one_of ps t \<noteq> None" for ps t
        using that by (induction ps) (auto simp: strip_prefix_some split: option.splits if_split_asm)
      from this [OF \<open>strip_one_of _ _ \<noteq> None\<close>] show ?thesis using that by auto
    qed
    show False
    proof (cases "length p \<le> length l")
      case True
      then obtain r' where "rev l = rev p @ r'" using p(2) by (metis append_eq_append_conv_if append_eq_conv_conj length_rev)
      moreover have "strip_one_of ps t \<noteq> None" if "p \<in> set ps" "p \<noteq> []" "t = p @ r" for ps p t and r :: string
        using that by (induction ps) (auto split: option.split)
      ultimately show False using assms(1) p(1,3) by (metis imageI list.set_map rev_is_Nil_conv)
    next
      case False
      then obtain y where y: "rev p = rev l @ y" "y \<noteq> []"
        using p(2) by (metis append_eq_append_conv2 append_Nil2 length_append length_rev le_add1 nat_le_linear)
      then obtain z where "rev X = y @ z" using p(2) by auto
      then have "hd y = CHR 0x0A" using y(2) assms(3)
        by (cases X rule: rev_cases; cases y) auto
      then have "CHR 0x0A \<in> set p" using y by (metis Un_iff hd_in_set set_append set_rev)
      then have "p = [CHR 0x0A]" using p(1) by (auto simp: white_space_def)
      with y assms(2) show False by (cases "rev l") auto
    qed
  qed
  then show ?thesis by (simp add: trim_end_def trim_front.simps [of _ "rev l @ rev X"])
qed

lemma trim_end_lf: "trim_end (s @ newline) = trim_end s"
proof -
  have "strip_one_of (map rev white_space) (CHR 0x0A # t) = Some t" for t by (simp add: white_space_def)
  then show ?thesis by (simp add: trim_end_def newline_def trim_front.simps [of _ "CHR 0x0A # _"])
qed

lemma one_line_end: "one_line l \<Longrightarrow> strip_one_of (map rev white_space) (rev l) = None"
proof (rule ccontr)
  assume l: "one_line l" and "strip_one_of (map rev white_space) (rev l) \<noteq> None"
  then obtain r where r: "strip_one_of (map rev white_space) (rev l) = Some r" by blast
  obtain a where a: "l = a @ trim_start l" using trim_front_suffix [of l white_space] by (auto simp: trim_start_def)
  obtain b where b: "rev (trim_start l) = b @ trim_front (map rev white_space) (rev (trim_start l))"
    using trim_front_suffix by blast
  have "length (trim l) \<le> length (trim_start l)" using b
    by (metis length_append length_rev le_add2 trim_def trim_end_def)
  then have "trim_start l = l" using a l
    by (metis append_eq_append_conv append_self_conv2 length_append le_add2 le_antisym one_line_def)
  then have "trim_front (map rev white_space) (rev l) = rev l"
    using l by (metis one_line_def rev_rev_ident trim_def trim_end_def)
  moreover obtain a' where "r = a' @ trim_front (map rev white_space) r" using trim_front_suffix by blast
  then have "length (trim_front (map rev white_space) r) \<le> length r" by (metis le_add2 length_append)
  ultimately show False
    using r strip_one_of_shorter [OF r] by (simp add: trim_front.simps [of _ "rev l"])
qed

lemma published_text:
  assumes "one_line l"
  shows "trim_end (build_updated_log ls l) = concat (map (\<lambda>x. x @ newline) ls) @ l"
proof -
  have "l \<noteq> []" using assms by (simp add: one_line_def)
  moreover have "concat (map (\<lambda>x. x @ newline) ls) = [] \<or> last (concat (map (\<lambda>x. x @ newline) ls)) = CHR 0x0A"
    by (cases ls rule: rev_cases) (simp_all add: newline_def)
  ultimately show ?thesis
    using trim_end_kept [OF one_line_end [OF assms]]
    by (simp add: build_updated_ended [OF assms] trim_end_lf flip: append_assoc)
qed

lemma parse_unended:
  assumes "\<And>x. x \<in> set ls \<Longrightarrow> CHR 0x0A \<notin> set x \<and> trim x \<noteq> []" "one_line l"
  shows "log_from_jsonl c (concat (map (\<lambda>x. x @ newline) ls) @ l) = Ok es \<longleftrightarrow>
    list_all2 (line_parses c) (ls @ [l]) es"
proof -
  have "split_on (CHR 0x0A) (concat (map (\<lambda>x. x @ newline) ls) @ l) = ls @ [l]"
    using assms by (induction ls) (simp_all add: split_on_append newline_def one_line_def)
  then have lines: "str_lines (concat (map (\<lambda>x. x @ newline) ls) @ l) = map strip_cr ls @ [l]"
    using assms(2) by (simp add: str_lines_def one_line_def)
  have "filter (\<lambda>x. trim x \<noteq> []) (map strip_cr ls) = map strip_cr ls"
    using assms(1) by (simp add: filter_map o_def)
  then have "collect_raw_lines (concat (map (\<lambda>x. x @ newline) ls) @ l) = map strip_cr ls @ [l]"
    using assms(2) by (simp add: collect_raw_lines_def lines) (simp add: one_line_def)
  moreover have "list_all2 (line_parses c) (map strip_cr ls @ [l]) es = list_all2 (line_parses c) (ls @ [l]) es"
    by (auto simp: list_all2_append1 list_all2_map1)
  ultimately show ?thesis by (simp add: log_from_jsonl_ok)
qed

lemma published_log_parses:
  assumes "load_log env target input s = Ok l" "entry_text_law (env_codecs env) e" "wire_entry e"
  shows "log_from_jsonl (env_codecs env)
    (trim_end (build_updated_log (ll_raw_lines l) (entry_line (env_codecs env) e))) = Ok (ll_log l @ [e])"
proof -
  have one: "one_line (entry_line (env_codecs env) e)" using assms(2) by (simp add: entry_text_law_def)
  have "line_parses (env_codecs env) (entry_line (env_codecs env) e) e"
    using assms(2,3) by (simp add: line_parses_def entry_text_law_def one_line_def entry_codec.dec_enc)
  then show ?thesis
    using loaded_lines [OF assms(1)] parse_unended [OF _ one]
    by (simp add: published_text [OF one] list_all2_appendI)
qed

section \<open>What an update does\<close>

text \<open>The entry a rotation makes, with what it was made from.\<close>

record ('es, 'ps) update_made =
  um_loaded :: loaded_log
  um_did :: did
  um_entry :: keystore_entry
  um_key :: 'es
  um_staged :: "('es, 'ps) staged_keys"
  um_new :: did_log_entry

definition rotation_made ::
  "('ed, 'ec, 'es, 'ps) env \<Rightarrow> ('es, 'ps) fresh_keys \<Rightarrow> clock \<Rightarrow> rotate_args \<Rightarrow> files \<Rightarrow>
   (('es, 'ps) update_made, update_error) result" where
  "rotation_made env fresh clk args s =
     (let c = env_codecs env; ops = env_keys env in
      and_then (plan_rotation args) (\<lambda>plan.
      and_then (map_err UPLoad (load_log env (ra_did args) (ra_input args) s)) (\<lambda>l.
      and_then (update_target env (ll_log l) s) (\<lambda>(did_str, d, entry, v, k).
      and_then (stage_keys ops fresh entry v plan s) (\<lambda>st.
        let mk = key_multikey c ops k; mk' = multikey_of c (authorized_key_bytes ops st)
        in Ok \<lparr>um_loaded = l, um_did = d, um_entry = entry, um_key = k, um_staged = st,
             um_new = update_entry c (signer_of ops k) (le_version_id (last (ll_log l)))
               (of_nat (length (ll_log l)) + 1) (compute_version_time clk (le_version_time (last (ll_log l))))
               (update_params (if mk \<noteq> mk' then Some [mk'] else None) None)
               (diddoc_to_json c (diddoc_new_genesis c did_str (authentication_key_coords ops st)
                  (assertion_key_coords ops st)))\<rparr>)))))"

definition deactivation_made ::
  "('ed, 'ec, 'es, 'ps) env \<Rightarrow> clock \<Rightarrow> deactivate_args \<Rightarrow> files \<Rightarrow>
   (loaded_log \<times> did \<times> 'es \<times> did_log_entry, update_error) result" where
  "deactivation_made env clk args s =
     (let c = env_codecs env; ops = env_keys env in
      and_then (map_err UPLoad (load_log env (da_did args) (da_input args) s)) (\<lambda>l.
      and_then (case le_state (last (ll_log l)) of
          StateValue v \<Rightarrow> Ok v | StatePatch _ \<Rightarrow> Err UPPreviousStateIsPatch) (\<lambda>prev_doc.
      and_then (update_target env (ll_log l) s) (\<lambda>(did_str, d, entry, v, k).
        Ok (l, d, k, update_entry c (signer_of ops k) (le_version_id (last (ll_log l)))
               (of_nat (length (ll_log l)) + 1) (compute_version_time clk (le_version_time (last (ll_log l))))
               (update_params (Some []) (Some True)) prev_doc)))))"

lemma publish_failed_err: "publish_failed env source t w s \<noteq> (Inr x, s')"
  by (cases w) (auto simp: publish_failed_def ok_iff)

lemma not_err_unit: "(\<forall>e. r \<noteq> Inl e) \<longleftrightarrow> r = Inr ()"
  by (cases r) auto

lemma publish_update_ok:
  "publish_update env reg np p u d t text w s = (Inr pub, s') \<Longrightarrow>
     s' = s \<and> (\<forall>url body. pub = Some (url, body) \<longrightarrow> url = did_log_url d \<and> body = trim_end text)"
  by (auto simp: publish_update_def ok_iff publish_failed_err not_err_unit split: if_split_asm sum.split_asm)

lemma cmd_rotate_ok:
  assumes "cmd_rotate env fresh clk reg args s = (Inr out, s')"
  obtains m s1 nv where
    "rotation_made env fresh clk args s = Ok m" "ll_log (um_loaded m) \<noteq> []"
    "le_format (last (ll_log (um_loaded m))) = TDW03"
    "load_log env (ra_did args) (ra_input args) s = Ok (um_loaded m)"
    "write_log (build_updated_log (ll_raw_lines (um_loaded m)) (entry_line (env_codecs env) (um_new m)))
       (ll_source_path (um_loaded m)) (ra_out args) (ra_force args) s = (Inr (uo_saved out), s1)"
    "add_version (env_keys env) (um_entry m) (um_staged m) s1 = (Inr nv, s')"
    "uo_version_id out = le_version_id (um_new m)"
    "\<And>url body. uo_published out = Some (url, body) \<Longrightarrow> url = did_log_url (um_did m)
       \<and> body = trim_end (build_updated_log (ll_raw_lines (um_loaded m)) (entry_line (env_codecs env) (um_new m)))"
proof -
  let ?c = "env_codecs env" let ?ops = "env_keys env"
  obtain plan l where 1: "plan_rotation args = Ok plan" "load_log env (ra_did args) (ra_input args) s = Ok l"
      "ll_log l \<noteq> []" "le_format (last (ll_log l)) = TDW03"
    using assms by (auto simp: cmd_rotate_def Let_def ok_iff split: if_split_asm)
  obtain did_str d entry v k where 2: "update_target env (ll_log l) s = Ok (did_str, d, entry, v, k)"
    using assms 1 by (auto simp: cmd_rotate_def Let_def ok_iff split: if_split_asm prod.splits)
  obtain st where 3: "stage_keys ?ops fresh entry v plan s = Ok st"
    using assms 1 2 by (auto simp: cmd_rotate_def Let_def ok_iff split: if_split_asm)
  obtain m where m: "rotation_made env fresh clk args s = Ok m" "um_loaded m = l" "um_did m = d"
      "um_entry m = entry" "um_key m = k" "um_staged m = st"
      "signed_update ?c (signer_of ?ops k) (le_version_id (last (ll_log l)))
         (of_nat (length (ll_log l)) + 1) (compute_version_time clk (le_version_time (last (ll_log l))))
         (rotate_parameters (key_multikey ?c ?ops k) (multikey_of ?c (authorized_key_bytes ?ops st)))
         (diddoc_to_json ?c (diddoc_new_genesis ?c did_str (authentication_key_coords ?ops st)
           (assertion_key_coords ?ops st))) = (le_version_id (um_new m), entry_to_json (um_new m))"
    by (simp add: rotation_made_def 1 2 3 Let_def rotate_parameters_json signed_update_entry [OF refl])
  let ?log = "build_updated_log (ll_raw_lines l) (entry_line ?c (um_new m))"
  obtain s1 nv s2 where 4: "write_log ?log (ll_source_path l) (ra_out args) (ra_force args) s = (Inr (uo_saved out), s1)"
      "add_version ?ops entry st s1 = (Inr nv, s2)"
      "publish_update env reg (ra_no_publish args) (ra_partner_id args) (ra_registry_url args) d did_str
         ?log (uo_saved out) s2 = (Inr (uo_published out), s')"
      "uo_version_id out = le_version_id (um_new m)"
    using assms 1 2 3 m(7) by (auto simp: cmd_rotate_def Let_def ok_iff entry_line_def split: if_split_asm)
  show ?thesis
    using 1 4 m publish_update_ok [OF 4(3)] by (intro that [of m s1 nv]) auto
qed

lemma update_target_ok:
  "update_target env log s = Ok (t, d, e, v, k) \<longleftrightarrow> current_did log = Some t \<and> did_from_str t = Ok d
     \<and> store_lookup (env_keys env) (env_store env) d s = Ok (Some e) \<and> latest_version e s = Ok v
     \<and> load_eddsa (env_keys env) e Authorized (Some v) s = Ok k"
  by (auto simp: update_target_def ok_iff)

lemma rotation_made_ok:
  assumes "rotation_made env fresh clk args s = Ok m"
  obtains plan t v where
    "plan_rotation args = Ok plan" "load_log env (ra_did args) (ra_input args) s = Ok (um_loaded m)"
    "update_target env (ll_log (um_loaded m)) s = Ok (t, um_did m, um_entry m, v, um_key m)"
    "stage_keys (env_keys env) fresh (um_entry m) v plan s = Ok (um_staged m)"
    "um_new m = update_entry (env_codecs env) (signer_of (env_keys env) (um_key m))
       (le_version_id (last (ll_log (um_loaded m)))) (of_nat (length (ll_log (um_loaded m))) + 1)
       (compute_version_time clk (le_version_time (last (ll_log (um_loaded m)))))
       (update_params (let mk = key_multikey (env_codecs env) (env_keys env) (um_key m);
            mk' = multikey_of (env_codecs env) (authorized_key_bytes (env_keys env) (um_staged m))
          in if mk \<noteq> mk' then Some [mk'] else None) None)
       (diddoc_to_json (env_codecs env) (diddoc_new_genesis (env_codecs env) t
          (authentication_key_coords (env_keys env) (um_staged m))
          (assertion_key_coords (env_keys env) (um_staged m))))"
  using assms by (auto simp: rotation_made_def ok_iff Let_def)

text \<open>A loaded \<open>did:tdw\<close> log whose DID an update resolves has been verified for that DID.\<close>

lemma loaded_verified:
  assumes "load_log env target input s = Ok l" "ll_log l \<noteq> []" "le_format (hd (ll_log l)) = TDW03"
    and cur: "current_did (ll_log l) = Some t" "did_from_str t = Ok d"
  shows "verify_log (env_codecs env) (env_verifiers env) (ll_log l) d = Ok ()" "did_to_string d = t"
proof -
  have own: "current_did (ll_log l) = Some (did_to_string d')"
    if v: "verify_log (env_codecs env) (env_verifiers env) (ll_log l) d' = Ok ()" for d'
  proof -
    obtain xs x where "ll_log l = xs @ [x]" using assms(2) by (cases "ll_log l" rule: rev_cases) auto
    with verified_last [OF v] show ?thesis by (auto simp: current_did_def)
  qed
  obtain e' es where log: "ll_log l = e' # es" using assms(2) by (cases "ll_log l") auto
  have "\<exists>d'. verify_log (env_codecs env) (env_verifiers env) (ll_log l) d' = Ok ()
      \<and> (d' = d \<or> (\<exists>tg. resolve_did (env_store env) tg s = Ok d'))"
    using assms(1,3) cur log
    by (cases target) (auto simp: load_log_ok verify_loaded_log_def ok_iff split: if_split_asm)
  then obtain d' where d': "verify_log (env_codecs env) (env_verifiers env) (ll_log l) d' = Ok ()"
      "d' = d \<or> (\<exists>tg. resolve_did (env_store env) tg s = Ok d')"
    by blast
  have "d' = d"
    using d'(2)
  proof
    assume "\<exists>tg. resolve_did (env_store env) tg s = Ok d'"
    then obtain u where "did_from_str u = Ok d'" by (auto simp: resolve_did_def ok_iff split: if_split_asm)
    then have "wf_did d'" by (rule did_from_str_sound [THEN conjunct1])
    moreover have "did_scid d' \<noteq> None" using d'(1) by (auto simp: verify_log_def ok_iff)
    ultimately have "did_from_str (did_to_string d') = Ok d'" by (rule did_from_str_to_string)
    with own [OF d'(1)] cur show ?thesis by simp
  qed simp
  with d'(1) own [OF d'(1)] cur show "verify_log (env_codecs env) (env_verifiers env) (ll_log l) d = Ok ()"
    "did_to_string d = t" by simp_all
qed

lemma target_verified:
  assumes "load_log env target input s = Ok l" "ll_log l \<noteq> []" "le_format (hd (ll_log l)) = TDW03"
    "update_target env (ll_log l) s = Ok (t, d, e, v, k)"
  shows "verify_log (env_codecs env) (env_verifiers env) (ll_log l) d = Ok ()" "did_to_string d = t"
  using loaded_verified [OF assms(1-3)] assms(4) by (simp_all add: update_target_ok)

lemma document_id: "json_get (diddoc_to_json c (diddoc_new_genesis c t a x)) ''id'' = Some (JString t)"
  by (simp add: diddoc_to_json_def diddoc_new_genesis_def diddoc_new_def with_context_def
      add_verification_method_def add_authentication_def add_assertion_method_def Let_def)

text \<open>Two paths neither of which contains the other.\<close>

definition apart :: "path \<Rightarrow> path \<Rightarrow> bool" where
  "apart p q \<longleftrightarrow> \<not> prefix p q \<and> \<not> prefix q p"

lemma add_version_keeps:
  "add_version ops e st s = (r, s') \<Longrightarrow> apart (ke_dir e) p \<Longrightarrow>
   fmlookup (fs_files s') p = fmlookup (fs_files s) p"
  using touches_add_version [of e ops st] by (auto simp: touches_def apart_def same_at_def)

section \<open>Rotation\<close>

text \<open>What a successful rotation leaves, with its entry.\<close>

lemma rotation_extends:
  assumes run: "cmd_rotate env fresh clk reg args s = (Inr out, s')"
    and made: "rotation_made env fresh clk args s = Ok m"
    and tdw: "le_format (hd (ll_log (um_loaded m))) = TDW03"
    and laws: "bs58_law (env_codecs env)"
      "CHR ''#'' \<notin> set (key_multikey (env_codecs env) (env_keys env) (um_key m))"
      "ed_sound (env_verifiers env) (signer_of (env_keys env) (um_key m))"
      "entry_text_law (env_codecs env) (um_new m)"
  shows "verify_log (env_codecs env) (env_verifiers env) (ll_log (um_loaded m) @ [um_new m]) (um_did m) = Ok ()
      \<longleftrightarrow> key_multikey (env_codecs env) (env_keys env) (um_key m) \<in> set (announced [] (ll_log (um_loaded m)))"
    "announced [] (ll_log (um_loaded m) @ [um_new m]) =
      (if key_multikey (env_codecs env) (env_keys env) (um_key m)
          = multikey_of (env_codecs env) (authorized_key_bytes (env_keys env) (um_staged m))
       then announced [] (ll_log (um_loaded m))
       else [multikey_of (env_codecs env) (authorized_key_bytes (env_keys env) (um_staged m))])"
    "uo_saved out = Some p \<Longrightarrow> apart (ke_dir (um_entry m)) p \<Longrightarrow>
      \<exists>mode t. fmlookup (fs_files s') p = Some (mode, t)
        \<and> log_from_jsonl (env_codecs env) t = Ok (ll_log (um_loaded m) @ [um_new m])"
    "uo_published out = Some (url, body) \<Longrightarrow>
      log_from_jsonl (env_codecs env) body = Ok (ll_log (um_loaded m) @ [um_new m])"
    "le_format (um_new m) = TDW03" "lp_deactivated (le_parameters (um_new m)) = None"
proof -
  let ?c = "env_codecs env" let ?old = "ll_log (um_loaded m)" let ?new = "?old @ [um_new m]"
  obtain s1 nv where ok: "?old \<noteq> []" "load_log env (ra_did args) (ra_input args) s = Ok (um_loaded m)"
      "write_log (build_updated_log (ll_raw_lines (um_loaded m)) (entry_line ?c (um_new m)))
         (ll_source_path (um_loaded m)) (ra_out args) (ra_force args) s = (Inr (uo_saved out), s1)"
      "add_version (env_keys env) (um_entry m) (um_staged m) s1 = (Inr nv, s')"
      "\<And>url body. uo_published out = Some (url, body) \<Longrightarrow>
         body = trim_end (build_updated_log (ll_raw_lines (um_loaded m)) (entry_line ?c (um_new m)))"
    using run made by (rule_tac cmd_rotate_ok) auto
  obtain t v where tgt: "update_target env ?old s = Ok (t, um_did m, um_entry m, v, um_key m)"
    and new: "um_new m = update_entry ?c (signer_of (env_keys env) (um_key m))
       (le_version_id (last ?old)) (of_nat (length ?old) + 1) (compute_version_time clk (le_version_time (last ?old)))
       (update_params (let mk = key_multikey ?c (env_keys env) (um_key m);
            mk' = multikey_of ?c (authorized_key_bytes (env_keys env) (um_staged m))
          in if mk \<noteq> mk' then Some [mk'] else None) None)
       (diddoc_to_json ?c (diddoc_new_genesis ?c t (authentication_key_coords (env_keys env) (um_staged m))
          (assertion_key_coords (env_keys env) (um_staged m))))"
    using rotation_made_ok [OF made] by metis
  note ver = target_verified [OF ok(2,1) tdw tgt]
  have wire: "wire_entry (um_new m)" by (simp add: new update_wire)
  show "verify_log ?c (env_verifiers env) ?new (um_did m) = Ok () \<longleftrightarrow>
      key_multikey ?c (env_keys env) (um_key m) \<in> set (announced [] ?old)"
    unfolding new
    by (subst update_verifies_iff [OF laws(1) _ laws(3) ver(1) ok(1)])
      (use laws(2) in \<open>simp_all add: document_id ver(2) key_multikey_def signer_of_def\<close>)
  show "announced [] ?new = (if key_multikey ?c (env_keys env) (um_key m)
      = multikey_of ?c (authorized_key_bytes (env_keys env) (um_staged m)) then announced [] ?old
      else [multikey_of ?c (authorized_key_bytes (env_keys env) (um_staged m))])"
    by (simp add: announced_append new Let_def)
  show "uo_saved out = Some p \<Longrightarrow> apart (ke_dir (um_entry m)) p \<Longrightarrow>
      \<exists>mode t. fmlookup (fs_files s') p = Some (mode, t) \<and> log_from_jsonl ?c t = Ok ?new"
    using updated_log_parses [OF ok(2) laws(4) wire] write_log_ok(4) [OF ok(3)] add_version_keeps [OF ok(4)]
    by auto
  show "uo_published out = Some (url, body) \<Longrightarrow> log_from_jsonl ?c body = Ok ?new"
    using published_log_parses [OF ok(2) laws(4) wire] ok(5) by auto
  show "le_format (um_new m) = TDW03" "lp_deactivated (le_parameters (um_new m)) = None" by (simp_all add: new)
qed

text \<open>C8: what a rotation writes. Whenever the command succeeds, the file it saved and the text it
  published parse to the log it loaded and one new entry. That log verifies exactly if the
  key the store holds as its latest was in force, that is announced and not replaced; the
  keys in force afterwards are the newly stored key alone, if it was changed, and otherwise
  those from before.\<close>

theorem rotation_verifies_iff_authorized:
  assumes run: "cmd_rotate env fresh clk reg args s = (Inr out, s')"
    and made: "rotation_made env fresh clk args s = Ok m"
    and tdw: "le_format (hd (ll_log (um_loaded m))) = TDW03"
    and laws: "bs58_law (env_codecs env)"
      "CHR ''#'' \<notin> set (key_multikey (env_codecs env) (env_keys env) (um_key m))"
      "ed_sound (env_verifiers env) (signer_of (env_keys env) (um_key m))"
      "entry_text_law (env_codecs env) (um_new m)"
  shows "let c = env_codecs env; old = ll_log (um_loaded m); new = old @ [um_new m];
      mk = key_multikey c (env_keys env) (um_key m);
      mk' = multikey_of c (authorized_key_bytes (env_keys env) (um_staged m))
    in (verify_log c (env_verifiers env) new (um_did m) = Ok () \<longleftrightarrow> mk \<in> set (announced [] old))
     \<and> announced [] new = (if mk = mk' then announced [] old else [mk'])
     \<and> (\<forall>p. uo_saved out = Some p \<and> apart (ke_dir (um_entry m)) p \<longrightarrow>
          (\<exists>mode t. fmlookup (fs_files s') p = Some (mode, t) \<and> log_from_jsonl c t = Ok new))
     \<and> (\<forall>url t. uo_published out = Some (url, t) \<longrightarrow> log_from_jsonl c t = Ok new)"
  using rotation_extends [OF assms] by (auto simp: Let_def)

section \<open>Success\<close>

lemma cmd_rotate_runs:
  assumes made: "rotation_made env fresh clk args s = Ok m" and "ll_log (um_loaded m) \<noteq> []"
    "le_format (last (ll_log (um_loaded m))) = TDW03" "ra_no_publish args"
    "ra_did args = None \<or> ra_out args \<noteq> None"
    and w: "write_log (build_updated_log (ll_raw_lines (um_loaded m)) (entry_line (env_codecs env) (um_new m)))
       (ll_source_path (um_loaded m)) (ra_out args) (ra_force args) s = (Inr wp, s1)"
    and a: "add_version (env_keys env) (um_entry m) (um_staged m) s1 = (Inr nv, s')"
  shows "\<exists>out. cmd_rotate env fresh clk reg args s = (Inr out, s') \<and> uo_saved out = wp \<and> uo_published out = None
    \<and> uo_keystore_version out = nv"
proof -
  obtain plan t v where p: "plan_rotation args = Ok plan"
    "load_log env (ra_did args) (ra_input args) s = Ok (um_loaded m)"
    "update_target env (ll_log (um_loaded m)) s = Ok (t, um_did m, um_entry m, v, um_key m)"
    "stage_keys (env_keys env) fresh (um_entry m) v plan s = Ok (um_staged m)"
    and new: "um_new m = update_entry (env_codecs env) (signer_of (env_keys env) (um_key m))
       (le_version_id (last (ll_log (um_loaded m)))) (of_nat (length (ll_log (um_loaded m))) + 1)
       (compute_version_time clk (le_version_time (last (ll_log (um_loaded m)))))
       (update_params (let mk = key_multikey (env_codecs env) (env_keys env) (um_key m);
            mk' = multikey_of (env_codecs env) (authorized_key_bytes (env_keys env) (um_staged m))
          in if mk \<noteq> mk' then Some [mk'] else None) None)
       (diddoc_to_json (env_codecs env) (diddoc_new_genesis (env_codecs env) t
          (authentication_key_coords (env_keys env) (um_staged m))
          (assertion_key_coords (env_keys env) (um_staged m))))"
    by (rule rotation_made_ok [OF made])
  show ?thesis
    using assms(2-5) p w a
    by (auto simp: cmd_rotate_def Let_def rotate_parameters_json signed_update_entry [OF refl]
        publish_update_def new entry_line_def)
qed

lemma add_version_runs:
  assumes holds: "entry_holds ops e sts s" and room: "Suc (length sts) < 10000" and enc: "encodable ops st"
    and path: "\<forall>q. prefix q (ke_dir e) \<and> q \<noteq> [] \<longrightarrow> path_is_dir s q" "ke_dir e \<noteq> []"
    and free: "\<forall>x. \<not> path_exists s (ke_dir e @ show_pad4 (Suc (length sts)) # x)"
  shows "\<exists>s'. add_version ops e st s = (Inr (of_nat (Suc (length sts))), s')"
proof -
  let ?n = "Suc (length sts)" let ?d = "ke_dir e @ [show_pad4 ?n]"
  have u: "unat (of_nat ?n :: u32) = ?n" using room by (intro unat_of_nat_small) simp
  have v: "(of_nat (length sts) :: u32) + 1 = of_nat ?n" by simp
  have quiet: "prefix (ke_dir e) q \<Longrightarrow> fs_refuses s q = None" for q using holds by (simp add: entry_holds_def)
  have pre: "path_is_dir s q \<or> fs_refuses s q = None \<and> fmlookup (fs_files s) q = None"
    if "prefix q ?d" "q \<noteq> []" for q
    using that path quiet [of ?d] free [rule_format, of "[]"] by (auto simp: path_exists_def)
  obtain s1 where 1: "create_dir_all ?d s = (Inr (), s1)"
    using create_dirs_succeeds [of "[]" ?d s] pre by (auto simp: create_dir_all_def)
  note f = create_dir_all_frame [OF 1]
  have "writable (?d @ [k]) s1" for k
    using create_dir_all_made [OF 1] f(2) f(4) [of "?d @ [k]"] quiet [of "?d @ [k]"]
      free [rule_format, of "[k]"]
    by (auto simp: writable_def path_is_dir_def path_exists_def butlast_append)
  then obtain s2 where "write_snapshot ops st ?d s1 = (Inr (), s2)"
    using write_snapshot_succeeds [OF enc, of ?d s1] by auto
  then show ?thesis
    using 1 entry_holds_latest [OF holds] by (simp add: add_version_def Let_def v u del: of_nat_Suc)
qed

text \<open>A store entry that can take a new version.\<close>

definition can_add ::
  "('es, 'ps) key_ops \<Rightarrow> keystore_entry \<Rightarrow> ('es, 'ps) staged_keys list \<Rightarrow> ('es, 'ps) staged_keys \<Rightarrow> files \<Rightarrow> bool" where
  "can_add ops e sts st s \<longleftrightarrow> entry_holds ops e sts s \<and> Suc (length sts) < 10000 \<and> encodable ops st
     \<and> ke_dir e \<noteq> [] \<and> (\<forall>q. prefix q (ke_dir e) \<and> q \<noteq> [] \<longrightarrow> path_is_dir s q)
     \<and> (\<forall>x. \<not> path_exists s (ke_dir e @ show_pad4 (Suc (length sts)) # x))"

lemma can_add_runs: "can_add ops e sts st s \<Longrightarrow> \<exists>s'. add_version ops e st s = (Inr (of_nat (Suc (length sts))), s')"
  unfolding can_add_def by (intro add_version_runs) auto

lemma can_add_cong:
  assumes "can_add ops e sts st s" "fs_dirs s' = fs_dirs s" "fs_refuses s' = fs_refuses s"
    "\<And>q. prefix (ke_dir e) q \<Longrightarrow> fmlookup (fs_files s') q = fmlookup (fs_files s) q"
  shows "can_add ops e sts st s'"
proof -
  have "entry_holds ops e sts s'"
    by (rule entry_holds_cong [of e s s']) (use assms in \<open>simp_all add: same_at_def can_add_def\<close>)
  moreover have "path_exists s' (ke_dir e @ x) = path_exists s (ke_dir e @ x)" for x
    using assms(2,4) by (simp add: path_exists_def path_is_dir_def)
  ultimately show ?thesis using assms(1,2) by (simp add: can_add_def path_is_dir_def)
qed


section \<open>Deactivation\<close>

lemma deactivation_made_ok:
  assumes "deactivation_made env clk args s = Ok (l, d, k, e)"
  obtains doc t entry v where
    "load_log env (da_did args) (da_input args) s = Ok l" "le_state (last (ll_log l)) = StateValue doc"
    "update_target env (ll_log l) s = Ok (t, d, entry, v, k)"
    "e = update_entry (env_codecs env) (signer_of (env_keys env) k) (le_version_id (last (ll_log l)))
       (of_nat (length (ll_log l)) + 1) (compute_version_time clk (le_version_time (last (ll_log l))))
       (update_params (Some []) (Some True)) doc"
proof -
  have loaded: "load_log env (da_did args) (da_input args) s = Ok l"
    using assms by (auto simp: deactivation_made_def ok_iff Let_def)
  then obtain doc where "le_state (last (ll_log l)) = StateValue doc"
    using assms by (cases "le_state (last (ll_log l))") (auto simp: deactivation_made_def ok_iff)
  with loaded assms show ?thesis
    by (auto simp: deactivation_made_def ok_iff Let_def intro: that)
qed

lemma cmd_deactivate_ok:
  assumes "cmd_deactivate env clk reg args s = (Inr out, s')"
  obtains l d k e where
    "deactivation_made env clk args s = Ok (l, d, k, e)" "ll_log l \<noteq> []"
    "le_format (last (ll_log l)) = TDW03" "lp_deactivated (le_parameters (last (ll_log l))) \<noteq> Some True"
    "write_log (build_updated_log (ll_raw_lines l) (entry_line (env_codecs env) e))
       (ll_source_path l) (da_out args) (da_force args) s = (Inr (uo_saved out), s')"
    "\<And>url body. uo_published out = Some (url, body) \<Longrightarrow> url = did_log_url d
       \<and> body = trim_end (build_updated_log (ll_raw_lines l) (entry_line (env_codecs env) e))"
proof -
  let ?c = "env_codecs env" let ?ops = "env_keys env"
  obtain l doc where 1: "load_log env (da_did args) (da_input args) s = Ok l" "ll_log l \<noteq> []"
      "le_format (last (ll_log l)) = TDW03" "lp_deactivated (le_parameters (last (ll_log l))) \<noteq> Some True"
      "le_state (last (ll_log l)) = StateValue doc"
    using assms by (auto simp: cmd_deactivate_def Let_def ok_iff split: if_split_asm did_doc_state.split_asm)
  obtain x where "update_target env (ll_log l) s = Ok x"
    using assms 1 by (auto simp: cmd_deactivate_def Let_def ok_iff split: if_split_asm)
  then obtain t d entry v k where 2: "update_target env (ll_log l) s = Ok (t, d, entry, v, k)"
    by (cases x) auto
  let ?e = "update_entry ?c (signer_of ?ops k) (le_version_id (last (ll_log l)))
       (of_nat (length (ll_log l)) + 1) (compute_version_time clk (le_version_time (last (ll_log l))))
       (update_params (Some []) (Some True)) doc"
  have made: "deactivation_made env clk args s = Ok (l, d, k, ?e)"
    by (simp add: deactivation_made_def 1 2 Let_def)
  let ?log = "build_updated_log (ll_raw_lines l) (entry_line ?c ?e)"
  obtain s1 where 4: "write_log ?log (ll_source_path l) (da_out args) (da_force args) s = (Inr (uo_saved out), s1)"
      "publish_update env reg (da_no_publish args) (da_partner_id args) (da_registry_url args) d t
         ?log (uo_saved out) s1 = (Inr (uo_published out), s')"
    using assms 1 2
    by (auto simp: cmd_deactivate_def Let_def ok_iff entry_line_def deactivate_parameters_json
        signed_update_entry [OF refl] split: if_split_asm)
  show ?thesis
    using 1 4 publish_update_ok [OF 4(2)] by (intro that [OF made]) auto
qed

lemma deactivation_parts:
  assumes run: "cmd_deactivate env clk reg args s = (Inr out, s')"
    and made: "deactivation_made env clk args s = Ok (l, d, k, e)"
    and tdw: "le_format (hd (ll_log l)) = TDW03"
    and laws: "bs58_law (env_codecs env)" "CHR ''#'' \<notin> set (key_multikey (env_codecs env) (env_keys env) k)"
      "ed_sound (env_verifiers env) (signer_of (env_keys env) k)" "entry_text_law (env_codecs env) e"
  shows "verify_log (env_codecs env) (env_verifiers env) (ll_log l @ [e]) d = Ok () \<longleftrightarrow>
      key_multikey (env_codecs env) (env_keys env) k \<in> set (announced [] (ll_log l))"
    "lp_deactivated (le_parameters e) = Some True" "announced [] (ll_log l @ [e]) = []" "le_format e = TDW03"
    "uo_saved out = (if da_out args \<noteq> None then da_out args else ll_source_path l)"
    "fs_dirs s' = fs_dirs s" "fs_refuses s' = fs_refuses s"
    "(\<And>p. uo_saved out = Some p \<Longrightarrow> q \<noteq> p \<and> q \<noteq> tmp_path p) \<Longrightarrow> fmlookup (fs_files s') q = fmlookup (fs_files s) q"
    "uo_saved out = Some p \<Longrightarrow> \<exists>mode t. fmlookup (fs_files s') p = Some (mode, t)
        \<and> log_from_jsonl (env_codecs env) t = Ok (ll_log l @ [e])"
    "uo_published out = Some (url, t) \<Longrightarrow> log_from_jsonl (env_codecs env) t = Ok (ll_log l @ [e])"
proof -
  let ?c = "env_codecs env" let ?vs = "env_verifiers env" let ?new = "ll_log l @ [e]"
  obtain doc t entry v where m: "load_log env (da_did args) (da_input args) s = Ok l"
      "le_state (last (ll_log l)) = StateValue doc" "update_target env (ll_log l) s = Ok (t, d, entry, v, k)"
    and e: "e = update_entry ?c (signer_of (env_keys env) k) (le_version_id (last (ll_log l)))
       (of_nat (length (ll_log l)) + 1) (compute_version_time clk (le_version_time (last (ll_log l))))
       (update_params (Some []) (Some True)) doc"
    by (rule deactivation_made_ok [OF made])
  have ok: "ll_log l \<noteq> []" "write_log (build_updated_log (ll_raw_lines l) (entry_line ?c e))
       (ll_source_path l) (da_out args) (da_force args) s = (Inr (uo_saved out), s')"
      "\<And>url body. uo_published out = Some (url, body) \<Longrightarrow>
         body = trim_end (build_updated_log (ll_raw_lines l) (entry_line ?c e))"
    using run made by (rule_tac cmd_deactivate_ok; auto)+
  note ver = target_verified [OF m(1) ok(1) tdw m(3)]
  have id: "json_get doc ''id'' = Some (JString (did_to_string d))"
    using verified_last [OF ver(1)] m(2) by simp
  show "verify_log ?c ?vs ?new d = Ok () \<longleftrightarrow>
      key_multikey ?c (env_keys env) k \<in> set (announced [] (ll_log l))"
    unfolding e by (subst update_verifies_iff [OF laws(1) _ laws(3) ver(1) ok(1) id])
      (use laws(2) in \<open>simp_all add: key_multikey_def signer_of_def\<close>)
  have wire: "wire_entry e" by (simp add: e update_wire)
  show "lp_deactivated (le_parameters e) = Some True" "announced [] ?new = []" "le_format e = TDW03"
    by (simp_all add: e announced_append)
  show "uo_saved out = (if da_out args \<noteq> None then da_out args else ll_source_path l)"
    "fs_dirs s' = fs_dirs s" "fs_refuses s' = fs_refuses s"
    "(\<And>p. uo_saved out = Some p \<Longrightarrow> q \<noteq> p \<and> q \<noteq> tmp_path p) \<Longrightarrow> fmlookup (fs_files s') q = fmlookup (fs_files s) q"
    using write_log_ok(1-3,5) [OF ok(2)] by blast+
  show "uo_saved out = Some p \<Longrightarrow> \<exists>mode t. fmlookup (fs_files s') p = Some (mode, t)
        \<and> log_from_jsonl ?c t = Ok ?new"
    using write_log_ok(4) [OF ok(2)] updated_log_parses [OF m(1) laws(4) wire] by auto
  show "uo_published out = Some (url, t) \<Longrightarrow> log_from_jsonl ?c t = Ok ?new" for t
    using ok(3) published_log_parses [OF m(1) laws(4) wire] by auto
qed

text \<open>A log that ends with a deactivation is not deactivated again.\<close>

lemma deactivated_refused:
  assumes "load_log env (da_did args) (da_input args) s = Ok l" "ll_log l \<noteq> []"
    "le_format (last (ll_log l)) = TDW03" "lp_deactivated (le_parameters (last (ll_log l))) = Some True"
    "\<not> (da_did args \<noteq> None \<and> da_out args = None \<and> da_no_publish args)"
  shows "cmd_deactivate env clk reg args s = (Inl UPAlreadyDeactivated, s)"
  using assms by (auto simp: cmd_deactivate_def Let_def)

text \<open>C12: what a deactivation writes. Whenever the command succeeds, the file it saved and the text
  it published parse to the log it loaded and one entry, with the flag set, that leaves no
  key in force. That log verifies exactly if the store's latest key was in force, and then
  no continuation of it verifies, whoever signs it.\<close>

theorem deactivation_ends_the_log:
  assumes run: "cmd_deactivate env clk reg args s = (Inr out, s')"
    and made: "deactivation_made env clk args s = Ok (l, d, k, e)"
    and tdw: "le_format (hd (ll_log l)) = TDW03"
    and laws: "bs58_law (env_codecs env)" "CHR ''#'' \<notin> set (key_multikey (env_codecs env) (env_keys env) k)"
      "ed_sound (env_verifiers env) (signer_of (env_keys env) k)" "entry_text_law (env_codecs env) e"
  shows "let c = env_codecs env; new = ll_log l @ [e]
    in (verify_log c (env_verifiers env) new d = Ok () \<longleftrightarrow>
          key_multikey c (env_keys env) k \<in> set (announced [] (ll_log l)))
     \<and> lp_deactivated (le_parameters e) = Some True \<and> announced [] new = []
     \<and> (later \<noteq> [] \<longrightarrow> verify_log c (env_verifiers env) (new @ later) d' \<noteq> Ok ())
     \<and> (\<forall>p. uo_saved out = Some p \<longrightarrow>
          (\<exists>mode t. fmlookup (fs_files s') p = Some (mode, t) \<and> log_from_jsonl c t = Ok new))
     \<and> (\<forall>url t. uo_published out = Some (url, t) \<longrightarrow> log_from_jsonl c t = Ok new)"
proof -
  note parts = deactivation_parts [OF run made tdw laws]
  have "verify_log (env_codecs env) (env_verifiers env) ((ll_log l @ [e]) @ later) d' \<noteq> Ok ()" if "later \<noteq> []"
    using parts(3) _ that by (rule no_keys_no_more) simp
  then show ?thesis using parts(1-3,9,10) by (simp add: Let_def)
qed

section \<open>The registry an update is published to\<close>

text \<open>
  A registry as the commands use it: \<open>stored u p i b\<close> stands for what is known when the registry
  at the URL \<open>u\<close> says it has taken the log \<open>b\<close> of partner \<open>p\<close> under the identifier \<open>i\<close>, and
  \<open>given p u al\<close> for what is known when it gives out a place. The laws are those of one call;
  the lemmas say what a command knows when it reports the log as published.
\<close>

locale log_registry =
  fixes reg :: registry
    and stored :: "string \<Rightarrow> string \<Rightarrow> string \<Rightarrow> string \<Rightarrow> bool"
    and given :: "string \<Rightarrow> string \<Rightarrow> allocation \<Rightarrow> bool"
  assumes publish_stores: "reg_publish reg u p i b = Ok () \<Longrightarrow> stored u p i b"
    and allocate_gives: "reg_allocate reg p u = Ok al \<Longrightarrow> given p u al"
begin

lemma update_stored:
  assumes "publish_update env reg np pid url d t log w s = (Inr (Some (loc, body)), s')"
  shows "\<exists>p u i. pid = Some p \<and> url = Some u \<and> extract_registry_identifier d = Some i
    \<and> stored u p i body \<and> loc = did_log_url d \<and> body = trim_end log"
  using assms publish_stores
  by (auto simp: publish_update_def ok_iff publish_failed_err not_err_unit require_registry_credentials_def
      split: if_split_asm sum.split_asm)

lemma rotation_stored:
  assumes run: "cmd_rotate env fresh clk reg args s = (Inr out, s')"
    and "uo_published out = Some (loc, body)"
  shows "\<exists>p u d i. ra_partner_id args = Some p \<and> ra_registry_url args = Some u
    \<and> did_from_str (uo_did out) = Ok d \<and> extract_registry_identifier d = Some i
    \<and> stored u p i body \<and> loc = did_log_url d"
proof -
  obtain d t log w s1 where "did_from_str (uo_did out) = Ok d"
    "publish_update env reg (ra_no_publish args) (ra_partner_id args) (ra_registry_url args) d t log w s1
       = (Inr (Some (loc, body)), s')"
    using assms by (auto simp: cmd_rotate_def Let_def ok_iff update_target_ok case_prod_beta split: if_split_asm)
  with update_stored show ?thesis by blast
qed

lemma deactivation_stored:
  assumes run: "cmd_deactivate env clk reg args s = (Inr out, s')"
    and "uo_published out = Some (loc, body)"
  shows "\<exists>p u d i. da_partner_id args = Some p \<and> da_registry_url args = Some u
    \<and> did_from_str (uo_did out) = Ok d \<and> extract_registry_identifier d = Some i
    \<and> stored u p i body \<and> loc = did_log_url d"
proof -
  obtain d t log w s1 where "did_from_str (uo_did out) = Ok d"
    "publish_update env reg (da_no_publish args) (da_partner_id args) (da_registry_url args) d t log w s1
       = (Inr (Some (loc, body)), s')"
    using assms
    by (auto simp: cmd_deactivate_def Let_def ok_iff update_target_ok case_prod_beta
        split: if_split_asm did_doc_state.split_asm)
  with update_stored show ?thesis by blast
qed

text \<open>A creation publishes under the identifier it was given, by the registry it names.\<close>

lemma creation_stored:
  assumes "create_source reg args = Ok (url, alloc)" "create_publish reg args alloc line = Ok (Some loc)"
  shows "\<exists>p u al. ca_partner_id args = Some p \<and> ca_registry_url args = Some u \<and> given p u al
    \<and> stored u p (al_identifier al) (trim_end line) \<and> loc = al_url al \<and> url = al_url al"
proof -
  obtain p u al where c: "ca_partner_id args = Some p" "ca_registry_url args = Some u" "reg_allocate reg p u = Ok al"
      "reg_publish reg u p (al_identifier al) (trim_end line) = Ok ()" "loc = al_url al" "url = al_url al"
    using assms
    by (auto simp: create_source_def create_publish_def ok_iff require_registry_credentials_def
        split: option.split_asm if_split_asm bool.split_asm)
  show ?thesis using c publish_stores [OF c(4)] allocate_gives [OF c(3)] by blast
qed

end

section \<open>Instances\<close>

text \<open>
  A key store with the keys of the sample DID, whose signatures the plain verifier accepts, and
  a syntax for the sample log and one more entry.
\<close>

definition sample_keys :: "(string, string) key_ops" where
  "sample_keys = plain_keys\<lparr>es_sign := (\<lambda>k m. as_bytes k @ take 32 (m @ replicate 32 0))\<rparr>"

definition sample_key :: string where "sample_key = bytes_text (replicate 32 1)"

definition sample_files :: files where
  "sample_files =
     \<lparr>fs_files = fmap_of_list
        [([''r'', ''00'', ''did.txt''], (default_mode, did_to_string sample_did)),
         ([''r'', ''00'', ''0001'', ''authorized-private.pem''], (private_mode, sample_key)),
         ([''r'', ''00'', ''0001'', ''authentication-private.pem''], (private_mode, ''b'')),
         ([''r'', ''00'', ''0001'', ''assertion-private.pem''], (private_mode, ''c''))],
      fs_dirs = {|[], [''r''], [''r'', ''00''], [''r'', ''00'', ''0001'']|}, fs_refuses = (\<lambda>_. None)\<rparr>"

definition sample_fresh :: "(string, string) fresh_keys" where
  "sample_fresh = \<lparr>fk_authorized = ''f'', fk_authentication = ''g'', fk_assertion = ''h''\<rparr>"

definition sample_clock :: clock where
  "sample_clock = \<lparr>clk_now = 0, clk_parse = (\<lambda>_. None), clk_show = (\<lambda>_. ''t'')\<rparr>"

definition sample_registry :: registry where
  "sample_registry = \<lparr>reg_allocate = (\<lambda>p u. Err ''''), reg_publish = (\<lambda>u p i b. Err '''')\<rparr>"

definition sample_rotate :: rotate_args where
  "sample_rotate = \<lparr>ra_did = Some (did_to_string sample_did), ra_input = None, ra_rotate = [RotAuthentication],
     ra_authorized_key = None, ra_authentication_key = None, ra_assertion_key = None, ra_out = Some [''out''],
     ra_force = False, ra_no_publish = True, ra_partner_id = None, ra_registry_url = None\<rparr>"

definition sample_update :: "did_log_entry list \<Rightarrow> did_log_entry" where
  "sample_update log = update_entry plain_codecs (signer_of sample_keys sample_key)
     (le_version_id (last log)) (of_nat (length log) + 1) ''t'' (update_params None None)
     (diddoc_to_json plain_codecs (diddoc_new_genesis plain_codecs (did_to_string sample_did)
        \<lparr>p256_x = [], p256_y = []\<rparr> \<lparr>p256_x = [], p256_y = []\<rparr>))"

definition life_syntax :: "did_log_entry \<Rightarrow> string \<Rightarrow> json" where
  "life_syntax e t =
     (if t = ''x'' then entry_to_json sample_first
      else if t = ''z'' then entry_to_json (sample_entry ''2'' (Some []))
      else entry_to_json e)"

definition life_codecs :: "did_log_entry \<Rightarrow> codecs" where
  "life_codecs e = text_codecs (\<lambda>_. ''y'') (life_syntax e)"

lemma text_codecs_fields [simp]:
  "bs58_encode (text_codecs f g) = bs58_encode plain_codecs" "b64_encode (text_codecs f g) = b64_encode plain_codecs"
  "bs58_decode (text_codecs f g) = bs58_decode plain_codecs" "sha256 (text_codecs f g) = sha256 plain_codecs"
  "multihash_sha256 (text_codecs f g) = multihash_sha256 plain_codecs"
  "jcs_to_vec (text_codecs f g) = jcs_to_vec plain_codecs"
  "json_to_string (text_codecs f g) v = f v" "json_from_str (text_codecs f g) t = Ok (g t)"
  by (simp_all add: text_codecs_def)

lemma text_same:
  "multikey_of (text_codecs f g) = multikey_of plain_codecs"
  "hash_log_entry (text_codecs f g) = hash_log_entry plain_codecs"
  "sign_proof (text_codecs f g) = sign_proof plain_codecs"
  "diddoc_to_json (text_codecs f g) (diddoc_new_genesis (text_codecs f g) t a x)
    = diddoc_to_json plain_codecs (diddoc_new_genesis plain_codecs t a x)"
proof -
  show "multikey_of (text_codecs f g) = multikey_of plain_codecs"
    by (intro ext) (simp add: multikey_of_def)
  show "hash_log_entry (text_codecs f g) = hash_log_entry plain_codecs"
    by (intro ext) (simp add: hash_log_entry_def)
  have "sign_proof (text_codecs f g) k d cfg = sign_proof plain_codecs k d cfg" for k d cfg
    by (cases "pc_cryptosuite cfg") (simp add: sign_proof_def from_signature_def eddsa_jcs_2022_hash_def)
  then show "sign_proof (text_codecs f g) = sign_proof plain_codecs" by (intro ext)
  show "diddoc_to_json (text_codecs f g) (diddoc_new_genesis (text_codecs f g) t a x)
    = diddoc_to_json plain_codecs (diddoc_new_genesis plain_codecs t a x)"
    by (simp add: diddoc_to_json_def diddoc_new_genesis_def diddoc_new_def with_context_def
        add_verification_method_def add_authentication_def add_assertion_method_def Let_def
        vm_to_json_def ec_from_p256_coordinates_def insert_nonempty_def)
qed

lemma life_same:
  "multikey_of (life_codecs e) = multikey_of plain_codecs"
  "update_entry (life_codecs e) = update_entry plain_codecs"
  "diddoc_to_json (life_codecs e) (diddoc_new_genesis (life_codecs e) t a x)
    = diddoc_to_json plain_codecs (diddoc_new_genesis plain_codecs t a x)"
  unfolding life_codecs_def by (intro ext | simp add: text_same update_entry_def derive_entry_hash_def)+

lemma life_arrays: "le_format e = TDW03 \<Longrightarrow> \<exists>xs. life_syntax e t = JArray xs"
  by (simp add: life_syntax_def sample_first_def sample_entry_def entry_new_tdw_def entry_to_json_def)

lemma sample_update_format [simp]: "le_format (sample_update log) = TDW03"
  by (simp add: sample_update_def)

lemma sample_key_facts:
  "ed_sound plain_verifiers (signer_of sample_keys sample_key)"
  "key_multikey (life_codecs e) sample_keys sample_key = sample_multikey"
  "CHR ''#'' \<notin> set sample_multikey" "bs58_law (life_codecs e)"
proof -
  have k: "es_public sample_keys sample_key = replicate 32 1"
    by (simp add: sample_keys_def sample_key_def plain_keys_def)
  show "ed_sound plain_verifiers (signer_of sample_keys sample_key)"
    by (auto simp: ed_sound_def plain_verifiers_def signer_of_def k)
      (simp_all add: sample_keys_def sample_key_def min_def)
  show "key_multikey (life_codecs e) sample_keys sample_key = sample_multikey"
    by (simp add: key_multikey_def k life_same sample_multikey_def plain_signer_def)
  show "CHR ''#'' \<notin> set sample_multikey"
    by (simp add: sample_multikey_def multikey_of_def plain_codecs_def in_bytes_text multicodec_ed25519_def plain_signer_def)
  show "bs58_law (life_codecs e)" by (simp add: bs58_law_def life_codecs_def) (simp add: plain_codecs_def)
qed

abbreviation sample_vault_entry :: keystore_entry where
  "sample_vault_entry \<equiv> entry_of sample_keys [''r''] (did_to_string sample_did)"

abbreviation sample_stored :: "(string, string) staged_keys" where
  "sample_stored \<equiv> staged_from_parts sample_key ''b'' ''c''"

lemma sample_hash_dir: "did_to_hash sample_keys t = ''00''"
  by (simp add: did_to_hash_def sample_keys_def plain_keys_def)

lemma sample_pem: "es_from_pem sample_keys t = Ok t" "ps_from_pem sample_keys t = Ok t"
  by (simp_all add: sample_keys_def plain_keys_def)

lemma sample_holds: "entry_holds sample_keys sample_vault_entry [sample_stored] sample_files"
proof -
  have names: "dir_names [''r'', ''00''] sample_files = {|''did.txt'', ''0001''|}"
    by (rule fset_eqI) (auto simp: dir_names_def child_names_iff sample_files_def)
  have vs: "versions_in {|''did.txt'', ''0001''|} = {|1|}"
    by (rule fset_eqI) (auto simp: versions_in_iff)
  have stored: "fmlookup (fs_files sample_files) (key_path sample_vault_entry 1 Authorized True) = Some (private_mode, sample_key)"
    "fmlookup (fs_files sample_files) (key_path sample_vault_entry 1 KeyStore.Authentication True) = Some (private_mode, ''b'')"
    "fmlookup (fs_files sample_files) (key_path sample_vault_entry 1 Assertion True) = Some (private_mode, ''c'')"
    using show_pad4_one
    by (simp_all add: key_path_def entry_of_def sample_hash_dir key_file_name_def sample_files_def)
  have "snapshot_at sample_keys sample_vault_entry 1 sample_files = Ok sample_stored"
    using stored
    by (simp add: snapshot_at_def and_then_ok ok_iff load_ok sample_pem)
      (simp add: sample_files_def)
  then show ?thesis
    by (simp add: entry_holds_def sample_hash_dir names vs path_is_dir_def read_to_string_ok)
      (simp add: sample_files_def)
qed

lemma sample_did_text:
  "trim (did_to_string sample_did) = did_to_string sample_did" "CHR ''#'' \<notin> set (did_to_string sample_did)"
  by (simp add: did_to_string_def sample_did_def sample_scid_def bytes_text_def trim_def trim_start_def
      trim_end_def white_space_def trim_front.simps)
    (simp add: did_to_string_def sample_did_def sample_scid_def in_bytes_text)

lemma sample_target:
  assumes "current_did log = Some (did_to_string sample_did)" "env_keys env = sample_keys" "env_store env = [''r'']"
  shows "update_target env log sample_files
    = Ok (did_to_string sample_did, sample_did, sample_vault_entry, 1, sample_key)"
proof -
  have latest: "latest_version sample_vault_entry sample_files = Ok 1"
    using keys.latest_is [OF sample_holds] by simp
  have "load_eddsa sample_keys sample_vault_entry Authorized (Some 1) sample_files = Ok sample_key"
    using held_snapshot(1) [OF sample_holds latest] by (simp add: staged_from_parts_def)
  with latest held_lookup [OF sample_holds sample_did_text(1)] assms show ?thesis
    by (simp add: update_target_ok sample_resolved)
qed

lemma sample_writes:
  "\<exists>s1. write_log t None (Some [''out'']) False sample_files = (Inr (Some [''out'']), s1)
     \<and> fs_dirs s1 = fs_dirs sample_files \<and> (\<forall>q. fs_refuses s1 q = None)
     \<and> (\<forall>q. q \<noteq> [''out''] \<longrightarrow> fmlookup (fs_files s1) q = fmlookup (fs_files sample_files) q)"
  by (simp add: write_log_def fs_write_def open_and_write_def io_then_def io_map_err_def sample_files_def
      path_exists_def path_is_dir_def)

lemma sample_can_add: "can_add sample_keys sample_vault_entry [sample_stored] st sample_files"
proof -
  have "show_pad4 2 \<noteq> ''0001''" by (simp flip: show_pad4_one)
  moreover have "show_pad4 2 \<noteq> ''did.txt''" using length_show_pad4 [of 2] by auto
  ultimately have "\<not> path_exists sample_files (''r'' # ''00'' # show_pad4 2 # x)" for x
    by (auto simp: path_exists_def path_is_dir_def sample_files_def)
  moreover have "path_is_dir sample_files q" if "prefix q [''r'', ''00'']" "q \<noteq> []" for q
    using that by (auto simp: path_is_dir_def sample_files_def prefix_Cons)
  moreover have "encodable sample_keys st" by (simp add: encodable_def sample_keys_def plain_keys_def)
  ultimately show ?thesis
    using sample_holds by (auto simp: can_add_def sample_hash_dir numeral_2_eq_2)
qed

lemma sample_apart: "apart (ke_dir sample_vault_entry) [''out'']" "apart (ke_dir sample_vault_entry) (tmp_path [''out''])"
  by (simp_all add: apart_def sample_hash_dir tmp_path_def)

lemma sample_rotation_made:
  assumes env: "env = text_env (life_codecs (sample_update log)) sample_keys t"
    and load: "load_log env (Some (did_to_string sample_did)) None sample_files
      = Ok \<lparr>ll_raw_lines = rl, ll_log = log, ll_source_path = None\<rparr>"
    and log: "log \<noteq> []" "le_format (last log) = TDW03" "current_did log = Some (did_to_string sample_did)"
  obtains m s1 where
    "rotation_made env sample_fresh sample_clock sample_rotate sample_files = Ok m"
    "ll_log (um_loaded m) = log" "um_key m = sample_key"
    "um_did m = sample_did" "um_new m = sample_update log" "um_entry m = sample_vault_entry"
    "write_log (build_updated_log (ll_raw_lines (um_loaded m)) (entry_line (env_codecs env) (um_new m)))
       (ll_source_path (um_loaded m)) (ra_out sample_rotate) (ra_force sample_rotate) sample_files
       = (Inr (Some [''out'']), s1)"
proof -
  let ?l = "\<lparr>ll_raw_lines = rl, ll_log = log, ll_source_path = None\<rparr>"
  let ?st = "staged_from_parts sample_key ''g'' ''c''"
  let ?m = "\<lparr>um_loaded = ?l, um_did = sample_did, um_entry = sample_vault_entry, um_key = sample_key,
    um_staged = ?st, um_new = sample_update log\<rparr>"
  have plan: "plan_rotation sample_rotate = Ok \<lparr>pl_authorized = Keep, pl_authentication = Generate, pl_assertion = Keep\<rparr>"
    by (simp add: plan_rotation_def sample_rotate_def)
  have "snapshot_at sample_keys sample_vault_entry 1 sample_files = Ok sample_stored"
    using keys.at_is [OF sample_holds, of 0] by simp
  then have stage: "stage_keys sample_keys sample_fresh sample_vault_entry 1
      \<lparr>pl_authorized = Keep, pl_authentication = Generate, pl_assertion = Keep\<rparr> sample_files = Ok ?st"
    by (auto simp: stage_keys_def snapshot_at_def ok_iff staged_from_parts_def sample_fresh_def)
  have env': "env_keys env = sample_keys" "env_store env = [''r'']" "env_codecs env = life_codecs (sample_update log)"
    by (simp_all add: env)
  have args: "ra_did sample_rotate = Some (did_to_string sample_did)" "ra_input sample_rotate = None"
    "ra_out sample_rotate = Some [''out'']" "ra_force sample_rotate = False" "ra_no_publish sample_rotate"
    by (simp_all add: sample_rotate_def)
  have coords: "authentication_key_coords sample_keys ?st = \<lparr>p256_x = [], p256_y = []\<rparr>"
    "assertion_key_coords sample_keys ?st = \<lparr>p256_x = [], p256_y = []\<rparr>"
    "key_multikey c sample_keys sample_key = multikey_of c (authorized_key_bytes sample_keys ?st)" for c
    by (simp_all add: authentication_key_coords_def assertion_key_coords_def sample_keys_def plain_keys_def
        key_multikey_def authorized_key_bytes_def staged_from_parts_def)
  have made: "rotation_made env sample_fresh sample_clock sample_rotate sample_files = Ok ?m"
    using plan load stage sample_target [OF log(3) env'(1,2)]
    by (simp add: rotation_made_def env' args coords Let_def sample_update_def life_same)
      (simp add: compute_version_time_def sample_clock_def Let_def)
  obtain s1 where "write_log (build_updated_log rl (entry_line (env_codecs env) (sample_update log)))
      None (Some [''out'']) False sample_files = (Inr (Some [''out'']), s1)"
    using sample_writes by metis
  then show ?thesis using that [OF made] by (simp add: args)
qed

lemma sample_rotation:
  assumes env: "env = text_env (life_codecs (sample_update log)) sample_keys t"
    and load: "load_log env (Some (did_to_string sample_did)) None sample_files
      = Ok \<lparr>ll_raw_lines = rl, ll_log = log, ll_source_path = None\<rparr>"
    and log: "log \<noteq> []" "le_format (last log) = TDW03" "current_did log = Some (did_to_string sample_did)"
  obtains m out s' where
    "rotation_made env sample_fresh sample_clock sample_rotate sample_files = Ok m"
    "cmd_rotate env sample_fresh sample_clock sample_registry sample_rotate sample_files = (Inr out, s')"
    "ll_log (um_loaded m) = log" "um_key m = sample_key"
    "um_did m = sample_did" "um_new m = sample_update log"
proof -
  obtain m s1 where m: "rotation_made env sample_fresh sample_clock sample_rotate sample_files = Ok m"
    "ll_log (um_loaded m) = log" "um_key m = sample_key"
    "um_did m = sample_did" "um_new m = sample_update log" "um_entry m = sample_vault_entry"
    and w: "write_log (build_updated_log (ll_raw_lines (um_loaded m)) (entry_line (env_codecs env) (um_new m)))
       (ll_source_path (um_loaded m)) (ra_out sample_rotate) (ra_force sample_rotate) sample_files
       = (Inr (Some [''out'']), s1)"
    by (rule sample_rotation_made [OF assms])
  have "can_add sample_keys sample_vault_entry [sample_stored] (um_staged m) s1"
  proof (rule can_add_cong [OF sample_can_add])
    fix q assume "prefix (ke_dir sample_vault_entry) q"
    then have "q \<noteq> [''out''] \<and> q \<noteq> tmp_path [''out'']" using sample_apart by (auto simp: apart_def)
    then show "fmlookup (fs_files s1) q = fmlookup (fs_files sample_files) q" by (intro write_log_ok(5) [OF w]) auto
  qed (rule write_log_ok [OF w])+
  then obtain s2 v where "add_version sample_keys sample_vault_entry (um_staged m) s1 = (Inr v, s2)"
    using can_add_runs by blast
  moreover have "ra_no_publish sample_rotate" "ra_out sample_rotate \<noteq> None" by (simp_all add: sample_rotate_def)
  ultimately obtain out where "cmd_rotate env sample_fresh sample_clock sample_registry sample_rotate sample_files = (Inr out, s2)"
    using cmd_rotate_runs [OF m(1) _ _ _ _ w, of v s2] log m by (auto simp: env)
  then show ?thesis using that m by blast
qed

lemma life_text_law: "entry_text_law (life_codecs e) e"
  by (simp add: entry_text_law_def entry_line_def one_line_def line_texts life_syntax_def life_codecs_def)

theorem rotation_verifies_iff_authorized_witness:
  "verify_log (life_codecs (sample_update [sample_first])) plain_verifiers [sample_first, sample_update [sample_first]] sample_did = Ok ()"
proof -
  let ?env = "text_env (life_codecs (sample_update [sample_first])) sample_keys ''x''"
  have first: "le_format sample_first = TDW03" "lp_update_keys (le_parameters sample_first) = Some [sample_multikey]"
    "current_did [sample_first] = Some (did_to_string sample_did)"
    by (simp_all add: sample_first_def sample_entry_def entry_new_tdw_def params_new_tdw_def current_did_def json_obj_def)
  have load: "load_log ?env (Some (did_to_string sample_did)) None sample_files
      = Ok \<lparr>ll_raw_lines = [''x''], ll_log = [sample_first], ll_source_path = None\<rparr>"
    unfolding life_codecs_def by (rule sample_loaded [OF life_arrays]) (simp_all add: life_syntax_def)
  obtain m out s' where r: "rotation_made ?env sample_fresh sample_clock sample_rotate sample_files = Ok m"
    "cmd_rotate ?env sample_fresh sample_clock sample_registry sample_rotate sample_files = (Inr out, s')"
    "ll_log (um_loaded m) = [sample_first]" "um_key m = sample_key"
    "um_did m = sample_did" "um_new m = sample_update [sample_first]"
    by (rule sample_rotation [OF refl load]) (use first in auto)
  show ?thesis
    using rotation_verifies_iff_authorized [OF r(2,1)] sample_key_facts life_text_law first r(3-6)
    by (simp add: Let_def)
qed


definition sample_deactivate :: deactivate_args where
  "sample_deactivate = \<lparr>da_did = Some (did_to_string sample_did), da_input = None, da_out = Some [''out''],
     da_force = False, da_no_publish = True, da_partner_id = None, da_registry_url = None\<rparr>"

definition sample_end :: did_log_entry where
  "sample_end = update_entry plain_codecs (signer_of sample_keys sample_key) (le_version_id sample_first) 2 ''t''
     (update_params (Some []) (Some True)) (json_obj [(''id'', JString (did_to_string sample_did))])"

theorem deactivation_ends_the_log_witness:
  "\<exists>out s'. cmd_deactivate (text_env (life_codecs sample_end) sample_keys ''x'') sample_clock
        sample_registry sample_deactivate sample_files = (Inr out, s')
     \<and> verify_log (life_codecs sample_end) plain_verifiers [sample_first, sample_end] sample_did = Ok ()
     \<and> verify_log (life_codecs sample_end) plain_verifiers [sample_first, sample_end, sample_end] sample_did \<noteq> Ok ()"
proof -
  let ?c = "life_codecs sample_end" let ?env = "text_env ?c sample_keys ''x''"
  have first: "le_format sample_first = TDW03" "lp_update_keys (le_parameters sample_first) = Some [sample_multikey]"
    "current_did [sample_first] = Some (did_to_string sample_did)" "lp_deactivated (le_parameters sample_first) = None"
    "le_state sample_first = StateValue (json_obj [(''id'', JString (did_to_string sample_did))])"
    by (simp_all add: sample_first_def sample_entry_def entry_new_tdw_def params_new_tdw_def current_did_def json_obj_def)
  let ?l = "\<lparr>ll_raw_lines = [''x''], ll_log = [sample_first], ll_source_path = None\<rparr>"
  have load: "load_log ?env (Some (did_to_string sample_did)) None sample_files = Ok ?l"
    unfolding life_codecs_def by (rule sample_loaded [OF life_arrays]) (simp_all add: life_syntax_def sample_end_def)
  have tgt: "update_target ?env [sample_first] sample_files
      = Ok (did_to_string sample_did, sample_did, sample_vault_entry, 1, sample_key)"
    by (rule sample_target) (simp_all add: first)
  have args: "da_did sample_deactivate = Some (did_to_string sample_did)" "da_input sample_deactivate = None"
    "da_out sample_deactivate = Some [''out'']" "da_force sample_deactivate = False" "da_no_publish sample_deactivate"
    by (simp_all add: sample_deactivate_def)
  have time: "compute_version_time sample_clock t = ''t''" for t
    by (simp add: compute_version_time_def sample_clock_def Let_def)
  have new: "update_entry plain_codecs (signer_of sample_keys sample_key) (le_version_id sample_first) 2 ''t''
      (update_params (Some []) (Some True)) (json_obj [(''id'', JString (did_to_string sample_did))]) = sample_end"
    by (simp add: sample_end_def)
  have made: "deactivation_made ?env sample_clock sample_deactivate sample_files
      = Ok (?l, sample_did, sample_key, sample_end)"
    by (simp add: deactivation_made_def args load tgt first time life_same new Let_def)
  obtain s1 where w: "write_log (build_updated_log [''x''] (entry_line ?c sample_end))
      None (Some [''out'']) False sample_files = (Inr (Some [''out'']), s1)"
    using sample_writes by metis
  have "\<exists>out. cmd_deactivate ?env sample_clock sample_registry sample_deactivate sample_files = (Inr out, s1)"
    using w by (simp add: cmd_deactivate_def Let_def args load tgt first time deactivate_parameters_json
        signed_update_entry [OF refl] life_same publish_update_def entry_line_def new)
  then obtain out where run: "cmd_deactivate ?env sample_clock sample_registry sample_deactivate sample_files = (Inr out, s1)"
    by blast
  show ?thesis
    using deactivation_ends_the_log [OF run made, where later = "[sample_end]" and d' = sample_did] run
      sample_key_facts life_text_law first
    by (simp add: Let_def)
qed

end
