(* ===== verification/DidGenesis.thy ===== *)
theory DidGenesis
  imports DidLife
begin

text \<open>
  The log \<open>did create\<close> writes verifies: substituting the SCID for its placeholder turns the
  preliminary entry into the entry whose hash and SCID the verifier recomputes. With the
  rotations of \<open>DidLife\<close> this gives the invariant of a DID's life: its log always verifies and
  the key store always holds a key that may sign the next entry.
\<close>

section \<open>The placeholder\<close>

text \<open>Substitution in all strings of a value.\<close>

primrec json_replace :: "string \<Rightarrow> string \<Rightarrow> json \<Rightarrow> json" where
  "json_replace a b JNull = JNull"
| "json_replace a b (JBool x) = JBool x"
| "json_replace a b (JNumber n) = JNumber n"
| "json_replace a b (JString s) = JString (str_replace a b s)"
| "json_replace a b (JArray xs) = JArray (map (json_replace a b) xs)"
| "json_replace a b (JObject m) = JObject (fmmap (json_replace a b) m)"

definition brace_free :: "string \<Rightarrow> bool" where
  "brace_free t \<longleftrightarrow> CHR 0x7B \<notin> set t"

text \<open>
  Substituting the SCID in the text of a value is substituting it in its strings, and is undone
  by substituting back: no key of the value has the placeholder, no character of the SCID is
  escaped in JSON, and the SCID occurs nowhere else in the text.
\<close>

definition scid_text_law :: "codecs \<Rightarrow> json \<Rightarrow> string \<Rightarrow> bool" where
  "scid_text_law c v scid \<longleftrightarrow>
     (let t = json_to_string c v; t' = str_replace ''{SCID}'' scid t; v' = json_replace ''{SCID}'' scid v
      in json_from_str c t = Ok v \<and> json_from_str c t' = Ok v' \<and> json_to_string c v' = t'
         \<and> str_replace scid ''{SCID}'' t' = t)"

lemma replace_brace_free: "brace_free t \<Longrightarrow> str_replace ''{SCID}'' b t = t"
  by (rule str_replace_absent) (simp_all add: brace_free_def)

lemma replace_step: "CHR 0x7B \<noteq> x \<Longrightarrow> str_replace ''{SCID}'' b (x # t) = x # str_replace ''{SCID}'' b t"
  by (simp add: str_replace_def replace_nonempty.simps [of _ _ "x # t"])

lemma replace_prefix: "brace_free a \<Longrightarrow> str_replace ''{SCID}'' b (a @ t) = a @ str_replace ''{SCID}'' b t"
  by (induction a) (auto simp: brace_free_def replace_step)

lemma replace_hit: "str_replace ''{SCID}'' b (''{SCID}'' @ t) = b @ str_replace ''{SCID}'' b t"
  using replace_nonempty_match [of "''{SCID}''" b t] by (simp add: str_replace_def)

lemma replace_placeholder [simp]: "str_replace ''{SCID}'' b ''{SCID}'' = b"
  using replace_hit [of b "[]"] by (simp add: str_replace_def)

lemma fmmap_insert: "fmmap f (fmupd k v m) = fmupd k (f v) (fmmap f m)"
  by (rule fmap_ext) simp

text \<open>The text of the placeholder DID becomes the text of the DID.\<close>

lemma build_did_tdw:
  "build_did TDW03 scid dmn path = Ok d \<Longrightarrow>
   d = \<lparr>did_method = Tdw, did_scid = scid, did_domain = dmn, did_path = path\<rparr>"
  by (auto simp: try_new_tdw_def validate_and_build_def split: if_split_asm option.split_asm)

lemma placeholder_replaced:
  assumes "build_did TDW03 None dmn path = Ok ph" "build_did TDW03 (Some scid) dmn path = Ok d"
    "brace_free dmn" "\<And>p. path = Some p \<Longrightarrow> brace_free p"
  shows "str_replace ''{SCID}'' scid (did_to_string ph) = did_to_string d"
proof -
  let ?rest = "'':'' @ dmn @ (case path of Some p \<Rightarrow> '':'' @ p | None \<Rightarrow> [])"
  have "brace_free ?rest" using assms(3,4) by (auto simp: brace_free_def split: option.split)
  moreover have "did_to_string ph = ''did:tdw:'' @ ''{SCID}'' @ ?rest" "did_to_string d = ''did:tdw:'' @ scid @ ?rest"
    using build_did_tdw [OF assms(1)] build_did_tdw [OF assms(2)] by (simp_all add: did_to_string_def)
  moreover have "brace_free ''did:tdw:''" by (simp add: brace_free_def)
  ultimately show ?thesis
    by (simp only: replace_prefix replace_hit replace_brace_free)
qed

section \<open>The genesis entry\<close>

definition genesis_params :: "string \<Rightarrow> string \<Rightarrow> log_parameters" where
  "genesis_params scid mk = (params_new_tdw_minimal ''did:tdw:0.3'' scid [mk])\<lparr>lp_portable := Some False\<rparr>"

lemma genesis_params_json:
  "params_to_json (params_new_tdw_minimal ''did:tdw:0.3'' scid [mk]) = params_to_json (genesis_params scid mk)"
  by (simp add: genesis_params_def params_to_json_def params_new_tdw_minimal_def params_new_tdw_def portable_written_def)

lemma genesis_params_replaced:
  assumes "brace_free mk"
  shows "json_replace ''{SCID}'' scid (params_to_json (genesis_params ''{SCID}'' mk))
    = params_to_json (genesis_params scid mk)"
proof -
  have "brace_free ''did:tdw:0.3''" by (simp add: brace_free_def)
  with assms show ?thesis
    by (simp add: genesis_params_def params_to_json_def params_new_tdw_minimal_def params_new_tdw_def
        portable_written_def fmmap_insert json_strings_def replace_brace_free)
qed

text \<open>The preliminary entry, and the entry that is written.\<close>

definition prelim_form :: "string \<Rightarrow> string \<Rightarrow> string \<Rightarrow> json \<Rightarrow> json" where
  "prelim_form scid mk now doc =
     JArray [JString scid, JString now, params_to_json (genesis_params scid mk), json_obj [(''value'', doc)]]"

definition genesis_log_entry :: "codecs \<Rightarrow> ed_signer \<Rightarrow> string \<Rightarrow> string \<Rightarrow> json \<Rightarrow> did_log_entry" where
  "genesis_log_entry c signer scid now doc =
     (let mk = multikey_of c (ed_public signer);
          vid = ''1-'' @ derive_entry_hash c (prelim_form scid mk now doc);
          cfg = \<lparr>pc_cryptosuite = EddsaJcs2022, pc_verification_method = did_key_of mk,
            pc_proof_purpose = IntegrityProof.Authentication, pc_challenge = vid, pc_created = now\<rparr>
      in entry_new_tdw vid now (genesis_params scid mk) (StateValue doc)
           [proof_to_json (sign_proof c signer doc cfg)])"

lemma genesis_log_entry_fields [simp]:
  "le_format (genesis_log_entry c k scid now doc) = TDW03"
  "le_state (genesis_log_entry c k scid now doc) = StateValue doc"
  "lp_update_keys (le_parameters (genesis_log_entry c k scid now doc)) = Some [multikey_of c (ed_public k)]"
  "lp_deactivated (le_parameters (genesis_log_entry c k scid now doc)) = None"
  "hash_form scid (genesis_log_entry c k scid now doc) = prelim_form scid (multikey_of c (ed_public k)) now doc"
  "le_version_id (genesis_log_entry c k scid now doc) =
     ''1-'' @ derive_entry_hash c (prelim_form scid (multikey_of c (ed_public k)) now doc)"
  by (simp_all add: genesis_log_entry_def entry_new_tdw_def Let_def hash_form_def prelim_form_def
      genesis_params_def params_new_tdw_minimal_def params_new_tdw_def)

lemma genesis_wire: "wire_entry (genesis_log_entry c k scid now doc)"
  by (simp add: wire_entry_def entry_on_wire_def params_on_wire_def genesis_log_entry_def Let_def
      entry_new_tdw_def portable_written_def genesis_params_def params_new_tdw_minimal_def params_new_tdw_def)

lemma prelim_of_template:
  "strip_proof_slot (entry_to_json (new_genesis c TDW03 mk ph a x now)) TDW03
     = prelim_form ''{SCID}'' mk now (diddoc_to_json c (diddoc_new_genesis c ph a x))"
  by (simp add: new_genesis_def entry_new_tdw_def entry_to_json_def prelim_form_def genesis_params_json)

lemma prelim_replaced:
  assumes "brace_free mk" "brace_free now"
  shows "json_replace ''{SCID}'' scid (prelim_form ''{SCID}'' mk now doc)
    = prelim_form scid mk now (json_replace ''{SCID}'' scid doc)"
  using assms
  by (simp add: prelim_form_def genesis_params_replaced replace_brace_free json_obj_def fmmap_insert)

lemma genesis_entry_is:
  assumes mk: "mk = multikey_of c (authorized_key_bytes ops st)" "brace_free mk" "brace_free now"
    and prelim: "prelim = prelim_form ''{SCID}'' mk now (diddoc_to_json c (diddoc_new_genesis c ph
        (authentication_key_coords ops st) (assertion_key_coords ops st)))"
    and law: "scid_text_law c prelim (derive_scid c prelim)"
  shows "genesis_entry c ops TDW03 st ph now = Ok (derive_scid c prelim,
    entry_to_json (genesis_log_entry c (signer_of ops (sk_authorized st)) (derive_scid c prelim) now
        (json_replace ''{SCID}'' (derive_scid c prelim) (diddoc_to_json c (diddoc_new_genesis c ph
          (authentication_key_coords ops st) (assertion_key_coords ops st))))))"
proof -
  let ?doc = "diddoc_to_json c (diddoc_new_genesis c ph (authentication_key_coords ops st) (assertion_key_coords ops st))"
  let ?scid = "derive_scid c prelim" let ?doc' = "json_replace ''{SCID}'' ?scid ?doc"
  have "json_from_str c (str_replace ''{SCID}'' ?scid (json_to_string c prelim)) = Ok (prelim_form ?scid mk now ?doc')"
    using law prelim_replaced [OF mk(2,3)] by (simp add: scid_text_law_def Let_def prelim)
  then show ?thesis
    by (simp add: genesis_entry_def Let_def prelim_of_template prelim [symmetric] mk(1) [symmetric]
        del: strip_proof_slot.simps)
      (simp add: genesis_log_entry_def entry_new_tdw_def entry_to_json_def prelim_form_def Let_def
        signer_of_def mk(1) authorized_key_bytes_def value_or_null_def json_obj_def)
qed

text \<open>The entry verifies: its version is the hash the verifier computes, and the SCID is that of
  the preliminary entry the verifier restores.\<close>

lemma genesis_verifies:
  assumes laws: "bs58_law c" "CHR ''#'' \<notin> set mk" "ed_sound vs k"
    and mk: "mk = multikey_of c (ed_public k)" "brace_free mk" "brace_free now"
    and law: "scid_text_law c (prelim_form ''{SCID}'' mk now doc) scid"
    and scid: "scid = derive_scid c (prelim_form ''{SCID}'' mk now doc)" "did_scid d = Some scid"
    and id: "json_get (json_replace ''{SCID}'' scid doc) ''id'' = Some (JString (did_to_string d))"
  shows "verify_log c vs [genesis_log_entry c k scid now (json_replace ''{SCID}'' scid doc)] d = Ok ()"
proof -
  let ?doc = "json_replace ''{SCID}'' scid doc" let ?e = "genesis_log_entry c k scid now ?doc"
  have "genesis_bound c scid (prelim_form scid mk now ?doc)"
    using law prelim_replaced [OF mk(2,3), of scid doc] scid(1)
    by (simp add: genesis_bound_def scid_text_law_def Let_def)
  moreover have "proof_valid c vs ?e ?doc [mk]"
  proof -
    have "verify_proof c vs 0 ?e ?doc [mk] = Ok ()"
      by (rule signed_proof_accepted [OF laws(1,3), where rest = "[]"])
        (use laws(2) in \<open>simp_all add: mk(1) [symmetric] genesis_log_entry_def Let_def entry_new_tdw_def did_key_of_def\<close>)
    then show ?thesis by (simp add: verify_proof_ok)
  qed
  ultimately have "entry_valid c vs scid (did_to_string d) 0 scid [mk] ?e"
    using id by (simp add: entry_valid_def mk(1) [symmetric] show_nat.simps digit_char_def)
  then show ?thesis
    by (simp add: verify_log_valid valid_log_def scid(2) authorized_def prev_version_def mk(1) [symmetric])
qed

section \<open>What a creation makes\<close>

record ('es, 'ps) creation_made =
  cm_did :: did
  cm_staged :: "('es, 'ps) staged_keys"
  cm_url :: string
  cm_prelim :: json
  cm_new :: did_log_entry

definition creation_made ::
  "('ed, 'ec, 'es, 'ps) env \<Rightarrow> ('es, 'ps) fresh_keys \<Rightarrow> clock \<Rightarrow> registry \<Rightarrow> create_args \<Rightarrow> files \<Rightarrow>
   (('es, 'ps) creation_made, create_error) result" where
  "creation_made env fresh clk reg args s =
     (let c = env_codecs env; ops = env_keys env; now = now_iso8601 clk in
      and_then (create_source reg args) (\<lambda>(url, alloc).
      and_then (url_to_did_components url) (\<lambda>(dmn, path).
      and_then (prepare_keys ops fresh args s) (\<lambda>st.
      and_then (map_err CRDid (build_did TDW03 None dmn path)) (\<lambda>ph.
        let doc = diddoc_to_json c (diddoc_new_genesis c (did_to_string ph)
              (authentication_key_coords ops st) (assertion_key_coords ops st));
            prelim = prelim_form ''{SCID}'' (multikey_of c (authorized_key_bytes ops st)) now doc;
            scid = derive_scid c prelim
        in and_then (map_err CRDid (build_did TDW03 (Some scid) dmn path)) (\<lambda>d.
             Ok \<lparr>cm_did = d, cm_staged = st, cm_url = url, cm_prelim = prelim,
               cm_new = genesis_log_entry c (signer_of ops (sk_authorized st)) scid now
                 (json_replace ''{SCID}'' scid doc)\<rparr>))))))"

text \<open>What the steps of the creation rely on: the placeholder comes from the tool alone.\<close>

definition creation_laws ::
  "('ed, 'ec, 'es, 'ps) env \<Rightarrow> clock \<Rightarrow> ('es, 'ps) creation_made \<Rightarrow> bool" where
  "creation_laws env clk m \<longleftrightarrow>
     brace_free (cm_url m) \<and> brace_free (now_iso8601 clk)
   \<and> brace_free (multikey_of (env_codecs env) (authorized_key_bytes (env_keys env) (cm_staged m)))
   \<and> scid_text_law (env_codecs env) (cm_prelim m) (derive_scid (env_codecs env) (cm_prelim m))"

lemma brace_free_pieces: "x \<in> set (split_on c s) \<Longrightarrow> set x \<subseteq> set s"
proof (induction c s arbitrary: x rule: split_on.induct)
  case (2 c y s)
  obtain h t where ht: "split_on c s = h # t" by (cases "split_on c s") auto
  have "set z \<subseteq> set s" if "z = h \<or> z \<in> set t" for z using 2 that by (cases "y = c") (auto simp: ht)
  moreover have "x = [] \<or> x = y # h \<or> x = h \<or> x \<in> set t" using "2.prems" by (auto simp: ht split: if_split_asm)
  ultimately show ?case by fastforce
qed simp

lemma brace_free_split_on: "brace_free s \<Longrightarrow> x \<in> set (split_on c s) \<Longrightarrow> brace_free x"
  using brace_free_pieces unfolding brace_free_def by blast

lemma brace_free_join: "(\<And>x. x \<in> set xs \<Longrightarrow> brace_free x) \<Longrightarrow> brace_free (join_with '':'' xs)"
  by (induction "'':''" xs rule: join_with.induct) (auto simp: brace_free_def)

lemma url_brace_free:
  assumes "url_to_did_components url = Ok (dmn, path)" "brace_free url"
  shows "brace_free dmn" "path = Some p \<Longrightarrow> brace_free p"
proof -
  obtain rest where rest: "strip_prefix ''https://'' url = Some rest"
    using assms(1) by (auto simp: url_to_did_components_def ok_iff)
  then have "brace_free rest" using assms(2) by (auto simp: brace_free_def strip_prefix_some)
  obtain h q where hq: "(case split_once (CHR ''/'') rest of Some (h, p) \<Rightarrow> (h, p) | None \<Rightarrow> (rest, [])) = (h, q)"
    by fastforce
  then have bf: "brace_free h" "brace_free q"
    using \<open>brace_free rest\<close> by (auto simp: brace_free_def split_once_some split: option.splits)
  define segs0 where "segs0 = filter (\<lambda>x. x \<noteq> []) (split_on (CHR ''/'') q)"
  define segs where "segs = (if segs0 \<noteq> [] \<and> last segs0 = ''did.jsonl'' then butlast segs0 else segs0)"
  have out: "dmn = (case split_once (CHR '':'') h of Some (h, port) \<Rightarrow> h @ ''%3A'' @ port | None \<Rightarrow> h)"
      "path = (if segs = [] \<or> segs = [''.well-known''] then None else Some (join_with '':'' segs))"
    using assms(1) rest hq
    unfolding segs_def segs0_def
    by (auto simp: url_to_did_components_def Let_def ok_iff split: if_split_asm)
  show "brace_free dmn"
    using bf(1) by (auto simp: out(1) brace_free_def split_once_some split: option.splits)
  have "brace_free x" if "x \<in> set segs" for x
    using that bf(2) by (auto simp: segs_def segs0_def brace_free_split_on split: if_split_asm dest!: in_set_butlastD)
  then show "path = Some p \<Longrightarrow> brace_free p"
    by (auto simp: out(2) brace_free_join split: if_split_asm)
qed

lemma creation_made_ok:
  assumes "creation_made env fresh clk reg args s = Ok m"
  obtains alloc dmn path ph where
    "create_source reg args = Ok (cm_url m, alloc)" "url_to_did_components (cm_url m) = Ok (dmn, path)"
    "prepare_keys (env_keys env) fresh args s = Ok (cm_staged m)" "build_did TDW03 None dmn path = Ok ph"
    "build_did TDW03 (Some (derive_scid (env_codecs env) (cm_prelim m))) dmn path = Ok (cm_did m)"
    "cm_prelim m = prelim_form ''{SCID}''
       (multikey_of (env_codecs env) (authorized_key_bytes (env_keys env) (cm_staged m))) (now_iso8601 clk)
       (diddoc_to_json (env_codecs env) (diddoc_new_genesis (env_codecs env) (did_to_string ph)
         (authentication_key_coords (env_keys env) (cm_staged m)) (assertion_key_coords (env_keys env) (cm_staged m))))"
    "cm_new m = genesis_log_entry (env_codecs env) (signer_of (env_keys env) (sk_authorized (cm_staged m)))
       (derive_scid (env_codecs env) (cm_prelim m)) (now_iso8601 clk)
       (json_replace ''{SCID}'' (derive_scid (env_codecs env) (cm_prelim m))
         (diddoc_to_json (env_codecs env) (diddoc_new_genesis (env_codecs env) (did_to_string ph)
           (authentication_key_coords (env_keys env) (cm_staged m)) (assertion_key_coords (env_keys env) (cm_staged m)))))"
  using assms by (auto simp: creation_made_def ok_iff Let_def)

lemma json_get_replace: "json_get (json_replace a b v) k = map_option (json_replace a b) (json_get v k)"
  by (cases v) simp_all

lemma created_entry_verifies:
  assumes made: "creation_made env fresh clk reg args s = Ok m" and laws: "creation_laws env clk m"
    "bs58_law (env_codecs env)"
    "CHR ''#'' \<notin> set (key_multikey (env_codecs env) (env_keys env) (sk_authorized (cm_staged m)))"
    "ed_sound (env_verifiers env) (signer_of (env_keys env) (sk_authorized (cm_staged m)))"
  shows "verify_log (env_codecs env) (env_verifiers env) [cm_new m] (cm_did m) = Ok ()"
    "announced [] [cm_new m] = [key_multikey (env_codecs env) (env_keys env) (sk_authorized (cm_staged m))]"
proof -
  let ?c = "env_codecs env" let ?k = "signer_of (env_keys env) (sk_authorized (cm_staged m))"
  obtain alloc dmn path ph where ok: "url_to_did_components (cm_url m) = Ok (dmn, path)"
    "build_did TDW03 None dmn path = Ok ph"
    "build_did TDW03 (Some (derive_scid (env_codecs env) (cm_prelim m))) dmn path = Ok (cm_did m)"
    "cm_prelim m = prelim_form ''{SCID}''
       (multikey_of (env_codecs env) (authorized_key_bytes (env_keys env) (cm_staged m))) (now_iso8601 clk)
       (diddoc_to_json (env_codecs env) (diddoc_new_genesis (env_codecs env) (did_to_string ph)
         (authentication_key_coords (env_keys env) (cm_staged m)) (assertion_key_coords (env_keys env) (cm_staged m))))"
    "cm_new m = genesis_log_entry (env_codecs env) (signer_of (env_keys env) (sk_authorized (cm_staged m)))
       (derive_scid (env_codecs env) (cm_prelim m)) (now_iso8601 clk)
       (json_replace ''{SCID}'' (derive_scid (env_codecs env) (cm_prelim m))
         (diddoc_to_json (env_codecs env) (diddoc_new_genesis (env_codecs env) (did_to_string ph)
           (authentication_key_coords (env_keys env) (cm_staged m)) (assertion_key_coords (env_keys env) (cm_staged m)))))"
    by (rule creation_made_ok [OF made])
  have mk: "multikey_of ?c (authorized_key_bytes (env_keys env) (cm_staged m)) = multikey_of ?c (ed_public ?k)"
    by (simp add: authorized_key_bytes_def signer_of_def)
  have bf: "brace_free (cm_url m)" using laws(1) by (simp add: creation_laws_def)
  have "did_scid (cm_did m) = Some (derive_scid ?c (cm_prelim m))"
    using build_did_tdw [OF ok(3)] by simp
  moreover note placeholder_replaced [OF ok(2,3) url_brace_free [OF ok(1) bf]]
  ultimately show "verify_log ?c (env_verifiers env) [cm_new m] (cm_did m) = Ok ()"
    unfolding ok(5)
    by (intro genesis_verifies [OF laws(2) _ laws(4) refl])
      (use laws ok(4) mk in \<open>simp_all add: creation_laws_def json_get_replace document_id key_multikey_def signer_of_def\<close>)
  show "announced [] [cm_new m] = [key_multikey ?c (env_keys env) (sk_authorized (cm_staged m))]"
    by (simp add: ok(5) key_multikey_def signer_of_def)
qed

lemma cmd_create_iff:
  assumes made: "creation_made env fresh clk reg args s = Ok m" and tdw: "ca_format args = TDW03"
    and laws: "creation_laws env clk m"
  shows "cmd_create env fresh clk reg args s = (Inr out, s') \<longleftrightarrow>
    (\<exists>s1 e alloc url. (ca_no_publish args \<longrightarrow> ca_swiyu args) \<and> create_source reg args = Ok (url, alloc)
      \<and> wrote default_mode (ca_out args) (entry_line (env_codecs env) (cm_new m) @ newline) s s1
      \<and> store_commit (env_keys env) (env_store env) (cm_staged m) (cm_did m) s1 = (Inr e, s')
      \<and> create_publish reg args alloc (entry_line (env_codecs env) (cm_new m) @ newline) = Ok (co_published out)
      \<and> co_did out = did_to_string (cm_did m) \<and> co_out out = ca_out args \<and> co_hash out = ke_hash e)"
proof -
  let ?c = "env_codecs env" let ?ops = "env_keys env" let ?now = "now_iso8601 clk"
  obtain alloc dmn path ph where ok: "create_source reg args = Ok (cm_url m, alloc)"
    "url_to_did_components (cm_url m) = Ok (dmn, path)"
    "prepare_keys ?ops fresh args s = Ok (cm_staged m)" "build_did TDW03 None dmn path = Ok ph"
    "build_did TDW03 (Some (derive_scid ?c (cm_prelim m))) dmn path = Ok (cm_did m)"
    and entry: "cm_prelim m = prelim_form ''{SCID}''
       (multikey_of ?c (authorized_key_bytes ?ops (cm_staged m))) ?now
       (diddoc_to_json ?c (diddoc_new_genesis ?c (did_to_string ph)
         (authentication_key_coords ?ops (cm_staged m)) (assertion_key_coords ?ops (cm_staged m))))"
    "cm_new m = genesis_log_entry ?c (signer_of ?ops (sk_authorized (cm_staged m)))
       (derive_scid ?c (cm_prelim m)) ?now
       (json_replace ''{SCID}'' (derive_scid ?c (cm_prelim m))
         (diddoc_to_json ?c (diddoc_new_genesis ?c (did_to_string ph)
           (authentication_key_coords ?ops (cm_staged m)) (assertion_key_coords ?ops (cm_staged m)))))"
    by (rule creation_made_ok [OF made])
  have g: "genesis_entry ?c ?ops TDW03 (cm_staged m) (did_to_string ph) ?now
      = Ok (derive_scid ?c (cm_prelim m), entry_to_json (cm_new m))"
    using laws by (subst genesis_entry_is [OF refl _ _ entry(1)]) (simp_all add: creation_laws_def entry(2))
  show ?thesis
    using assms(2) ok g
    by (auto simp: cmd_create_def Let_def ok_iff entry_line_def fs_write_ok split: if_split_asm prod.splits)
qed

text \<open>Writing a file beside a key store leaves the store as it was.\<close>

lemma wrote_beside:
  assumes "wrote mode p t s s1" "apart root p"
  shows "prefix root q \<Longrightarrow> path_exists s1 q = path_exists s q" "ready_root root s \<Longrightarrow> ready_root root s1"
proof -
  note f = wrote_frame [OF assms(1)]
  have same: "path_exists s1 q = path_exists s q" if "prefix root q" for q
  proof -
    have "q \<noteq> p" using that assms(2) by (auto simp: apart_def)
    with f(1) f(3) show ?thesis by (simp add: path_exists_def path_is_dir_def)
  qed
  then show "prefix root q \<Longrightarrow> path_exists s1 q = path_exists s q" .
  show "ready_root root s \<Longrightarrow> ready_root root s1"
    using f(1,2) by (simp add: ready_root_def same path_is_dir_def)
qed

text \<open>What a successful creation leaves, with its entry.\<close>

lemma created_log:
  assumes run: "cmd_create env fresh clk reg args s = (Inr out, s')" "ca_format args = TDW03"
    and made: "creation_made env fresh clk reg args s = Ok m"
    and laws: "creation_laws env clk m" "bs58_law (env_codecs env)"
      "CHR ''#'' \<notin> set (key_multikey (env_codecs env) (env_keys env) (sk_authorized (cm_staged m)))"
      "ed_sound (env_verifiers env) (signer_of (env_keys env) (sk_authorized (cm_staged m)))"
      "entry_text_law (env_codecs env) (cm_new m)" "staged_pem_law (env_keys env) (cm_staged m)"
    and store: "ready_root (env_store env) s" "apart (env_store env) (ca_out args)"
  shows "co_did out = did_to_string (cm_did m)"
    "\<exists>mode t. fmlookup (fs_files s') (ca_out args) = Some (mode, t)
         \<and> log_from_jsonl (env_codecs env) t = Ok [cm_new m]"
    "entry_holds (env_keys env) (entry_of (env_keys env) (env_store env) (did_to_string (cm_did m)))
        [cm_staged m] s'"
    "le_format (cm_new m) = TDW03" "lp_deactivated (le_parameters (cm_new m)) = None"
proof -
  let ?c = "env_codecs env" let ?root = "env_store env"
  obtain s1 e where w: "wrote default_mode (ca_out args) (entry_line ?c (cm_new m) @ newline) s s1"
      and commit: "store_commit (env_keys env) ?root (cm_staged m) (cm_did m) s1 = (Inr e, s')"
      and out: "co_did out = did_to_string (cm_did m)"
    using run(1) by (auto simp: cmd_create_iff [OF made run(2) laws(1)])
  note f = wrote_frame [OF w]
  have "ready_root ?root s1" using wrote_beside(2) [OF w store(2,1)] .
  then have quiet: "\<forall>q. prefix ?root q \<longrightarrow> fs_refuses s1 q = None"
    and closed: "path_exists s1 (?root @ h # x) \<Longrightarrow> path_exists s1 (?root @ [h])" for h x
    by (auto simp: ready_root_def)
  note held = store_commit_holds [OF commit laws(6) quiet closed]
  have "\<not> prefix (?root @ [did_to_hash (env_keys env) (did_to_string (cm_did m))]) (ca_out args)"
    "\<not> prefix (ca_out args) (?root @ [did_to_hash (env_keys env) (did_to_string (cm_did m))])"
    using store(2) by (auto simp: apart_def dest: append_prefixD)
  then have "same_at s1 s' (ca_out args)"
    using touches_commit commit unfolding touches_def by blast
  moreover have one: "one_line (entry_line ?c (cm_new m))" using laws(5) by (simp add: entry_text_law_def)
  have "wire_entry (cm_new m)"
    by (rule creation_made_ok [OF made]) (simp add: genesis_wire)
  then have "line_parses ?c (entry_line ?c (cm_new m)) (cm_new m)"
    using laws(5) by (simp add: line_parses_def entry_text_law_def one_line_def entry_codec.dec_enc)
  then have "log_from_jsonl ?c (entry_line ?c (cm_new m) @ newline) = Ok [cm_new m]"
    using one parse_ended [of "[entry_line ?c (cm_new m)]"] by (simp add: one_line_def)
  ultimately show "\<exists>mode t. fmlookup (fs_files s') (ca_out args) = Some (mode, t)
         \<and> log_from_jsonl ?c t = Ok [cm_new m]"
    using f(4) by (auto simp: same_at_def)
  show "co_did out = did_to_string (cm_did m)"
    "entry_holds (env_keys env) (entry_of (env_keys env) ?root (did_to_string (cm_did m))) [cm_staged m] s'"
    using out held by simp_all
  show "le_format (cm_new m) = TDW03" "lp_deactivated (le_parameters (cm_new m)) = None"
    by (rule creation_made_ok [OF made]; simp)+
qed

text \<open>C9: a created DID. Whenever \<open>did create --format tdw\<close> succeeds (the other format, did:webvh, is
  written but not verified by this library), the file it wrote parses to one entry,
  and that log verifies for the DID it reports, as the verifier recomputes it: the SCID from the
  placeholder form, the hash, and the proof of the authorized key, which alone is in force. The
  key store holds exactly these keys as version 1 of the DID.\<close>

theorem created_log_verifies:
  assumes run: "cmd_create env fresh clk reg args s = (Inr out, s')" "ca_format args = TDW03"
    and made: "creation_made env fresh clk reg args s = Ok m"
    and laws: "creation_laws env clk m" "bs58_law (env_codecs env)"
      "CHR ''#'' \<notin> set (key_multikey (env_codecs env) (env_keys env) (sk_authorized (cm_staged m)))"
      "ed_sound (env_verifiers env) (signer_of (env_keys env) (sk_authorized (cm_staged m)))"
      "entry_text_law (env_codecs env) (cm_new m)" "staged_pem_law (env_keys env) (cm_staged m)"
    and store: "ready_root (env_store env) s" "apart (env_store env) (ca_out args)"
  shows "verify_log (env_codecs env) (env_verifiers env) [cm_new m] (cm_did m) = Ok ()
    \<and> co_did out = did_to_string (cm_did m)
    \<and> announced [] [cm_new m] = [key_multikey (env_codecs env) (env_keys env) (sk_authorized (cm_staged m))]
    \<and> (\<exists>mode t. fmlookup (fs_files s') (ca_out args) = Some (mode, t)
         \<and> log_from_jsonl (env_codecs env) t = Ok [cm_new m])
    \<and> entry_holds (env_keys env) (entry_of (env_keys env) (env_store env) (did_to_string (cm_did m)))
        [cm_staged m] s'"
  using created_log [OF assms] created_entry_verifies [OF made laws(1-4)] by blast

section \<open>Instances\<close>

text \<open>
  The sample DID, created from its URL with a syntax for the two forms of its first entry and for
  the entry that deactivates it.
\<close>

definition birth_fresh :: "(string, string) fresh_keys" where
  "birth_fresh = sample_fresh\<lparr>fk_authorized := sample_key\<rparr>"

definition sample_create :: create_args where
  "sample_create = \<lparr>ca_url = Some ''https://example.com'', ca_swiyu = False, ca_partner_id = None,
     ca_registry_url = None, ca_no_publish = False, ca_format = TDW03, ca_out = [''out''],
     ca_authorized_key = None, ca_authentication_key = None, ca_assertion_key = None\<rparr>"

definition birth_doc :: json where
  "birth_doc = diddoc_to_json plain_codecs (diddoc_new_genesis plain_codecs ''did:tdw:{SCID}:example.com''
     \<lparr>p256_x = [], p256_y = []\<rparr> \<lparr>p256_x = [], p256_y = []\<rparr>)"

definition birth_prelim :: json where
  "birth_prelim = prelim_form ''{SCID}'' sample_multikey ''t'' birth_doc"

definition birth_form :: json where
  "birth_form = prelim_form sample_scid sample_multikey ''t'' (json_replace ''{SCID}'' sample_scid birth_doc)"

definition birth_entry :: did_log_entry where
  "birth_entry = genesis_log_entry plain_codecs (signer_of sample_keys sample_key) sample_scid ''t''
     (json_replace ''{SCID}'' sample_scid birth_doc)"

definition birth_end :: did_log_entry where
  "birth_end = update_entry plain_codecs (signer_of sample_keys sample_key) (le_version_id birth_entry) 2 ''t''
     (update_params (Some []) (Some True)) (json_replace ''{SCID}'' sample_scid birth_doc)"

definition birth_codecs :: codecs where
  "birth_codecs = text_codecs
     (\<lambda>v. if v = birth_prelim then ''{SCID}'' else if v = birth_form then sample_scid
       else if v = entry_to_json birth_end then ''z'' else ''y'')
     (\<lambda>t. if t = ''{SCID}'' then birth_prelim else if t = sample_scid then birth_form
       else if t = ''z'' then entry_to_json birth_end else entry_to_json birth_entry)"

abbreviation birth_env :: "(u8 list, u8 list, string, string) env" where
  "birth_env \<equiv> text_env birth_codecs sample_keys ''x''"

definition birth :: "(string, string) creation_made" where
  "birth = \<lparr>cm_did = sample_did, cm_staged = staged_from_parts sample_key ''g'' ''h'',
     cm_url = ''https://example.com'', cm_prelim = birth_prelim, cm_new = birth_entry\<rparr>"

lemma birth_same: "genesis_log_entry birth_codecs = genesis_log_entry plain_codecs"
  "derive_scid birth_codecs birth_prelim = sample_scid" "bs58_law birth_codecs"
proof -
  show "genesis_log_entry birth_codecs = genesis_log_entry plain_codecs"
    unfolding birth_codecs_def
    by (intro ext) (simp add: genesis_log_entry_def text_same derive_entry_hash_def Let_def)
  show "derive_scid birth_codecs birth_prelim = sample_scid"
    unfolding birth_codecs_def derive_scid_def text_same
    by (simp add: hash_log_entry_def plain_codecs_def birth_prelim_def prelim_form_def sample_scid_def)
  show "bs58_law birth_codecs"
    by (simp add: bs58_law_def birth_codecs_def) (simp add: plain_codecs_def)
qed

lemma scid_distinct: "sample_scid \<noteq> ''{SCID}''" "sample_scid \<noteq> ''y''" "sample_scid \<noteq> ''z''" "sample_scid \<noteq> []"
  by (simp_all add: sample_scid_def bytes_text_def)

lemma birth_forms_distinct: "birth_form \<noteq> birth_prelim"
  "entry_to_json birth_entry \<noteq> birth_prelim" "entry_to_json birth_entry \<noteq> birth_form"
  "entry_to_json birth_end \<noteq> birth_prelim" "entry_to_json birth_end \<noteq> birth_form"
  using scid_distinct(1)
  by (simp_all add: birth_form_def birth_prelim_def prelim_form_def birth_entry_def genesis_log_entry_def
      birth_end_def update_entry_def entry_new_tdw_def entry_to_json_def Let_def)

lemma birth_entries_distinct: "entry_to_json birth_entry \<noteq> entry_to_json birth_end"
proof
  assume eq: "entry_to_json birth_entry = entry_to_json birth_end"
  have "le_format birth_entry = TDW03" "le_format birth_end = TDW03" by (simp_all add: birth_entry_def birth_end_def)
  with eq have "le_version_id birth_entry = le_version_id birth_end" by (auto simp: entry_to_json_def)
  moreover have "show_nat 2 = ''2''" by code_simp
  moreover have "\<exists>h. le_version_id birth_entry = ''1-'' @ h" by (auto simp: birth_entry_def)
  moreover have "\<exists>h. le_version_id birth_end = show_nat 2 @ ''-'' @ h"
    by (simp add: birth_end_def update_entry_def entry_new_tdw_def Let_def)
  ultimately show False by auto
qed

lemma sample_multikey_brace_free: "brace_free sample_multikey"
  by (simp add: brace_free_def sample_multikey_def multikey_of_def plain_codecs_def in_bytes_text
      multicodec_ed25519_def plain_signer_def)

lemma birth_now: "now_iso8601 sample_clock = ''t''"
  by (simp add: now_iso8601_def sample_clock_def)

lemma birth_keys:
  "multikey_of birth_codecs (authorized_key_bytes sample_keys (cm_staged birth)) = sample_multikey"
  "key_multikey birth_codecs sample_keys (sk_authorized (cm_staged birth)) = sample_multikey"
  "sk_authorized (cm_staged birth) = sample_key"
proof -
  have "es_public sample_keys sample_key = replicate 32 1"
    by (simp add: sample_keys_def sample_key_def plain_keys_def)
  then show "multikey_of birth_codecs (authorized_key_bytes sample_keys (cm_staged birth)) = sample_multikey"
    "key_multikey birth_codecs sample_keys (sk_authorized (cm_staged birth)) = sample_multikey"
    "sk_authorized (cm_staged birth) = sample_key"
    by (simp_all add: key_multikey_def birth_def authorized_key_bytes_def staged_from_parts_def
        birth_codecs_def text_same sample_multikey_def plain_signer_def)
qed

lemma birth_made: "creation_made birth_env birth_fresh sample_clock sample_registry sample_create s = Ok birth"
proof -
  have src: "create_source sample_registry sample_create = Ok (''https://example.com'', None)"
    by (simp add: create_source_def sample_create_def)
  have url: "url_to_did_components ''https://example.com'' = Ok (''example.com'', None)"
    by (simp add: url_to_did_components_def)
  have keys: "prepare_keys sample_keys birth_fresh sample_create s = Ok (cm_staged birth)"
    by (simp add: prepare_keys_def sample_create_def birth_fresh_def sample_fresh_def birth_def)
  have did: "try_new_tdw scid ''example.com'' None
      = Ok \<lparr>did_method = Tdw, did_scid = scid, did_domain = ''example.com'', did_path = None\<rparr>" for scid
    by (simp add: try_new_tdw_def validate_and_build_def is_valid_domain_def)
  have coords: "authentication_key_coords sample_keys st = \<lparr>p256_x = [], p256_y = []\<rparr>"
    "assertion_key_coords sample_keys st = \<lparr>p256_x = [], p256_y = []\<rparr>" for st
    by (simp_all add: authentication_key_coords_def assertion_key_coords_def sample_keys_def plain_keys_def)
  have doc: "diddoc_to_json birth_codecs (diddoc_new_genesis birth_codecs ''did:tdw:{SCID}:example.com''
      \<lparr>p256_x = [], p256_y = []\<rparr> \<lparr>p256_x = [], p256_y = []\<rparr>) = birth_doc"
    by (simp add: birth_codecs_def text_same birth_doc_def)
  have ph: "did_to_string \<lparr>did_method = Tdw, did_scid = None, did_domain = ''example.com'', did_path = None\<rparr>
      = ''did:tdw:{SCID}:example.com''"
    by (simp add: did_to_string_def)
  show ?thesis
    using birth_same(2)
    by (simp add: creation_made_def src url keys did ph coords doc birth_now birth_keys Let_def
        birth_prelim_def [symmetric] birth_same(1))
      (simp add: birth_def sample_did_def birth_entry_def staged_from_parts_def)
qed

lemma birth_text:
  "json_to_string birth_codecs birth_prelim = ''{SCID}''" "json_to_string birth_codecs birth_form = sample_scid"
  "json_to_string birth_codecs (entry_to_json birth_entry) = ''y''"
  "json_from_str birth_codecs ''{SCID}'' = Ok birth_prelim" "json_from_str birth_codecs sample_scid = Ok birth_form"
  "json_from_str birth_codecs ''y'' = Ok (entry_to_json birth_entry)"
  "json_to_string birth_codecs (entry_to_json birth_end) = ''z''"
  "json_from_str birth_codecs ''z'' = Ok (entry_to_json birth_end)"
  using scid_distinct birth_forms_distinct birth_entries_distinct unfolding birth_codecs_def by auto

lemma birth_laws:
  "creation_laws birth_env sample_clock birth" "entry_text_law birth_codecs birth_entry"
  "staged_pem_law sample_keys (cm_staged birth)" "ready_root [''r''] (plain_files {|[], [''r'']|} [])"
proof -
  have "str_replace sample_scid ''{SCID}'' sample_scid = ''{SCID}''"
    using replace_nonempty_match [OF scid_distinct(4), of "''{SCID}''" "[]"] scid_distinct(4)
    by (simp add: str_replace_def)
  moreover have "brace_free ''t''" by (simp add: brace_free_def)
  then have "json_replace ''{SCID}'' sample_scid birth_prelim = birth_form"
    by (simp add: birth_prelim_def birth_form_def prelim_replaced sample_multikey_brace_free)
  ultimately have "scid_text_law birth_codecs birth_prelim sample_scid"
    by (simp add: scid_text_law_def birth_text)
  with \<open>brace_free ''t''\<close> show "creation_laws birth_env sample_clock birth"
    by (simp add: creation_laws_def birth_now birth_keys(1) sample_multikey_brace_free)
      (simp add: birth_def birth_same(2) brace_free_def)
  show "entry_text_law birth_codecs birth_entry"
    by (simp add: entry_text_law_def entry_line_def birth_text one_line_def line_texts)
  show "staged_pem_law sample_keys (cm_staged birth)"
    by (simp add: staged_pem_law_def es_pem_law_def ps_pem_law_def sample_keys_def plain_keys_def)
  show "ready_root [''r''] (plain_files {|[], [''r'']|} [])" by (rule plain_ready)
qed

lemma birth_key:
  "CHR ''#'' \<notin> set (key_multikey birth_codecs sample_keys (sk_authorized (cm_staged birth)))"
  "ed_sound plain_verifiers (signer_of sample_keys (sk_authorized (cm_staged birth)))"
  using sample_key_facts(1,3) birth_keys(2,3) by simp_all

lemma birth_steps:
  obtains out s' s1 e where "cmd_create birth_env birth_fresh sample_clock sample_registry sample_create
     (plain_files {|[], [''r'']|} []) = (Inr out, s')"
    "wrote default_mode [''out''] (entry_line birth_codecs birth_entry @ newline) (plain_files {|[], [''r'']|} []) s1"
    "store_commit sample_keys [''r''] (cm_staged birth) sample_did s1 = (Inr e, s')"
proof -
  let ?s = "plain_files {|[], [''r'']|} []"
  have "writable [''out''] ?s" by (simp add: writable_def plain_files_def path_is_dir_def)
  then obtain s1 where w: "wrote default_mode [''out''] (entry_line birth_codecs birth_entry @ newline) ?s s1"
    using writable_writes(1) by blast
  have "apart [''r''] [''out'']" by (simp add: apart_def)
  note beside = wrote_beside [OF w this]
  have "did_to_hash sample_keys (did_to_string sample_did) = ''00''" by (rule sample_hash_dir)
  then have "\<not> store_exists sample_keys [''r''] sample_did s1"
    using beside(1) [of "[''r'', ''00'']"]
    by (simp add: store_exists_def path_exists_def path_is_dir_def plain_files_def)
  moreover have "encodable sample_keys (cm_staged birth)"
    by (simp add: encodable_def sample_keys_def plain_keys_def)
  ultimately obtain e s' where commit: "store_commit sample_keys [''r''] (cm_staged birth) sample_did s1 = (Inr e, s')"
    using commit_runs [OF beside(2) [OF plain_ready]] by blast
  have create: "ca_format sample_create = TDW03" "\<not> ca_no_publish sample_create" "ca_out sample_create = [''out'']"
      "create_source sample_registry sample_create = Ok (''https://example.com'', None)"
    by (simp_all add: sample_create_def create_source_def)
  have "cmd_create birth_env birth_fresh sample_clock sample_registry sample_create ?s
      = (Inr \<lparr>co_did = did_to_string sample_did, co_out = [''out''], co_hash = ke_hash e, co_published = None\<rparr>, s')"
    using w commit birth_laws(1) create
    by (subst cmd_create_iff [OF birth_made])
      (auto simp: birth_def create_source_def create_publish_def)
  then show ?thesis using that w commit by blast
qed

lemma birth_runs:
  obtains out s' where "cmd_create birth_env birth_fresh sample_clock sample_registry sample_create
     (plain_files {|[], [''r'']|} []) = (Inr out, s')"
  using birth_steps by blast

theorem created_log_verifies_witness:
  "\<exists>out s'. cmd_create birth_env birth_fresh sample_clock sample_registry sample_create
       (plain_files {|[], [''r'']|} []) = (Inr out, s')
     \<and> verify_log birth_codecs plain_verifiers [birth_entry] sample_did = Ok ()
     \<and> announced [] [birth_entry] = [sample_multikey] \<and> co_did out = did_to_string sample_did"
proof -
  obtain out s' where run: "cmd_create birth_env birth_fresh sample_clock sample_registry sample_create
     (plain_files {|[], [''r'']|} []) = (Inr out, s')"
    by (rule birth_runs)
  have fields: "cm_did birth = sample_did" "cm_new birth = birth_entry" "ca_out sample_create = [''out'']"
    "ca_format sample_create = TDW03"
    by (simp_all add: birth_def sample_create_def)
  have apart: "apart [''r''] [''out'']" by (simp add: apart_def)
  show ?thesis
    using created_log_verifies [OF run fields(4) birth_made] birth_laws birth_same(3) birth_key birth_keys(2) apart run
    by (simp add: fields)
qed

end
