(* ===== verification/DidHistory.thy ===== *)
theory DidHistory
  imports DidGenesis
begin

text \<open>
  The history of a DID that is created and rotated with the tool, its log kept in one file:
  whatever happens beside that file and the DID's key store entry, the log in the file verifies
  and the last keys the store holds are those that may sign the next entry.
\<close>

section \<open>Histories\<close>

definition signing_laws :: "('ed, 'ec, 'es, 'ps) env \<Rightarrow> 'es \<Rightarrow> bool" where
  "signing_laws env k \<longleftrightarrow> CHR ''#'' \<notin> set (key_multikey (env_codecs env) (env_keys env) k)
     \<and> ed_sound (env_verifiers env) (signer_of (env_keys env) k)"

definition did_entry :: "('ed, 'ec, 'es, 'ps) env \<Rightarrow> did \<Rightarrow> keystore_entry" where
  "did_entry env d = entry_of (env_keys env) (env_store env) (did_to_string d)"

inductive did_history ::
  "('ed, 'ec, 'es, 'ps) env \<Rightarrow> path \<Rightarrow> files \<Rightarrow> did \<Rightarrow> ('es, 'ps) staged_keys list \<Rightarrow> bool" for env p where
  created: "cmd_create env fresh clk reg args s = (Inr out, s') \<Longrightarrow>
    creation_made env fresh clk reg args s = Ok m \<Longrightarrow> ca_format args = TDW03 \<Longrightarrow> ca_out args = p \<Longrightarrow>
    creation_laws env clk m \<Longrightarrow> signing_laws env (sk_authorized (cm_staged m)) \<Longrightarrow>
    entry_text_law (env_codecs env) (cm_new m) \<Longrightarrow> staged_pem_law (env_keys env) (cm_staged m) \<Longrightarrow>
    wf_did (cm_did m) \<Longrightarrow> ready_root (env_store env) s \<Longrightarrow> apart (env_store env) p \<Longrightarrow>
    did_history env p s' (cm_did m) [cm_staged m]"
| rotated: "did_history env p s d sts \<Longrightarrow> cmd_rotate env fresh clk reg args s = (Inr out, s') \<Longrightarrow>
    rotation_made env fresh clk args s = Ok m \<Longrightarrow>
    ra_did args = None \<Longrightarrow> ra_input args = Some p \<Longrightarrow> ra_out args = None \<Longrightarrow>
    signing_laws env (sk_authorized (um_staged m)) \<Longrightarrow> entry_text_law (env_codecs env) (um_new m) \<Longrightarrow>
    staged_pem_law (env_keys env) (um_staged m) \<Longrightarrow> Suc (length sts) < 10000 \<Longrightarrow>
    apart (ke_dir (did_entry env d)) p \<Longrightarrow> apart (ke_dir (did_entry env d)) (tmp_path p) \<Longrightarrow>
    did_history env p s' d (sts @ [um_staged m])"
| elsewhere: "did_history env p s d sts \<Longrightarrow> fs_refuses s' = fs_refuses s \<Longrightarrow>
    fmlookup (fs_files s') p = fmlookup (fs_files s) p \<Longrightarrow>
    (\<And>q. prefix (ke_dir (did_entry env d)) q \<Longrightarrow> same_at s s' q) \<Longrightarrow>
    did_history env p s' d sts"

inductive_cases did_history_cases: "did_history env p s d sts"

section \<open>The invariant\<close>

definition history_ok ::
  "('ed, 'ec, 'es, 'ps) env \<Rightarrow> path \<Rightarrow> files \<Rightarrow> did \<Rightarrow> ('es, 'ps) staged_keys list \<Rightarrow> did_log_entry list \<Rightarrow> bool" where
  "history_ok env p s d sts log \<longleftrightarrow>
     (\<exists>mode t. fmlookup (fs_files s) p = Some (mode, t) \<and> log_from_jsonl (env_codecs env) t = Ok log)
   \<and> verify_log (env_codecs env) (env_verifiers env) log d = Ok ()
   \<and> length log = length sts \<and> list_all (\<lambda>e. le_format e = TDW03) log
   \<and> lp_deactivated (le_parameters (last log)) = None
   \<and> announced [] log = [key_multikey (env_codecs env) (env_keys env) (sk_authorized (last sts))]
   \<and> entry_holds (env_keys env) (did_entry env d) sts s
   \<and> wf_did d \<and> signing_laws env (sk_authorized (last sts))"

lemma verified_current:
  assumes "verify_log c vs log d = Ok ()" "log \<noteq> []"
  shows "current_did log = Some (did_to_string d)"
proof -
  obtain xs x where "log = xs @ [x]" using assms(2) by (cases log rule: rev_cases) auto
  with verified_last [OF assms(1)] show ?thesis by (auto simp: current_did_def)
qed

lemma verified_did:
  assumes "verify_log c vs log d = Ok ()" "wf_did d"
  shows "did_from_str (did_to_string d) = Ok d"
  using assms by (auto simp: verify_log_def ok_iff intro: did_from_str_to_string)

text \<open>What an update of a log in order reads: that log, its DID, its entry and its latest key.\<close>

lemma history_target:
  assumes ok: "history_ok env p s d sts log"
    and load: "load_log env None (Some p) s = Ok l" and tgt: "update_target env (ll_log l) s = Ok (t, d', e, v, k)"
  shows "ll_log l = log" "ll_source_path l = Some p" "d' = d" "e = did_entry env d" "k = sk_authorized (last sts)"
proof -
  show log: "ll_log l = log" and "ll_source_path l = Some p"
    using load ok by (auto simp: load_log_ok history_ok_def read_to_string_ok)
  have "log \<noteq> []" using ok by (auto simp: history_ok_def entry_holds_def)
  then have cur: "current_did log = Some (did_to_string d)"
    using ok verified_current by (auto simp: history_ok_def)
  have "did_from_str (did_to_string d) = Ok d"
    using ok verified_did by (auto simp: history_ok_def)
  with tgt cur show d: "d' = d" by (simp add: log update_target_ok)
  show e: "e = did_entry env d"
    using tgt by (auto simp: update_target_ok d did_entry_def entry_of_def store_lookup_def Let_def ok_iff
        split: if_split_asm)
  show "k = sk_authorized (last sts)"
    using held_snapshot(1) tgt ok by (fastforce simp: update_target_ok e history_ok_def)
qed

lemma rotation_reads:
  assumes "history_ok env p s d sts log" "rotation_made env fresh clk args s = Ok m"
    "ra_did args = None" "ra_input args = Some p"
  shows "ll_log (um_loaded m) = log" "ll_source_path (um_loaded m) = Some p" "um_did m = d"
    "um_entry m = did_entry env d" "um_key m = sk_authorized (last sts)"
proof -
  obtain plan t v where "load_log env None (Some p) s = Ok (um_loaded m)"
    "update_target env (ll_log (um_loaded m)) s = Ok (t, um_did m, um_entry m, v, um_key m)"
    using rotation_made_ok [OF assms(2)] assms(3,4) by metis
  note history_target [OF assms(1) this]
  then show "ll_log (um_loaded m) = log" "ll_source_path (um_loaded m) = Some p" "um_did m = d"
    "um_entry m = did_entry env d" "um_key m = sk_authorized (last sts)" by simp_all
qed

lemma history_rotated:
  assumes ok: "history_ok env p s d sts log" "bs58_law (env_codecs env)"
    and run: "cmd_rotate env fresh clk reg args s = (Inr out, s')" "rotation_made env fresh clk args s = Ok m"
    and args: "ra_did args = None" "ra_input args = Some p" "ra_out args = None"
    and laws: "signing_laws env (sk_authorized (um_staged m))" "entry_text_law (env_codecs env) (um_new m)"
      "staged_pem_law (env_keys env) (um_staged m)" "Suc (length sts) < 10000"
    and beside: "apart (ke_dir (did_entry env d)) p" "apart (ke_dir (did_entry env d)) (tmp_path p)"
  shows "history_ok env p s' d (sts @ [um_staged m]) (log @ [um_new m])"
proof -
  let ?c = "env_codecs env" let ?ops = "env_keys env" let ?e = "did_entry env d"
  note reads = rotation_reads [OF ok(1) run(2) args(1,2)]
  obtain s1 nv where w: "write_log (build_updated_log (ll_raw_lines (um_loaded m)) (entry_line ?c (um_new m)))
       (ll_source_path (um_loaded m)) (ra_out args) (ra_force args) s = (Inr (uo_saved out), s1)"
    and add: "add_version ?ops ?e (um_staged m) s1 = (Inr nv, s')"
    by (rule cmd_rotate_ok [OF run(1)]) (use run(2) reads in auto)
  have saved: "uo_saved out = Some p" using write_log_ok(1) [OF w] args reads(2) by simp
  have key: "CHR ''#'' \<notin> set (key_multikey ?c ?ops (um_key m))" "ed_sound (env_verifiers env) (signer_of ?ops (um_key m))"
    using ok(1) by (simp_all add: history_ok_def signing_laws_def reads(5))
  have "log \<noteq> []" using ok(1) by (auto simp: history_ok_def entry_holds_def)
  then have tdw: "le_format (hd (ll_log (um_loaded m))) = TDW03"
    using ok(1) by (cases log) (simp_all add: history_ok_def reads(1))
  note ext = rotation_extends [OF run tdw ok(2) key laws(2), unfolded reads]
  have "entry_holds ?ops ?e sts s1"
  proof (rule entry_holds_cong)
    show "entry_holds ?ops ?e sts s" using ok(1) by (simp add: history_ok_def)
    show "fs_refuses s1 = fs_refuses s" using write_log_ok(3) [OF w] .
    fix q assume "prefix (ke_dir ?e) q"
    then have "q \<noteq> p \<and> q \<noteq> tmp_path p" using beside by (auto simp: apart_def)
    then show "same_at s s1 q"
      using write_log_ok(2,5) [OF w] saved by (simp add: same_at_def)
  qed
  then have "entry_holds ?ops ?e (sts @ [um_staged m]) s'"
    using add_version_holds(2) [OF _ add laws(3,4)] by blast
  moreover have "\<exists>mode t. fmlookup (fs_files s') p = Some (mode, t) \<and> log_from_jsonl ?c t = Ok (log @ [um_new m])"
    using ext(3) [OF saved beside(1)] .
  moreover have "verify_log ?c (env_verifiers env) (log @ [um_new m]) d = Ok ()"
    using ext(1) ok(1) by (simp add: history_ok_def)
  ultimately show ?thesis
    using ok(1) ext(2,5,6) laws(1) by (simp add: history_ok_def key_multikey_def authorized_key_bytes_def)
qed

lemma history_invariant:
  assumes "did_history env p s d sts" "bs58_law (env_codecs env)"
  shows "\<exists>log. history_ok env p s d sts log"
  using assms(1)
proof (induction rule: did_history.induct)
  case (created fresh clk reg args s out s' m)
  have "\<exists>mode t. fmlookup (fs_files s') p = Some (mode, t) \<and> log_from_jsonl (env_codecs env) t = Ok [cm_new m]"
    "entry_holds (env_keys env) (did_entry env (cm_did m)) [cm_staged m] s'" "le_format (cm_new m) = TDW03"
    "lp_deactivated (le_parameters (cm_new m)) = None"
    using created_log [OF created(1,3,2,5) assms(2)] created(4,6-) by (auto simp: signing_laws_def did_entry_def)
  then have "history_ok env p s' (cm_did m) [cm_staged m] [cm_new m]"
    using created_entry_verifies [OF created(2,5) assms(2)] created(6,9)
    by (simp add: history_ok_def signing_laws_def)
  then show ?case by blast
next
  case (rotated s d sts fresh clk reg args out s' m)
  then show ?case using history_rotated [OF _ assms(2)] by blast
next
  case (elsewhere s d sts s')
  then obtain log where ok: "history_ok env p s d sts log" by blast
  then have "entry_holds (env_keys env) (did_entry env d) sts s'"
    using elsewhere(2,4) by (auto simp: history_ok_def intro: entry_holds_cong)
  with ok have "history_ok env p s' d sts log" by (simp add: history_ok_def elsewhere(3))
  then show ?case by blast
qed

section \<open>Properties\<close>

text \<open>C5: the life of a DID. For a DID that was created in the format did:tdw 0.3 (\<open>--format tdw\<close>, the
  one the verifier supports; a did:webvh log does not verify) and rotated any number of times with
  the tool, its log kept in one file, whatever happened beside that file and its key store entry: the
  file holds one entry for each set of keys that was ever staged, the log verifies for the DID,
  the only key in force is the authorized key of the last set, and the store still has every set,
  under its version, with the last set as its latest.\<close>

theorem did_history_verifies:
  assumes "did_history env p s d sts" "bs58_law (env_codecs env)"
  shows "\<exists>mode t log. fmlookup (fs_files s) p = Some (mode, t) \<and> log_from_jsonl (env_codecs env) t = Ok log
    \<and> length log = length sts \<and> verify_log (env_codecs env) (env_verifiers env) log d = Ok ()
    \<and> announced [] log = [key_multikey (env_codecs env) (env_keys env) (sk_authorized (last sts))]
    \<and> latest_version (did_entry env d) s = Ok (of_nat (length sts))
    \<and> (\<forall>i < length sts. snapshot_at (env_keys env) (did_entry env d) (of_nat (Suc i)) s = Ok (sts ! i))"
proof -
  obtain log where ok: "history_ok env p s d sts log" using history_invariant [OF assms] by blast
  then have "entry_holds (env_keys env) (did_entry env d) sts s" by (simp add: history_ok_def)
  then show ?thesis
    using ok keys.latest_is keys.at_is by (fastforce simp: history_ok_def simp del: of_nat_Suc)
qed

text \<open>The sample DID, just created.\<close>

lemma birth_history:
  assumes "cmd_create birth_env birth_fresh sample_clock sample_registry sample_create
     (plain_files {|[], [''r'']|} []) = (Inr out, s')"
  shows "did_history birth_env [''out''] s' sample_did [cm_staged birth]"
proof -
  have fields: "cm_did birth = sample_did" "cm_new birth = birth_entry" "ca_out sample_create = [''out'']"
    "ca_format sample_create = TDW03"
    by (simp_all add: birth_def sample_create_def)
  have "apart [''r''] [''out'']" by (simp add: apart_def)
  moreover have "wf_did sample_did"
    using did_from_str_sound [OF sample_resolved(1)] by simp
  ultimately show ?thesis
    using did_history.created [OF assms birth_made fields(4,3) birth_laws(1)] birth_laws birth_key fields
    by (simp add: signing_laws_def)
qed

theorem did_history_verifies_witness:
  "\<exists>(s :: files) mode t log. fmlookup (fs_files s) [''out''] = Some (mode, t) \<and> log_from_jsonl birth_codecs t = Ok log
     \<and> length log = 1 \<and> verify_log birth_codecs plain_verifiers log sample_did = Ok ()
     \<and> announced [] log = [sample_multikey]"
proof -
  obtain out s' where run: "cmd_create birth_env birth_fresh sample_clock sample_registry sample_create
     (plain_files {|[], [''r'']|} []) = (Inr out, s')"
    by (rule birth_runs)
  from did_history_verifies [OF birth_history [OF run]] obtain mode t log where
    "fmlookup (fs_files s') [''out''] = Some (mode, t)" "log_from_jsonl birth_codecs t = Ok log"
    "length log = 1" "verify_log birth_codecs plain_verifiers log sample_did = Ok ()"
    "announced [] log = [sample_multikey]"
    using birth_same(3) birth_keys(2) by auto
  then show ?thesis by blast
qed

end
