(* ===== verification/DidUpdates.thy ===== *)
theory DidUpdates
  imports DidHistory
begin

text \<open>
  More properties of rotations. They change the keys they are asked to change and keep the others.
  Their times go up: the new entry is later than the last one, also if the clock stands or runs back.
  And a rotation can fail after it has advanced the key store: \<open>cmd_rotate\<close> asks for the registry credentials only when it is about to publish, after the new
  keys were committed; when the log was fetched and no output file was named, the signed entry is
  then lost.
\<close>

section \<open>Times\<close>

text \<open>
  RFC 3339 to the second: the text of a time from 1970 to the end of the year 9999 is read back as
  the second of that time. Later years have more than four digits and are not read back.
\<close>

definition year_10000 :: int where "year_10000 = nanos 253402300800"

definition clock_law :: "clock \<Rightarrow> bool" where
  "clock_law clk \<longleftrightarrow>
     (\<forall>n. 0 \<le> n \<and> n < year_10000 \<longrightarrow> clk_parse clk (clk_show clk n) = Some (n - n mod nanos 1))"

lemma compute_version_time_parses:
  assumes "clock_law clk" "clk_parse clk t = Some p" "0 \<le> p" "p + nanos 1 < year_10000" "clk_now clk < year_10000"
  shows "\<exists>q. clk_parse clk (compute_version_time clk t) = Some q \<and> p < q
    \<and> q \<le> max (clk_now clk - nanos 5) (p + nanos 1)"
proof -
  let ?m = "max (clk_now clk - nanos 5) (p + nanos 1)"
  have show_m: "compute_version_time clk t = clk_show clk ?m"
    by (simp add: compute_version_time_def assms(2) Let_def max_def)
  have m: "p + 1000000000 \<le> ?m" "?m < year_10000" using assms(4,5) by (simp_all add: nanos_def)
  have r: "0 \<le> ?m mod 1000000000" "?m mod 1000000000 < 1000000000" by simp_all
  have "clk_parse clk (clk_show clk ?m) = Some (?m - ?m mod nanos 1)"
    using assms(1,3) m unfolding clock_law_def by simp
  moreover have "p < ?m - ?m mod nanos 1" "?m - ?m mod nanos 1 \<le> ?m" using m r by (simp_all add: nanos_def)
  ultimately show ?thesis unfolding show_m by blast
qed

text \<open>C21: times go up. Let the version time of the last entry be an RFC 3339 time of 1970 or later, and
  it and the clock before the end of the year 9999. Then the version time a rotation writes, read
  back, is later than that of the last entry, also if the clock stands or runs back, and it is at
  most five seconds before the present or one second after the last entry, whichever is later.\<close>

theorem version_time_advances:
  assumes "clock_law clk" "rotation_made env fresh clk args s = Ok m"
    "clk_parse clk (le_version_time (last (ll_log (um_loaded m)))) = Some p"
    "0 \<le> p" "p + nanos 1 < year_10000" "clk_now clk < year_10000"
  shows "\<exists>q. clk_parse clk (le_version_time (um_new m)) = Some q \<and> p < q
    \<and> q \<le> max (clk_now clk - nanos 5) (p + nanos 1)"
proof -
  have "le_version_time (um_new m) = compute_version_time clk (le_version_time (last (ll_log (um_loaded m))))"
    by (rule rotation_made_ok [OF assms(2)]) simp
  with compute_version_time_parses [OF assms(1,3-6)] show ?thesis by simp
qed

section \<open>Rotations without credentials\<close>

lemma rotate_without_credentials:
  assumes made: "rotation_made env fresh clk args s = Ok m" and log: "ll_log (um_loaded m) \<noteq> []"
    "le_format (last (ll_log (um_loaded m))) = TDW03"
    and args: "ra_did args \<noteq> None" "ra_out args = None" "\<not> ra_no_publish args" "ra_partner_id args = None"
    and add: "add_version (env_keys env) (um_entry m) (um_staged m) s = (Inr nv, s')"
  shows "cmd_rotate env fresh clk reg args s
    = (Inl (UPRegistryArgs (PartnerIdMissing '' (or use --no-publish)'')), s')"
proof -
  obtain plan t v where p: "plan_rotation args = Ok plan"
    "load_log env (ra_did args) (ra_input args) s = Ok (um_loaded m)"
    "update_target env (ll_log (um_loaded m)) s = Ok (t, um_did m, um_entry m, v, um_key m)"
    "stage_keys (env_keys env) fresh (um_entry m) v plan s = Ok (um_staged m)"
    using rotation_made_ok [OF made] by metis
  have source: "ll_source_path (um_loaded m) = None"
    using p(2) args(1) by (auto simp: load_log_ok)
  have w: "write_log updated None None (ra_force args) s = (Inr None, s)" for updated
    by (simp add: write_log_def)
  show ?thesis
    by (simp add: cmd_rotate_def Let_def p log args source w add rotate_parameters_json signed_update_entry [OF refl]
        publish_update_def require_registry_credentials_def)
qed

text \<open>A rotation signs with the last keys the entry holds, and nobody else's.\<close>

lemma held_rotation:
  assumes made: "rotation_made env fresh clk args s = Ok m"
    and holds: "entry_holds (env_keys env) (um_entry m) sts s"
    and log: "ll_log (um_loaded m) \<noteq> []" "le_format (hd (ll_log (um_loaded m))) = TDW03"
    and laws: "bs58_law (env_codecs env)" "signing_laws env (sk_authorized (last sts))"
  shows "verify_log (env_codecs env) (env_verifiers env) (ll_log (um_loaded m) @ [um_new m]) (um_did m) = Ok ()
    \<longleftrightarrow> key_multikey (env_codecs env) (env_keys env) (sk_authorized (last sts))
         \<in> set (announced [] (ll_log (um_loaded m)))"
proof -
  obtain plan t v where p: "load_log env (ra_did args) (ra_input args) s = Ok (um_loaded m)"
    "update_target env (ll_log (um_loaded m)) s = Ok (t, um_did m, um_entry m, v, um_key m)"
    and new: "um_new m = update_entry (env_codecs env) (signer_of (env_keys env) (um_key m))
       (le_version_id (last (ll_log (um_loaded m)))) (of_nat (length (ll_log (um_loaded m))) + 1)
       (compute_version_time clk (le_version_time (last (ll_log (um_loaded m)))))
       (update_params (let mk = key_multikey (env_codecs env) (env_keys env) (um_key m);
            mk' = multikey_of (env_codecs env) (authorized_key_bytes (env_keys env) (um_staged m))
          in if mk \<noteq> mk' then Some [mk'] else None) None)
       (diddoc_to_json (env_codecs env) (diddoc_new_genesis (env_codecs env) t
          (authentication_key_coords (env_keys env) (um_staged m))
          (assertion_key_coords (env_keys env) (um_staged m))))"
    using rotation_made_ok [OF made] by metis
  note ver = target_verified [OF p(1) log p(2)]
  have key: "um_key m = sk_authorized (last sts)"
    using held_snapshot(1) [OF holds] p(2) by (fastforce simp: update_target_ok)
  show ?thesis
    unfolding new
    by (subst update_verifies_iff [OF laws(1) _ _ ver(1) log(1)])
      (use laws(2) in \<open>simp_all add: document_id ver(2) key_multikey_def signer_of_def signing_laws_def key\<close>)
qed

text \<open>Two rotations of one log are for one DID and, in one store, of one entry.\<close>

lemma same_target:
  assumes "rotation_made env fresh clk args s = Ok m" "rotation_made env' fresh' clk' args' s' = Ok m'"
    "ll_log (um_loaded m') = ll_log (um_loaded m)" "env_keys env' = env_keys env" "env_store env' = env_store env"
  shows "um_did m' = um_did m" "um_entry m' = um_entry m"
proof -
  obtain t v t' v' where p:
    "update_target env (ll_log (um_loaded m)) s = Ok (t, um_did m, um_entry m, v, um_key m)"
    "update_target env' (ll_log (um_loaded m)) s' = Ok (t', um_did m', um_entry m', v', um_key m')"
    using rotation_made_ok [OF assms(1)] rotation_made_ok [OF assms(2)] assms(3) by metis
  then show d: "um_did m' = um_did m" by (auto simp: update_target_ok)
  show "um_entry m' = um_entry m"
    using p d assms(4,5) by (auto simp: update_target_ok entry_of_def store_lookup_def Let_def ok_iff split: if_split_asm)
qed

section \<open>Property\<close>

text \<open>C18: a rotation can lock a DID. Take a rotation of a fetched log that names no output file, is
  to be published and has no partner id. The command fails with the missing partner id, but by
  then it has added the new keys to the store; outside the key store entry no file has changed, so that
  the signed entry exists nowhere. If the new authorized key was not in force, then as long as the
  entry of the DID in the key store stays as this rotation left it, whatever else changes, every
  rotation of the same log signs with that key and gives a log that does not verify. (A further
  change of the entry, such as another failing rotation that imports the old key, ends this.)\<close>

theorem rotation_without_credentials_strands:
  assumes made: "rotation_made env fresh clk args s = Ok m"
    and log: "ll_log (um_loaded m) \<noteq> []" "list_all (\<lambda>e. le_format e = TDW03) (ll_log (um_loaded m))"
    and args: "ra_did args \<noteq> None" "ra_out args = None" "\<not> ra_no_publish args" "ra_partner_id args = None"
    and store: "entry_holds (env_keys env) (um_entry m) sts s" "Suc (length sts) < 10000"
      "add_version (env_keys env) (um_entry m) (um_staged m) s = (Inr nv, s')"
    and laws: "bs58_law (env_codecs env)" "signing_laws env (sk_authorized (um_staged m))"
      "staged_pem_law (env_keys env) (um_staged m)"
    and fresh_key: "key_multikey (env_codecs env) (env_keys env) (sk_authorized (um_staged m))
      \<notin> set (announced [] (ll_log (um_loaded m)))"
  shows "cmd_rotate env fresh clk reg args s
      = (Inl (UPRegistryArgs (PartnerIdMissing '' (or use --no-publish)'')), s')
    \<and> (\<forall>q. apart (ke_dir (um_entry m)) q \<longrightarrow> fmlookup (fs_files s') q = fmlookup (fs_files s) q)
    \<and> (\<forall>http cwd s2 fresh' clk' args' m'. fs_refuses s2 = fs_refuses s'
          \<and> (\<forall>q. prefix (ke_dir (um_entry m)) q \<longrightarrow> same_at s' s2 q)
          \<and> rotation_made (env\<lparr>env_http := http, env_cwd := cwd\<rparr>) fresh' clk' args' s2 = Ok m'
          \<and> ll_log (um_loaded m') = ll_log (um_loaded m)
        \<longrightarrow> verify_log (env_codecs env) (env_verifiers env) (ll_log (um_loaded m') @ [um_new m']) (um_did m')
              \<noteq> Ok ())"
proof (intro conjI allI impI; (elim conjE)?)
  have "list_all (\<lambda>e. le_format e = TDW03) (ll_log (um_loaded m)) \<Longrightarrow> ll_log (um_loaded m) \<noteq> [] \<Longrightarrow>
      le_format (last (ll_log (um_loaded m))) = TDW03 \<and> le_format (hd (ll_log (um_loaded m))) = TDW03"
    by (simp add: list_all_iff)
  then have tdw: "le_format (last (ll_log (um_loaded m))) = TDW03" "le_format (hd (ll_log (um_loaded m))) = TDW03"
    using log by simp_all
  show "cmd_rotate env fresh clk reg args s
      = (Inl (UPRegistryArgs (PartnerIdMissing '' (or use --no-publish)'')), s')"
    by (rule rotate_without_credentials [OF made log(1) tdw(1) args store(3)])
  fix q assume "apart (ke_dir (um_entry m)) q"
  then show "fmlookup (fs_files s') q = fmlookup (fs_files s) q"
    by (rule add_version_keeps [OF store(3)])
next
  fix http cwd s2 fresh' clk' args' m'
  let ?env = "env\<lparr>env_http := http, env_cwd := cwd\<rparr>"
  assume made': "rotation_made ?env fresh' clk' args' s2 = Ok m'"
    and same: "ll_log (um_loaded m') = ll_log (um_loaded m)" and quiet: "fs_refuses s2 = fs_refuses s'"
    and entry: "\<forall>q. prefix (ke_dir (um_entry m)) q \<longrightarrow> same_at s' s2 q"
  have "entry_holds (env_keys env) (um_entry m) (sts @ [um_staged m]) s2"
    by (rule entry_holds_cong [OF _ quiet add_version_holds(2) [OF store(1,3) laws(3) store(2)]])
      (use entry in blast)
  then have "entry_holds (env_keys ?env) (um_entry m') (sts @ [um_staged m]) s2"
    using same_target [OF made made' same] by simp
  from held_rotation [OF made' this] show
    "verify_log (env_codecs env) (env_verifiers env) (ll_log (um_loaded m') @ [um_new m']) (um_did m') \<noteq> Ok ()"
    using log laws(1,2) fresh_key by (simp add: same list_all_iff signing_laws_def)
qed

section \<open>Which keys a rotation changes\<close>

definition asks :: "rotate_role \<Rightarrow> rotate_args \<Rightarrow> bool" where
  "asks role args \<longleftrightarrow> role \<in> set (ra_rotate args) \<or> RotAll \<in> set (ra_rotate args)"

text \<open>The action a role gets: its key is generated, imported from the file given for it, or kept.\<close>

definition role_action :: "bool \<Rightarrow> path option \<Rightarrow> action" where
  "role_action asked given =
     (if asked then Generate else case given of Some f \<Rightarrow> Import f | None \<Rightarrow> Keep)"

definition conflicting :: "bool \<Rightarrow> path option \<Rightarrow> bool" where
  "conflicting asked given \<longleftrightarrow> asked \<and> given \<noteq> None"

lemma fold_plan_role:
  "fold plan_role rs p =
     \<lparr>pl_authorized = (if RotAuthorized \<in> set rs \<or> RotAll \<in> set rs then Generate else pl_authorized p),
      pl_authentication = (if RotAuthentication \<in> set rs \<or> RotAll \<in> set rs then Generate else pl_authentication p),
      pl_assertion = (if RotAssertion \<in> set rs \<or> RotAll \<in> set rs then Generate else pl_assertion p)\<rparr>"
proof (induction rs arbitrary: p)
  case (Cons r rs)
  show ?case unfolding fold_Cons o_apply Cons.IH by (cases r) auto
qed simp

lemma plan_rotation_spec:
  fixes args
  defines "a \<equiv> asks RotAuthorized args" and "n \<equiv> asks RotAuthentication args" and "x \<equiv> asks RotAssertion args"
    and "fa \<equiv> ra_authorized_key args" and "fn \<equiv> ra_authentication_key args" and "fx \<equiv> ra_assertion_key args"
  shows "plan_rotation args =
    (if conflicting a fa then Err (UPConflictingRotation ''authorized'')
     else if conflicting n fn then Err (UPConflictingRotation ''authentication'')
     else if conflicting x fx then Err (UPConflictingRotation ''assertion'')
     else if \<not> (a \<or> n \<or> x) \<and> fa = None \<and> fn = None \<and> fx = None then Err UPNoChange
     else Ok \<lparr>pl_authorized = role_action a fa, pl_authentication = role_action n fn,
       pl_assertion = role_action x fx\<rparr>)"
  unfolding plan_rotation_def Let_def fold_plan_role assms asks_def conflicting_def role_action_def
  by (cases "ra_authorized_key args"; cases "ra_authentication_key args"; cases "ra_assertion_key args") simp_all

lemma asks_any: "asks RotAuthorized args \<or> asks RotAuthentication args \<or> asks RotAssertion args \<longleftrightarrow> ra_rotate args \<noteq> []"
proof (cases "ra_rotate args")
  case (Cons r rs)
  then show ?thesis by (cases r) (auto simp: asks_def)
qed (simp add: asks_def)

text \<open>The new key of a role: generated, read from its file, or the one it had.\<close>

definition new_key ::
  "bool \<Rightarrow> path option \<Rightarrow> 'k \<Rightarrow> (path \<Rightarrow> ('k, crypto_error) result) \<Rightarrow> 'k \<Rightarrow> 'k \<Rightarrow> bool" where
  "new_key asked given fresh read old k \<longleftrightarrow>
     (case role_action asked given of Keep \<Rightarrow> k = old | Generate \<Rightarrow> k = fresh | Import f \<Rightarrow> read f = Ok k)"

lemma staged_keys_ok:
  assumes "stage_keys ops fresh e v \<lparr>pl_authorized = role_action a fa, pl_authentication = role_action n fn,
      pl_assertion = role_action x fx\<rparr> s = Ok st"
    and "entry_holds ops e sts s" "latest_version e s = Ok v"
  shows "new_key a fa (fk_authorized fresh) (\<lambda>f. read_private_key_eddsa ops f s) (sk_authorized (last sts)) (sk_authorized st)"
    "new_key n fn (fk_authentication fresh) (\<lambda>f. read_private_key_ecdsa ops f s) (sk_authentication (last sts)) (sk_authentication st)"
    "new_key x fx (fk_assertion fresh) (\<lambda>f. read_private_key_ecdsa ops f s) (sk_assertion (last sts)) (sk_assertion st)"
  using assms(1) held_snapshot [OF assms(2,3)]
  by (auto simp: stage_keys_def new_key_def ok_iff staged_from_parts_def split: action.splits)

text \<open>C22: a rotation changes the keys it is asked to change. It puts a generated key into every role that
  is named, the key of the file into a role for which a file is given, and into every other role the
  very key of the latest version; it refuses a role that is both named and given a file, and a
  rotation of nothing.\<close>

theorem rotation_changes_roles:
  assumes plan: "plan_rotation args = Ok plan" and staged: "stage_keys ops fresh e v plan s = Ok st"
    and holds: "entry_holds ops e sts s" "latest_version e s = Ok v"
  shows "new_key (asks RotAuthorized args) (ra_authorized_key args) (fk_authorized fresh)
      (\<lambda>f. read_private_key_eddsa ops f s) (sk_authorized (last sts)) (sk_authorized st)
    \<and> new_key (asks RotAuthentication args) (ra_authentication_key args) (fk_authentication fresh)
      (\<lambda>f. read_private_key_ecdsa ops f s) (sk_authentication (last sts)) (sk_authentication st)
    \<and> new_key (asks RotAssertion args) (ra_assertion_key args) (fk_assertion fresh)
      (\<lambda>f. read_private_key_ecdsa ops f s) (sk_assertion (last sts)) (sk_assertion st)
    \<and> \<not> conflicting (asks RotAuthorized args) (ra_authorized_key args)
    \<and> \<not> conflicting (asks RotAuthentication args) (ra_authentication_key args)
    \<and> \<not> conflicting (asks RotAssertion args) (ra_assertion_key args)
    \<and> (ra_rotate args \<noteq> [] \<or> ra_authorized_key args \<noteq> None \<or> ra_authentication_key args \<noteq> None
        \<or> ra_assertion_key args \<noteq> None)"
proof -
  have p: "plan = \<lparr>pl_authorized = role_action (asks RotAuthorized args) (ra_authorized_key args),
      pl_authentication = role_action (asks RotAuthentication args) (ra_authentication_key args),
      pl_assertion = role_action (asks RotAssertion args) (ra_assertion_key args)\<rparr>"
    using plan by (auto simp: plan_rotation_spec split: if_split_asm)
  have "\<not> conflicting (asks RotAuthorized args) (ra_authorized_key args)"
    "\<not> conflicting (asks RotAuthentication args) (ra_authentication_key args)"
    "\<not> conflicting (asks RotAssertion args) (ra_assertion_key args)"
    "ra_rotate args \<noteq> [] \<or> ra_authorized_key args \<noteq> None \<or> ra_authentication_key args \<noteq> None
      \<or> ra_assertion_key args \<noteq> None"
    using plan asks_any [of args] by (auto simp: plan_rotation_spec split: if_split_asm)
  with staged_keys_ok [OF staged [unfolded p] holds] show ?thesis by simp
qed

section \<open>Instance\<close>

definition lost_key :: string where "lost_key = bytes_text (replicate 32 2)"

definition lost_fresh :: "(string, string) fresh_keys" where
  "lost_fresh = sample_fresh\<lparr>fk_authorized := lost_key\<rparr>"

definition lost_rotate :: rotate_args where
  "lost_rotate = sample_rotate\<lparr>ra_rotate := [RotAuthorized], ra_out := None, ra_no_publish := False\<rparr>"

abbreviation lost_env :: "(u8 list, u8 list, string, string) env" where
  "lost_env \<equiv> text_env (life_codecs sample_first) sample_keys ''x''"

abbreviation lost_staged :: "(string, string) staged_keys" where
  "lost_staged \<equiv> staged_from_parts lost_key ''b'' ''c''"

lemma lost_key_facts:
  "key_multikey (life_codecs e) sample_keys lost_key \<noteq> sample_multikey"
  "CHR ''#'' \<notin> set (key_multikey (life_codecs e) sample_keys lost_key)"
  "ed_sound plain_verifiers (signer_of sample_keys lost_key)"
proof -
  have k: "es_public sample_keys lost_key = replicate 32 2"
    by (simp add: sample_keys_def lost_key_def plain_keys_def)
  show "ed_sound plain_verifiers (signer_of sample_keys lost_key)"
    by (auto simp: ed_sound_def plain_verifiers_def signer_of_def k)
      (simp_all add: sample_keys_def lost_key_def min_def)
  have "multicodec_ed25519 @ replicate 32 (2 :: u8) \<noteq> multicodec_ed25519 @ replicate 32 1"
    by (simp only: same_append_eq replicate_eq_replicate) simp
  then have "bytes_text (multicodec_ed25519 @ replicate 32 2) \<noteq> bytes_text (multicodec_ed25519 @ replicate 32 1)"
    by (metis as_bytes_text)
  then show "key_multikey (life_codecs e) sample_keys lost_key \<noteq> sample_multikey"
    by (simp add: key_multikey_def k life_same sample_multikey_def plain_signer_def multikey_of_def plain_codecs_def)
  show "CHR ''#'' \<notin> set (key_multikey (life_codecs e) sample_keys lost_key)"
    by (simp add: key_multikey_def k life_same multikey_of_def plain_codecs_def in_bytes_text multicodec_ed25519_def)
qed

lemma lost_made:
  obtains m where "rotation_made lost_env lost_fresh clk lost_rotate sample_files = Ok m"
    "ll_log (um_loaded m) = [sample_first]" "um_entry m = sample_vault_entry" "um_staged m = lost_staged"
proof -
  have plan: "plan_rotation lost_rotate = Ok \<lparr>pl_authorized = Generate, pl_authentication = Keep, pl_assertion = Keep\<rparr>"
    by (simp add: plan_rotation_def lost_rotate_def sample_rotate_def)
  have "snapshot_at sample_keys sample_vault_entry 1 sample_files = Ok sample_stored"
    using keys.at_is [OF sample_holds, of 0] by simp
  then have stage: "stage_keys sample_keys lost_fresh sample_vault_entry 1
      \<lparr>pl_authorized = Generate, pl_authentication = Keep, pl_assertion = Keep\<rparr> sample_files = Ok lost_staged"
    by (auto simp: stage_keys_def snapshot_at_def ok_iff staged_from_parts_def lost_fresh_def)
  have load: "load_log lost_env (Some (did_to_string sample_did)) None sample_files
      = Ok \<lparr>ll_raw_lines = [''x''], ll_log = [sample_first], ll_source_path = None\<rparr>"
    unfolding life_codecs_def
    by (rule sample_loaded [OF life_arrays]) (simp_all add: life_syntax_def sample_first_def sample_entry_def entry_new_tdw_def)
  have "current_did [sample_first] = Some (did_to_string sample_did)"
    by (simp add: sample_first_def sample_entry_def entry_new_tdw_def current_did_def json_obj_def)
  then have target: "update_target lost_env [sample_first] sample_files
    = Ok (did_to_string sample_did, sample_did, sample_vault_entry, 1, sample_key)"
    by (rule sample_target) simp_all
  have args: "ra_did lost_rotate = Some (did_to_string sample_did)" "ra_input lost_rotate = None"
    by (simp_all add: lost_rotate_def sample_rotate_def)
  show ?thesis
    using that by (simp add: rotation_made_def args plan load target stage Let_def)
qed

lemma lost_added:
  obtains s' where "add_version sample_keys sample_vault_entry lost_staged sample_files = (Inr 2, s')"
    "latest_version sample_vault_entry s' = Ok 2"
proof -
  obtain s' where a: "add_version sample_keys sample_vault_entry lost_staged sample_files = (Inr 2, s')"
    using can_add_runs [OF sample_can_add] by (auto simp: numeral_2_eq_2)
  have "staged_pem_law sample_keys lost_staged"
    by (simp add: sample_keys_def plain_keys_def staged_pem_law_def es_pem_law_def ps_pem_law_def)
  then have "latest_version sample_vault_entry s' = Ok 2"
    using keys.latest_is [OF add_version_holds(2) [OF sample_holds a]] by simp
  with a show ?thesis by (rule that)
qed

theorem rotation_without_credentials_strands_witness:
  "\<exists>s'. cmd_rotate lost_env lost_fresh sample_clock sample_registry lost_rotate sample_files
       = (Inl (UPRegistryArgs (PartnerIdMissing '' (or use --no-publish)'')), s')
     \<and> latest_version sample_vault_entry s' = Ok 2"
proof -
  obtain m where m: "rotation_made lost_env lost_fresh sample_clock lost_rotate sample_files = Ok m"
    "ll_log (um_loaded m) = [sample_first]" "um_entry m = sample_vault_entry" "um_staged m = lost_staged"
    by (rule lost_made)
  obtain s' where a: "add_version sample_keys sample_vault_entry lost_staged sample_files = (Inr 2, s')"
    "latest_version sample_vault_entry s' = Ok 2"
    by (rule lost_added)
  have first: "le_format sample_first = TDW03" "announced [] [sample_first] = [sample_multikey]"
    by (simp_all add: sample_first_def sample_entry_def entry_new_tdw_def params_new_tdw_def )
  have st: "sk_authorized lost_staged = lost_key" "staged_pem_law sample_keys lost_staged"
    by (simp_all add: staged_from_parts_def sample_keys_def plain_keys_def staged_pem_law_def es_pem_law_def ps_pem_law_def)
  have args: "ra_did lost_rotate \<noteq> None" "ra_out lost_rotate = None" "\<not> ra_no_publish lost_rotate"
    "ra_partner_id lost_rotate = None"
    by (simp_all add: lost_rotate_def sample_rotate_def)
  have "cmd_rotate lost_env lost_fresh sample_clock sample_registry lost_rotate sample_files
       = (Inl (UPRegistryArgs (PartnerIdMissing '' (or use --no-publish)'')), s')"
    by (rule rotation_without_credentials_strands
        [OF m(1) _ _ args, of "[sample_stored]" 2, THEN conjunct1])
      (use a(1) sample_holds sample_key_facts(4) lost_key_facts st first in
        \<open>simp_all add: m(2-4) signing_laws_def del: announced.simps\<close>)
  with a(2) show ?thesis by blast
qed

definition second_clock :: clock where
  "second_clock = \<lparr>clk_now = 0,
     clk_parse = (\<lambda>t. if t = ''t'' then Some 7 else map_option (\<lambda>k. nanos (int k)) (read_nat t)),
     clk_show = (\<lambda>n. show_nat (nat (n div nanos 1)))\<rparr>"

theorem version_time_advances_witness:
  "\<exists>m. rotation_made lost_env lost_fresh second_clock lost_rotate sample_files = Ok m
     \<and> (\<exists>q. clk_parse second_clock (le_version_time (um_new m)) = Some q \<and> 7 < q)"
proof -
  obtain m where m: "rotation_made lost_env lost_fresh second_clock lost_rotate sample_files = Ok m"
    "ll_log (um_loaded m) = [sample_first]"
    by (rule lost_made)
  have "show_nat k \<noteq> ''t''" for k
    using show_nat_digits [of "CHR ''t''" k] by (auto simp: digit_value_def)
  then have "clock_law second_clock"
    by (auto simp: clock_law_def second_clock_def nanos_def minus_mod_eq_mult_div)
  moreover have "clk_parse second_clock (le_version_time (last [sample_first])) = Some 7"
    by (simp add: second_clock_def sample_first_def sample_entry_def entry_new_tdw_def)
  moreover have "(7 :: int) + nanos 1 < year_10000" "clk_now second_clock < year_10000"
    by (simp_all add: second_clock_def year_10000_def nanos_def)
  ultimately show ?thesis
    using version_time_advances [OF _ m(1), of 7] m by auto
qed

theorem rotation_changes_roles_witness:
  "\<exists>plan st. plan_rotation lost_rotate = Ok plan
     \<and> stage_keys sample_keys lost_fresh sample_vault_entry 1 plan sample_files = Ok st
     \<and> sk_authorized st = lost_key \<and> sk_authentication st = ''b'' \<and> sk_assertion st = ''c''"
proof -
  have latest: "latest_version sample_vault_entry sample_files = Ok 1"
    using keys.latest_is [OF sample_holds] by simp
  obtain m where m: "rotation_made lost_env lost_fresh sample_clock lost_rotate sample_files = Ok m"
    "um_entry m = sample_vault_entry"
    by (rule lost_made)
  obtain plan t v where plan: "plan_rotation lost_rotate = Ok plan"
    and "update_target lost_env (ll_log (um_loaded m)) sample_files = Ok (t, um_did m, um_entry m, v, um_key m)"
    and stage: "stage_keys (env_keys lost_env) lost_fresh (um_entry m) v plan sample_files = Ok (um_staged m)"
    by (rule rotation_made_ok [OF m(1)])
  then have "v = 1" using latest by (simp add: update_target_ok m(2))
  with stage have staged: "stage_keys sample_keys lost_fresh sample_vault_entry 1 plan sample_files = Ok (um_staged m)"
    by (simp add: m(2))
  from rotation_changes_roles [OF plan staged sample_holds latest] plan staged show ?thesis
    by (auto simp: new_key_def role_action_def asks_def lost_rotate_def sample_rotate_def lost_fresh_def
        staged_from_parts_def)
qed

end
