(* ===== verification/PopCmds.thy ===== *)
theory PopCmds
  imports LogCmds Jws
begin

text \<open>
  Proofs of possession, \<open>swiyu-didtool/src/cmd/pop/create.rs\<close> and \<open>verify.rs\<close>: a signed text
  with a key id, an issuer, two times and a nonce, made with a key of the store, and its check
  against the store, a log, or the key id alone. The clock and the random bytes are arguments.
\<close>

section \<open>Creating\<close>

record create_pop_args =
  cp_did :: string
  cp_role :: key_role
  cp_nonce :: "string option"
  cp_ttl :: u64
  cp_version :: "u32 option"
  cp_out :: "path option"
  cp_force :: bool

datatype create_pop_error =
    CPInvalidTtl
  | CPForceWithoutOut
  | CPFileExists path
  | CPWriteOutput path io_error
  | CPWriteStdout string
  | CPResolve resolve_error
  | CPKeyStore keystore_error

datatype ('es, 'ps) pop_signer = Eddsa 'es | Ecdsa 'ps

fun pop_signer_alg :: "('es, 'ps) pop_signer \<Rightarrow> string" where
  "pop_signer_alg (Eddsa _) = ''EdDSA''"
| "pop_signer_alg (Ecdsa _) = ''ES256''"

fun pop_signer_sign :: "('es, 'ps) key_ops \<Rightarrow> ('es, 'ps) pop_signer \<Rightarrow> u8 list \<Rightarrow> u8 list" where
  "pop_signer_sign ops (Eddsa k) msg = es_sign ops k msg"
| "pop_signer_sign ops (Ecdsa k) msg = ps_sign ops k msg"

fun resolve_role ::
  "codecs \<Rightarrow> ('es, 'ps) key_ops \<Rightarrow> keystore_entry \<Rightarrow> key_role \<Rightarrow> u32 option \<Rightarrow> files \<Rightarrow>
   (string \<times> ('es, 'ps) pop_signer, keystore_error) result" where
  "resolve_role c ops e Authorized version s =
     and_then (load_eddsa ops e Authorized version s) (\<lambda>k.
       let multikey = multikey_of c (es_public ops k)
       in Ok (''did:key:'' @ multikey @ ''#'' @ multikey, Eddsa k))"
| "resolve_role c ops e Authentication version s =
     and_then (load_ecdsa ops e Authentication version s) (\<lambda>k.
       Ok (ke_did e @ ''#authentication-key-01'', Ecdsa k))"
| "resolve_role c ops e Assertion version s =
     and_then (load_ecdsa ops e Assertion version s) (\<lambda>k.
       Ok (ke_did e @ ''#assertion-key-01'', Ecdsa k))"

definition generate_nonce :: "codecs \<Rightarrow> u8 list \<Rightarrow> string" where
  "generate_nonce c random = b64_encode c random"

text \<open>Seconds since 1970, zero before.\<close>

definition current_unix_seconds :: "int \<Rightarrow> u64" where
  "current_unix_seconds t = word_of_int (max 0 t)"

definition pop_header :: "string \<Rightarrow> string \<Rightarrow> json" where
  "pop_header alg kid = json_obj [(''alg'', JString alg), (''kid'', JString kid)]"

definition pop_payload :: "string \<Rightarrow> u64 \<Rightarrow> u64 \<Rightarrow> string \<Rightarrow> json" where
  "pop_payload did now exp nonce =
     json_obj [(''iss'', JString did), (''iat'', json_u64 now), (''exp'', json_u64 exp), (''nonce'', JString nonce)]"

definition pop_jwt ::
  "codecs \<Rightarrow> ('es, 'ps) key_ops \<Rightarrow> ('es, 'ps) pop_signer \<Rightarrow> json \<Rightarrow> json \<Rightarrow> string" where
  "pop_jwt c ops signer header payload =
     (let header_b64 = b64_encode c (as_bytes (json_to_string c header));
          payload_b64 = b64_encode c (as_bytes (json_to_string c payload));
          signing_input = header_b64 @ ''.'' @ payload_b64;
          signature = pop_signer_sign ops signer (as_bytes signing_input)
      in signing_input @ ''.'' @ b64_encode c signature)"

definition write_output ::
  "('ed, 'ec, 'es, 'ps) env \<Rightarrow> string \<Rightarrow> path option \<Rightarrow> bool \<Rightarrow> (string, create_pop_error) io" where
  "write_output env jwt out force =
     (case out of
        Some p \<Rightarrow>
          io_then (io_look (\<lambda>s. if path_exists s p \<and> \<not> force then Err (CPFileExists p) else Ok ())) (\<lambda>_.
          io_then (io_map_err (CPWriteOutput p) (fs_write p jwt)) (\<lambda>_. io_ok []))
      | None \<Rightarrow>
          (case env_stdout_error env of None \<Rightarrow> io_ok jwt | Some e \<Rightarrow> io_err (CPWriteStdout e)))"

text \<open>The command returns what it prints. Adding the time to live wraps around.\<close>

definition cmd_create_pop ::
  "('ed, 'ec, 'es, 'ps) env \<Rightarrow> int \<Rightarrow> u8 list \<Rightarrow> create_pop_args \<Rightarrow> (string, create_pop_error) io" where
  "cmd_create_pop env t random a =
     (let c = env_codecs env; ops = env_keys env in
      if cp_ttl a = 0 then io_err CPInvalidTtl
      else if cp_force a \<and> cp_out a = None then io_err CPForceWithoutOut
      else
        io_then (io_look (\<lambda>s. map_err CPResolve (resolve_entry ops (env_store env) (cp_did a) s))) (\<lambda>entry.
        io_then (io_look (\<lambda>s. map_err CPKeyStore (resolve_role c ops entry (cp_role a) (cp_version a) s)))
          (\<lambda>(kid, signer).
        let nonce = (case cp_nonce a of Some n \<Rightarrow> n | None \<Rightarrow> generate_nonce c random);
            now = current_unix_seconds t;
            exp = now + cp_ttl a;
            jwt = pop_jwt c ops signer (pop_header (pop_signer_alg signer) kid)
                    (pop_payload (ke_did entry) now exp nonce)
        in write_output env jwt (cp_out a) (cp_force a))))"

section \<open>Verifying: data\<close>

definition IAT_SKEW_SECS :: u64 where "IAT_SKEW_SECS = 60"

record verify_pop_args =
  vp_jwt :: "string option"
  vp_jwt_file :: "path option"
  vp_did :: "string option"
  vp_input :: "path option"
  vp_nonce :: "string option"
  vp_allow_expired :: bool

datatype verify_pop_error =
    VPAmbiguousJwt
  | VPNoJwt
  | VPJwtMalformed string
  | VPKidMalformed string
  | VPMultikey string
  | VPUnsupportedAlg string
  | VPAlgKeyMismatch string string
  | VPSignatureInvalid
  | VPIssMismatch string string
  | VPMultikeyNotInUpdateKeys string
  | VPExpired string string
  | VPNotYetIssued string
  | VPNonceMismatch string string
  | VPVerificationMethodMissing string
  | VPDidMismatch string string
  | VPNotFound string
  | VPPreviousStateIsPatch
  | VPUnsupportedKeyMaterial
  | VPEmptyLog
  | VPReadJwt path io_error
  | VPDid did_error
  | VPDidDoc diddoc_error
  | VPKeyStore keystore_error
  | VPLog log_error

fun pop_error_of_jws :: "jws_error \<Rightarrow> verify_pop_error" where
  "pop_error_of_jws (JwsUnsupportedAlg alg) = VPUnsupportedAlg alg"
| "pop_error_of_jws (JwsAlgKeyMismatch alg kalg) = VPAlgKeyMismatch alg kalg"
| "pop_error_of_jws (JwsMalformedJwk msg) = VPJwtMalformed msg"
| "pop_error_of_jws (JwsInvalidSignatureLength _ _) = VPSignatureInvalid"
| "pop_error_of_jws JwsSignatureMismatch = VPSignatureInvalid"

definition decode_part_json :: "codecs \<Rightarrow> string \<Rightarrow> string \<Rightarrow> (json, verify_pop_error) result" where
  "decode_part_json c part label =
     and_then (map_err (\<lambda>e. VPJwtMalformed (label @ '' is not base64url: '' @ e)) (b64_decode c part)) (\<lambda>bytes.
     and_then (map_err (\<lambda>e. VPJwtMalformed (label @ '' is not JSON: '' @ e)) (json_from_slice c bytes)) (\<lambda>value.
       if as_object value = None then Err (VPJwtMalformed (label @ '' is not a JSON object''))
       else Ok value))"

datatype kid_shape = DidKey string | Fragment string

definition parse_kid :: "string \<Rightarrow> (kid_shape, verify_pop_error) result" where
  "parse_kid kid =
     (case strip_prefix ''did:key:'' kid of
        Some rest \<Rightarrow>
          and_then (ok_or (split_once (CHR ''#'') rest) (VPKidMalformed kid)) (\<lambda>(multikey, frag).
            if multikey \<noteq> frag then Err (VPKidMalformed kid) else Ok (DidKey multikey))
      | None \<Rightarrow>
          and_then (ok_or (split_once (CHR ''#'') kid) (VPKidMalformed kid)) (\<lambda>(kid_did, _).
            Ok (Fragment kid_did)))"

text \<open>The verifying key, and the issuer it fixes, if it does.\<close>

record ('ed, 'ec) pop_context =
  pc_key :: "('ed, 'ec) verifying_key"
  pc_iss_constraint :: "string option"

section \<open>Verifying: the key\<close>

definition decode_multikey ::
  "codecs \<Rightarrow> ('ed, 'ec) verifiers \<Rightarrow> string \<Rightarrow> (('ed, 'ec) verifying_key, verify_pop_error) result" where
  "decode_multikey c vs t =
     and_then (map_err (\<lambda>e. VPMultikey (show_diddoc_error e)) (mb_from_str c t)) (\<lambda>mb.
       let bytes = mb_key mb
       in if length bytes < 2 then Err (VPMultikey ''payload too short'')
          else if bytes ! 0 = 0xed \<and> bytes ! 1 = 0x01 then
            if length bytes \<noteq> 34
            then Err (VPMultikey (''Ed25519 multikey must be 34 bytes, got '' @ show_nat (length bytes)))
            else
              and_then (map_err (\<lambda>e. VPMultikey (''invalid Ed25519 key: '' @ e)) (ed_from_bytes vs (drop 2 bytes)))
                (\<lambda>vk. Ok (Ed25519 vk))
          else Err (VPUnsupportedAlg (''did:key multicodec 0x'' @ show_hex2 (bytes ! 0) @ show_hex2 (bytes ! 1))))"

fun first_update_keys :: "did_log_entry list \<Rightarrow> string list option" where
  "first_update_keys [] = None"
| "first_update_keys (e # es) =
     (case lp_update_keys (le_parameters e) of Some ks \<Rightarrow> Some ks | None \<Rightarrow> first_update_keys es)"

definition latest_update_keys :: "did_log_entry list \<Rightarrow> string list" where
  "latest_update_keys log = (case first_update_keys (rev log) of Some ks \<Rightarrow> ks | None \<Rightarrow> [])"

definition find_vm_key_in_log ::
  "codecs \<Rightarrow> ('ed, 'ec) verifiers \<Rightarrow> did_log_entry list \<Rightarrow> string \<Rightarrow>
   (('ed, 'ec) verifying_key, verify_pop_error) result" where
  "find_vm_key_in_log c vs log kid =
     (if log = [] then Err VPEmptyLog
      else case le_state (last log) of
        StatePatch _ \<Rightarrow> Err VPPreviousStateIsPatch
      | StateValue v \<Rightarrow>
          and_then (map_err VPDidDoc (diddoc_from_json c v)) (\<lambda>doc.
          and_then (ok_or (List.find (\<lambda>vm. vm_id vm = kid) (dd_verification_method doc))
                      (VPVerificationMethodMissing kid)) (\<lambda>vm.
          case vm_public_key vm of
            Jwk jwk \<Rightarrow> map_err pop_error_of_jws (verifying_key_from_jwk c vs jwk)
          | Multibase _ \<Rightarrow> Err VPUnsupportedKeyMaterial)))"

text \<open>\<open>verifying_key\<close> of a P-256 signing key is a parameter, as an object of the verifiers.\<close>

definition resolve_via_keystore ::
  "('ed, 'ec, 'es, 'ps) env \<Rightarrow> ('ps \<Rightarrow> 'ec) \<Rightarrow> string \<Rightarrow> string \<Rightarrow> files \<Rightarrow>
   (('ed, 'ec) verifying_key, verify_pop_error) result" where
  "resolve_via_keystore env vk_of kid_did kid s =
     and_then (map_err VPDid (did_from_str kid_did)) (\<lambda>d.
     and_then (map_err VPKeyStore (store_lookup (env_keys env) (env_store env) d s)) (\<lambda>found.
     and_then (ok_or found (VPNotFound kid_did)) (\<lambda>entry.
       let frag = (case split_once (CHR ''#'') kid of Some (_, f) \<Rightarrow> f | None \<Rightarrow> [])
       in and_then (if frag = ''authentication-key-01'' then Ok Authentication
                    else if frag = ''assertion-key-01'' then Ok Assertion
                    else Err (VPVerificationMethodMissing kid)) (\<lambda>role.
          and_then (map_err VPKeyStore (load_ecdsa (env_keys env) entry role None s)) (\<lambda>k.
            Ok (EcdsaP256 (vk_of k)))))))"

fun resolve_context ::
  "('ed, 'ec, 'es, 'ps) env \<Rightarrow> ('ps \<Rightarrow> 'ec) \<Rightarrow> string \<Rightarrow> kid_shape \<Rightarrow> verify_pop_args \<Rightarrow> files \<Rightarrow>
   (('ed, 'ec) pop_context, verify_pop_error) result" where
  "resolve_context env vk_of kid (DidKey multikey) a s =
     and_then (decode_multikey (env_codecs env) (env_verifiers env) multikey) (\<lambda>key.
       if vp_did a = None \<and> vp_input a = None
       then Ok \<lparr>pc_key = key, pc_iss_constraint = None\<rparr>
       else
         and_then (map_err VPLog (load_log env (vp_did a) (vp_input a) s)) (\<lambda>loaded.
         and_then (ok_or (current_did (ll_log loaded)) VPEmptyLog) (\<lambda>log_did.
           if multikey \<notin> set (latest_update_keys (ll_log loaded))
           then Err (VPMultikeyNotInUpdateKeys log_did)
           else Ok \<lparr>pc_key = key, pc_iss_constraint = Some log_did\<rparr>)))"
| "resolve_context env vk_of kid (Fragment kid_did) a s =
     (if vp_did a = None \<and> vp_input a = None
      then
        and_then (resolve_via_keystore env vk_of kid_did kid s) (\<lambda>key.
          Ok \<lparr>pc_key = key, pc_iss_constraint = Some kid_did\<rparr>)
      else
        and_then (map_err VPLog (load_log env (vp_did a) (vp_input a) s)) (\<lambda>loaded.
        and_then (ok_or (current_did (ll_log loaded)) VPEmptyLog) (\<lambda>log_did.
          if log_did \<noteq> kid_did then Err (VPDidMismatch kid_did log_did)
          else
            and_then (find_vm_key_in_log (env_codecs env) (env_verifiers env) (ll_log loaded) kid) (\<lambda>key.
              Ok \<lparr>pc_key = key, pc_iss_constraint = Some kid_did\<rparr>))))"

section \<open>Verifying: the command\<close>

definition human_duration :: "u64 \<Rightarrow> string" where
  "human_duration secs =
     (let h = secs div 3600; m = secs mod 3600 div 60; sec = secs mod 60
      in if h > 0 then show_nat (unat h) @ ''h '' @ show_nat (unat m) @ ''m''
         else if m > 0 then show_nat (unat m) @ ''m '' @ show_nat (unat sec) @ ''s''
         else show_nat (unat sec) @ ''s'')"

record pop_summary =
  su_alg :: string
  su_kid :: string
  su_iss :: string
  su_iat :: u64
  su_exp :: u64
  su_nonce :: string
  su_expired :: bool
  su_now :: u64

text \<open>The report; errors of standard output are ignored.\<close>

definition print_summary ::
  "('ed, 'ec, 'es, 'ps) env \<Rightarrow> (int \<Rightarrow> string option) \<Rightarrow> pop_summary \<Rightarrow> string" where
  "print_summary env chr p =
     (if env_stdout_error env \<noteq> None then []
      else
        ''PoP is valid'' @ newline
        @ ''  alg:              '' @ su_alg p @ newline
        @ ''  kid:              '' @ su_kid p @ newline
        @ ''  iss (issuer):     '' @ su_iss p @ newline
        @ ''  iat (issued at):  '' @ iso8601 chr (su_iat p) @ newline
        @ ''  exp (expires):    '' @ iso8601 chr (su_exp p)
        @ (if su_expired p
           then '' (expired '' @ human_duration (su_now p - su_exp p) @ '' ago)''
           else '' (in '' @ human_duration (su_exp p - su_now p) @ '')'') @ newline
        @ ''  nonce:            '' @ su_nonce p @ newline)"

definition string_member :: "json \<Rightarrow> string \<Rightarrow> string \<Rightarrow> (string, verify_pop_error) result" where
  "string_member v k place =
     ok_or (Option.bind (json_get v k) as_str)
       (VPJwtMalformed (''missing '' @ quoted k @ '' in '' @ place))"

definition time_member :: "json \<Rightarrow> string \<Rightarrow> (u64, verify_pop_error) result" where
  "time_member v k =
     ok_or (Option.bind (json_get v k) as_u64) (VPJwtMalformed (''missing or non-numeric '' @ quoted k))"

text \<open>The checks of the payload, after the signature.\<close>

definition check_claims ::
  "(int \<Rightarrow> string option) \<Rightarrow> u64 \<Rightarrow> verify_pop_args \<Rightarrow> string option \<Rightarrow> string \<Rightarrow> string \<Rightarrow> json \<Rightarrow>
   (pop_summary, verify_pop_error) result" where
  "check_claims chr now a iss_constraint alg kid payload =
     and_then (string_member payload ''iss'' ''payload'') (\<lambda>iss.
     and_then (case iss_constraint of
         Some expected \<Rightarrow> if iss \<noteq> expected then Err (VPIssMismatch expected iss) else Ok ()
       | None \<Rightarrow> Ok ()) (\<lambda>_.
     and_then (time_member payload ''iat'') (\<lambda>iat.
     and_then (time_member payload ''exp'') (\<lambda>exp.
     if iat > now + IAT_SKEW_SECS then Err (VPNotYetIssued (human_duration (iat - now)))
     else
       let expired = now \<ge> exp
       in if expired \<and> \<not> vp_allow_expired a
          then Err (VPExpired (iso8601 chr exp) (human_duration (now - exp)))
          else
            and_then (string_member payload ''nonce'' ''payload'') (\<lambda>nonce.
            and_then (case vp_nonce a of
                Some expected \<Rightarrow> if expected \<noteq> nonce then Err (VPNonceMismatch expected nonce) else Ok ()
              | None \<Rightarrow> Ok ()) (\<lambda>_.
              Ok \<lparr>su_alg = alg, su_kid = kid, su_iss = iss, su_iat = iat, su_exp = exp, su_nonce = nonce,
                   su_expired = expired, su_now = now\<rparr>))))))"

definition pop_text :: "verify_pop_args \<Rightarrow> files \<Rightarrow> (string, verify_pop_error) result" where
  "pop_text a s =
     (if vp_jwt a \<noteq> None \<and> vp_jwt_file a \<noteq> None then Err VPAmbiguousJwt
      else case (vp_jwt a, vp_jwt_file a) of
        (Some t, _) \<Rightarrow> Ok (trim t)
      | (None, Some p) \<Rightarrow> map_err (VPReadJwt p) (and_then (read_to_string p s) (\<lambda>t. Ok (trim t)))
      | (None, None) \<Rightarrow> Err VPNoJwt)"

definition cmd_verify_pop ::
  "('ed, 'ec, 'es, 'ps) env \<Rightarrow> ('ps \<Rightarrow> 'ec) \<Rightarrow> (int \<Rightarrow> string option) \<Rightarrow> int \<Rightarrow> verify_pop_args \<Rightarrow> files \<Rightarrow>
   (string, verify_pop_error) result" where
  "cmd_verify_pop env vk_of chr t a s =
     (let c = env_codecs env; vs = env_verifiers env in
      and_then (pop_text a s) (\<lambda>jwt_text.
      let parts = split_on (CHR ''.'') jwt_text
      in if length parts \<noteq> 3
         then Err (VPJwtMalformed (''expected 3 dot-separated parts, got '' @ show_nat (length parts)))
         else
           and_then (decode_part_json c (parts ! 0) ''header'') (\<lambda>header.
           and_then (decode_part_json c (parts ! 1) ''payload'') (\<lambda>payload.
           and_then (map_err (\<lambda>e. VPJwtMalformed (''signature is not base64url: '' @ e))
                       (b64_decode c (parts ! 2))) (\<lambda>signature_bytes.
           and_then (string_member header ''alg'' ''header'') (\<lambda>alg.
           if alg \<noteq> ''EdDSA'' \<and> alg \<noteq> ''ES256'' then Err (VPUnsupportedAlg alg)
           else
             and_then (string_member header ''kid'' ''header'') (\<lambda>kid.
             and_then (parse_kid kid) (\<lambda>shape.
             and_then (resolve_context env vk_of kid shape a s) (\<lambda>ctx.
             if alg \<noteq> key_alg (pc_key ctx) then Err (VPAlgKeyMismatch alg (key_alg (pc_key ctx)))
             else
               and_then (map_err pop_error_of_jws
                 (verify_signature vs (pc_key ctx) (as_bytes (parts ! 0 @ ''.'' @ parts ! 1)) signature_bytes)) (\<lambda>_.
               and_then (check_claims chr (current_unix_seconds t) a (pc_iss_constraint ctx) alg kid payload)
                 (\<lambda>summary. Ok (print_summary env chr summary))))))))))))"

end
