(* ===== verification/PopSound.thy ===== *)
theory PopSound
  imports PopCmds DidLife
begin

text \<open>
  What the check of a proof of possession means, and that it accepts what the tool creates:
  lemmas on the text of the token and the key it resolves to, and the two properties.
\<close>

section \<open>The text of a token\<close>

definition base64url :: string where
  "base64url = ''ABCDEFGHIJKLMNOPQRSTUVWXYZabcdefghijklmnopqrstuvwxyz0123456789-_''"

text \<open>What \<open>URL_SAFE_NO_PAD\<close> documents: its alphabet, and that decoding undoes encoding.\<close>

definition b64_text_law :: "codecs \<Rightarrow> bool" where
  "b64_text_law c \<longleftrightarrow> b64_law c \<and> (\<forall>bs. set (b64_encode c bs) \<subseteq> set base64url)"

lemma strip_one_of_none:
  "(\<And>p. p \<in> set ps \<Longrightarrow> p \<noteq> [] \<and> hd p \<notin> set s) \<Longrightarrow> strip_one_of ps s = None"
proof (induction ps)
  case (Cons p ps)
  then have "p \<noteq> [] \<and> hd p \<notin> set s" by simp
  then have "strip_prefix p s = None" by (cases p; cases s) auto
  with Cons show ?case by simp
qed simp

lemma trim_black:
  assumes "set s \<inter> set (map hd white_space @ map last white_space) = {}"
  shows "trim s = s"
proof -
  have ne: "p \<noteq> []" if "p \<in> set white_space" for p using that by (auto simp: white_space_def)
  have "strip_one_of white_space s = None"
    using assms ne by (intro strip_one_of_none) auto
  moreover have "strip_one_of (map rev white_space) (rev s) = None"
    using assms ne by (intro strip_one_of_none) (auto simp: hd_rev)
  ultimately show ?thesis
    by (simp add: trim_def trim_start_def trim_end_def trim_front.simps [of _ s] trim_front.simps [of _ "rev s"])
qed

lemma base64url_black: "set (''.'' @ base64url) \<inter> set (map hd white_space @ map last white_space) = {}"
  by (simp add: base64url_def white_space_def)

lemma token_parts:
  assumes "b64_text_law c"
  shows "trim (b64_encode c a @ ''.'' @ b64_encode c b @ ''.'' @ b64_encode c d)
      = b64_encode c a @ ''.'' @ b64_encode c b @ ''.'' @ b64_encode c d"
    "split_on (CHR ''.'') (b64_encode c a @ ''.'' @ b64_encode c b @ ''.'' @ b64_encode c d)
      = [b64_encode c a, b64_encode c b, b64_encode c d]"
proof -
  have sub: "set (b64_encode c x) \<subseteq> set base64url" for x using assms by (simp add: b64_text_law_def)
  show "trim (b64_encode c a @ ''.'' @ b64_encode c b @ ''.'' @ b64_encode c d)
      = b64_encode c a @ ''.'' @ b64_encode c b @ ''.'' @ b64_encode c d"
    by (rule trim_black) (use sub base64url_black in fastforce)
  have "CHR ''.'' \<notin> set base64url" by (simp add: base64url_def)
  then have "CHR ''.'' \<notin> set (b64_encode c x)" for x using sub by blast
  then show "split_on (CHR ''.'') (b64_encode c a @ ''.'' @ b64_encode c b @ ''.'' @ b64_encode c d)
      = [b64_encode c a, b64_encode c b, b64_encode c d]"
    by (simp add: split_on_append)
qed

section \<open>What the check accepts\<close>

text \<open>The claims that are accepted at a time.\<close>

definition claims_ok :: "u64 \<Rightarrow> verify_pop_args \<Rightarrow> string option \<Rightarrow> json \<Rightarrow> bool" where
  "claims_ok now a iss_constraint payload \<longleftrightarrow>
     (\<exists>iss iat ex nonce. json_get payload ''iss'' = Some (JString iss)
        \<and> json_get payload ''iat'' = Some (json_u64 iat) \<and> json_get payload ''exp'' = Some (json_u64 ex)
        \<and> json_get payload ''nonce'' = Some (JString nonce)
        \<and> (\<forall>d. iss_constraint = Some d \<longrightarrow> iss = d) \<and> \<not> now + IAT_SKEW_SECS < iat
        \<and> (now < ex \<or> vp_allow_expired a) \<and> (\<forall>n. vp_nonce a = Some n \<longrightarrow> nonce = n))"

lemma member_ok [ok_iff]:
  "string_member v k place = Inr t \<longleftrightarrow> json_get v k = Some (JString t)"
  "time_member v k = Inr n \<longleftrightarrow> json_get v k = Some (json_u64 n)"
  by (auto simp: string_member_def time_member_def ok_iff bind_eq_Some_conv json_u64_def)

lemma check_claims_ok: "is_ok (check_claims chr now a cns alg kid payload) \<longleftrightarrow> claims_ok now a cns payload"
proof -
  have cns: "(case cns of Some d \<Rightarrow> if iss \<noteq> d then Err (e d) else Ok () | None \<Rightarrow> Ok ()) = Inr ()
      \<longleftrightarrow> (\<forall>d. cns = Some d \<longrightarrow> iss = d)" for iss :: string and e :: "string \<Rightarrow> verify_pop_error"
    by (cases cns) auto
  have nonce: "(case vp_nonce a of Some d \<Rightarrow> if d \<noteq> n then Err (e d) else Ok () | None \<Rightarrow> Ok ()) = Inr ()
      \<longleftrightarrow> (\<forall>d. vp_nonce a = Some d \<longrightarrow> n = d)" for n :: string and e :: "string \<Rightarrow> verify_pop_error"
    by (cases "vp_nonce a") auto
  show ?thesis
    unfolding is_ok_iff check_claims_def claims_ok_def
    by (auto simp: ok_iff cns nonce Let_def not_le split: if_split_asm; fastforce)
qed

lemma check_claims_okD: "check_claims chr now a cns alg kid payload = Inr y \<Longrightarrow> claims_ok now a cns payload"
  by (simp add: check_claims_ok [symmetric, where chr = chr and alg = alg and kid = kid])

lemma decode_part_ok [ok_iff]:
  "decode_part_json c part label = Inr v \<longleftrightarrow>
     (\<exists>bytes m. b64_decode c part = Ok bytes \<and> json_from_slice c bytes = Ok v \<and> v = JObject m)"
  by (cases v) (auto simp: decode_part_json_def ok_iff)

lemma pop_checked:
  assumes "pop_text a s = Ok (h @ ''.'' @ p @ ''.'' @ sg)"
    "split_on (CHR ''.'') (h @ ''.'' @ p @ ''.'' @ sg) = [h, p, sg]"
    "decode_part_json (env_codecs env) h ''header'' = Ok header"
    "decode_part_json (env_codecs env) p ''payload'' = Ok payload" "b64_decode (env_codecs env) sg = Ok sig"
  shows "is_ok (cmd_verify_pop env vk_of chr t a s) \<longleftrightarrow>
    (\<exists>alg kid shape ctx. json_get header ''alg'' = Some (JString alg) \<and> json_get header ''kid'' = Some (JString kid)
      \<and> parse_kid kid = Ok shape \<and> resolve_context env vk_of kid shape a s = Ok ctx \<and> alg = key_alg (pc_key ctx)
      \<and> verify_signature (env_verifiers env) (pc_key ctx) (as_bytes (h @ ''.'' @ p)) sig = Ok ()
      \<and> claims_ok (current_unix_seconds t) a (pc_iss_constraint ctx) payload)"
    (is "_ \<longleftrightarrow> ?r")
proof
  assume "is_ok (cmd_verify_pop env vk_of chr t a s)"
  then show ?r
    using assms
    by (auto simp: cmd_verify_pop_def is_ok_iff ok_iff Let_def dest: check_claims_okD split: if_split_asm)
next
  assume ?r
  then obtain alg kid shape ctx where r: "json_get header ''alg'' = Some (JString alg)"
      "json_get header ''kid'' = Some (JString kid)" "parse_kid kid = Ok shape"
      "resolve_context env vk_of kid shape a s = Ok ctx" "alg = key_alg (pc_key ctx)"
      "verify_signature (env_verifiers env) (pc_key ctx) (as_bytes (h @ ''.'' @ p)) sig = Ok ()"
      "claims_ok (current_unix_seconds t) a (pc_iss_constraint ctx) payload"
    by blast
  have "alg = ''EdDSA'' \<or> alg = ''ES256''" using r(5) by (cases "pc_key ctx") simp_all
  moreover have "string_member header ''alg'' x = Inr alg" "string_member header ''kid'' x = Inr kid" for x
    using r(1,2) by (simp_all add: ok_iff)
  moreover obtain y where "check_claims chr (current_unix_seconds t) a (pc_iss_constraint ctx) alg kid payload = Inr y"
    using r(7) by (auto simp: check_claims_ok [symmetric, where chr = chr and alg = alg and kid = kid] is_ok_iff)
  ultimately show "is_ok (cmd_verify_pop env vk_of chr t a s)"
    using assms r(3-6) by (auto simp: cmd_verify_pop_def Let_def)
qed

lemma pop_parts:
  assumes "cmd_verify_pop env vk_of chr t a s = Ok out"
  obtains h p sg header payload sig where
    "pop_text a s = Ok (h @ ''.'' @ p @ ''.'' @ sg)"
    "split_on (CHR ''.'') (h @ ''.'' @ p @ ''.'' @ sg) = [h, p, sg]"
    "decode_part_json (env_codecs env) h ''header'' = Ok header"
    "decode_part_json (env_codecs env) p ''payload'' = Ok payload" "b64_decode (env_codecs env) sg = Ok sig"
proof -
  obtain x where x: "pop_text a s = Ok x" "length (split_on (CHR ''.'') x) = 3"
    using assms by (auto simp: cmd_verify_pop_def ok_iff Let_def split: if_split_asm)
  then obtain h p sg where parts: "split_on (CHR ''.'') x = [h, p, sg]"
    by (auto simp: numeral_3_eq_3 length_Suc_conv)
  then have "x = h @ ''.'' @ p @ ''.'' @ sg"
    using join_split [of "CHR ''.''" x] by simp
  moreover obtain header payload sig where "decode_part_json (env_codecs env) h ''header'' = Ok header"
    "decode_part_json (env_codecs env) p ''payload'' = Ok payload" "b64_decode (env_codecs env) sg = Ok sig"
    using assms x parts by (auto simp: cmd_verify_pop_def ok_iff Let_def split: if_split_asm)
  ultimately show ?thesis using that x parts by simp
qed

section \<open>The key it resolves to\<close>

lemma parse_kid_ok [ok_iff]:
  "parse_kid kid = Inr (DidKey mk) \<longleftrightarrow> kid = did_key_of mk \<and> CHR ''#'' \<notin> set mk"
  "parse_kid kid = Inr (Fragment d) \<longleftrightarrow>
     strip_prefix ''did:key:'' kid = None \<and> CHR ''#'' \<notin> set d \<and> (\<exists>f. kid = d @ ''#'' @ f)"
  by (auto simp: parse_kid_def did_key_of_def ok_iff strip_prefix_some split: option.split option.split_asm
      if_split_asm)

lemma latest_update_keys_announced: "latest_update_keys log = announced [] log"
proof (induction log rule: rev_induct)
  case (snoc e es)
  then show ?case
    by (auto simp: latest_update_keys_def announced_append split: option.splits)
qed (simp add: latest_update_keys_def)

text \<open>The key of an update key: the one the log announced last, in a log verified for its DID.\<close>

lemma context_did_key:
  "resolve_context env vk_of kid (DidKey mk) a s = Ok ctx \<longleftrightarrow>
     decode_multikey (env_codecs env) (env_verifiers env) mk = Ok (pc_key ctx)
   \<and> (if vp_did a = None \<and> vp_input a = None then pc_iss_constraint ctx = None
      else \<exists>l d. load_log env (vp_did a) (vp_input a) s = Ok l \<and> current_did (ll_log l) = Some d
        \<and> mk \<in> set (announced [] (ll_log l)) \<and> pc_iss_constraint ctx = Some d)"
  by (cases ctx) (auto simp: ok_iff latest_update_keys_announced)

lemma context_fragment:
  "resolve_context env vk_of kid (Fragment d) a s = Ok ctx \<longleftrightarrow>
     pc_iss_constraint ctx = Some d
   \<and> (if vp_did a = None \<and> vp_input a = None then resolve_via_keystore env vk_of d kid s = Ok (pc_key ctx)
      else \<exists>l. load_log env (vp_did a) (vp_input a) s = Ok l \<and> current_did (ll_log l) = Some d
        \<and> find_vm_key_in_log (env_codecs env) (env_verifiers env) (ll_log l) kid = Ok (pc_key ctx))"
  by (cases ctx) (auto simp: ok_iff)

lemma keystore_key_ok:
  "resolve_via_keystore env vk_of kid_did (d @ ''#'' @ f) s = Ok key \<and> CHR ''#'' \<notin> set d \<longleftrightarrow>
     CHR ''#'' \<notin> set d \<and> (\<exists>did e role k. did_from_str kid_did = Ok did
       \<and> store_lookup (env_keys env) (env_store env) did s = Ok (Some e)
       \<and> (role = KeyStore.Authentication \<and> f = ''authentication-key-01'' \<or> role = Assertion \<and> f = ''assertion-key-01'')
       \<and> load_ecdsa (env_keys env) e role None s = Ok k \<and> key = EcdsaP256 (vk_of k))"
  by (auto simp: resolve_via_keystore_def ok_iff Let_def split: if_split_asm)

section \<open>Properties\<close>

text \<open>What an accepted token is signed with: \<open>pop_key\<close> relates a key id, the arguments and the
  files to the key and to the issuer it fixes.\<close>

definition pop_key ::
  "('ed, 'ec, 'es, 'ps) env \<Rightarrow> ('ps \<Rightarrow> 'ec) \<Rightarrow> verify_pop_args \<Rightarrow> files \<Rightarrow> string \<Rightarrow>
   ('ed, 'ec) verifying_key \<Rightarrow> string option \<Rightarrow> bool" where
  "pop_key env vk_of a s kid key iss \<longleftrightarrow>
     (if vp_did a = None \<and> vp_input a = None then
        (\<exists>mk. kid = did_key_of mk \<and> iss = None
           \<and> decode_multikey (env_codecs env) (env_verifiers env) mk = Ok key)
      \<or> (\<exists>d did e role k. iss = Some d \<and> did_from_str d = Ok did
           \<and> store_lookup (env_keys env) (env_store env) did s = Ok (Some e)
           \<and> (role = KeyStore.Authentication \<and> kid = d @ ''#authentication-key-01''
              \<or> role = Assertion \<and> kid = d @ ''#assertion-key-01'')
           \<and> load_ecdsa (env_keys env) e role None s = Ok k \<and> key = EcdsaP256 (vk_of k))
      else
        (\<exists>l d. load_log env (vp_did a) (vp_input a) s = Ok l \<and> current_did (ll_log l) = Some d \<and> iss = Some d
         \<and> ((\<exists>mk. kid = did_key_of mk \<and> mk \<in> set (announced [] (ll_log l))
                \<and> decode_multikey (env_codecs env) (env_verifiers env) mk = Ok key)
           \<or> (\<exists>f. kid = d @ ''#'' @ f
                \<and> find_vm_key_in_log (env_codecs env) (env_verifiers env) (ll_log l) kid = Ok key))))"

lemma pop_key_resolved:
  assumes "parse_kid kid = Ok shape" "resolve_context env vk_of kid shape a s = Ok ctx"
  shows "pop_key env vk_of a s kid (pc_key ctx) (pc_iss_constraint ctx)"
proof (cases shape)
  case (DidKey mk)
  then have "kid = did_key_of mk" "resolve_context env vk_of kid (PopCmds.DidKey mk) a s = Ok ctx"
    using assms by (simp_all add: parse_kid_ok)
  then show ?thesis unfolding context_did_key pop_key_def
    by (cases "vp_did a = None \<and> vp_input a = None") auto
next
  case (Fragment d)
  with assms obtain f where f: "kid = d @ ''#'' @ f" "CHR ''#'' \<notin> set d" by (auto simp: parse_kid_ok)
  have ctx: "resolve_context env vk_of kid (PopCmds.Fragment d) a s = Ok ctx" using assms(2) Fragment by simp
  show ?thesis
  proof (cases "vp_did a = None \<and> vp_input a = None")
    case True
    then have "resolve_via_keystore env vk_of d (d @ ''#'' @ f) s = Ok (pc_key ctx) \<and> CHR ''#'' \<notin> set d"
      "pc_iss_constraint ctx = Some d"
      using ctx f unfolding context_fragment by simp_all
    then show ?thesis using True unfolding keystore_key_ok pop_key_def f(1) by auto
  next
    case False
    then show ?thesis using ctx f(1) unfolding context_fragment pop_key_def by auto
  qed
qed

text \<open>C14: an accepted proof of possession. The text has three segments, of which the first is a
  header that names an algorithm and a key id. The two first segments are signed by the key this key
  id names, and the algorithm is that of this key: without a log, the latest key of that role in the key store of the DID it starts with,
  or the key written in a \<open>did:key\<close>; with a log, a key in force or a verification method of its
  latest document. The issuer is the DID of that store entry or log, not in the future, not
  expired unless that was waived, with the nonce asked for. A \<open>did:tdw\<close> log has been verified for
  that issuer.\<close>

theorem verify_pop_sound:
  assumes "cmd_verify_pop env vk_of chr t a s = Ok out"
  shows "\<exists>h p sg sig header payload alg kid key iss. pop_text a s = Ok (h @ ''.'' @ p @ ''.'' @ sg)
    \<and> split_on (CHR ''.'') (h @ ''.'' @ p @ ''.'' @ sg) = [h, p, sg]
    \<and> b64_decode (env_codecs env) sg = Ok sig \<and> decode_part_json (env_codecs env) h ''header'' = Ok header
    \<and> decode_part_json (env_codecs env) p ''payload'' = Ok payload
    \<and> json_get header ''alg'' = Some (JString alg) \<and> json_get header ''kid'' = Some (JString kid)
    \<and> alg = key_alg key
    \<and> pop_key env vk_of a s kid key iss
    \<and> verify_signature (env_verifiers env) key (as_bytes (h @ ''.'' @ p)) sig = Ok ()
    \<and> claims_ok (current_unix_seconds t) a iss payload
    \<and> (\<forall>l d. load_log env (vp_did a) (vp_input a) s = Ok l \<and> iss = Some (did_to_string d) \<and> wf_did d
         \<and> did_scid d \<noteq> None \<and> ll_log l \<noteq> [] \<and> le_format (hd (ll_log l)) = TDW03
         \<and> (vp_did a \<noteq> None \<or> vp_input a \<noteq> None)
         \<longrightarrow> verify_log (env_codecs env) (env_verifiers env) (ll_log l) d = Ok ())"
proof -
  obtain h p sg header payload sig where parts: "pop_text a s = Ok (h @ ''.'' @ p @ ''.'' @ sg)"
    "split_on (CHR ''.'') (h @ ''.'' @ p @ ''.'' @ sg) = [h, p, sg]"
    "decode_part_json (env_codecs env) h ''header'' = Ok header"
    "decode_part_json (env_codecs env) p ''payload'' = Ok payload" "b64_decode (env_codecs env) sg = Ok sig"
    by (rule pop_parts [OF assms])
  obtain alg kid shape ctx where ctx: "parse_kid kid = Ok shape" "resolve_context env vk_of kid shape a s = Ok ctx"
      "verify_signature (env_verifiers env) (pc_key ctx) (as_bytes (h @ ''.'' @ p)) sig = Ok ()"
      "claims_ok (current_unix_seconds t) a (pc_iss_constraint ctx) payload"
      "json_get header ''alg'' = Some (JString alg)" "json_get header ''kid'' = Some (JString kid)"
      "alg = key_alg (pc_key ctx)"
    using assms pop_checked [OF parts, of vk_of chr t] by (auto simp: is_ok_iff)
  note key = pop_key_resolved [OF ctx(1,2)]
  have "verify_log (env_codecs env) (env_verifiers env) (ll_log l) d = Ok ()"
    if l: "load_log env (vp_did a) (vp_input a) s = Ok l" "pc_iss_constraint ctx = Some (did_to_string d)" "wf_did d"
      "did_scid d \<noteq> None" "ll_log l \<noteq> []" "le_format (hd (ll_log l)) = TDW03" "vp_did a \<noteq> None \<or> vp_input a \<noteq> None"
    for l d
  proof -
    have "current_did (ll_log l) = Some (did_to_string d)"
      using key l(1,2,7) by (auto simp: pop_key_def split: if_split_asm)
    then show ?thesis using loaded_verified(1) [OF l(1,5,6)] did_from_str_to_string [OF l(3,4)] by blast
  qed
  then show ?thesis using parts ctx(3-7) key by blast
qed

section \<open>What the tool creates\<close>

fun signer_sound :: "('ed, 'ec, 'es, 'ps) env \<Rightarrow> ('ps \<Rightarrow> 'ec) \<Rightarrow> ('es, 'ps) pop_signer \<Rightarrow> bool" where
  "signer_sound env vk_of (Eddsa k) \<longleftrightarrow> ed_sound (env_verifiers env) (signer_of (env_keys env) k)
     \<and> CHR ''#'' \<notin> set (key_multikey (env_codecs env) (env_keys env) k)"
| "signer_sound env vk_of (Ecdsa k) \<longleftrightarrow>
     (\<forall>msg. length (ps_sign (env_keys env) k msg) = 64 \<and> ec_sig_ok (env_verifiers env) (ps_sign (env_keys env) k msg)
        \<and> ec_verify (env_verifiers env) (vk_of k) msg (ps_sign (env_keys env) k msg))"

fun role_signer :: "key_role \<Rightarrow> ('es, 'ps) staged_keys \<Rightarrow> ('es, 'ps) pop_signer" where
  "role_signer Authorized st = Eddsa (sk_authorized st)"
| "role_signer KeyStore.Authentication st = Ecdsa (sk_authentication st)"
| "role_signer Assertion st = Ecdsa (sk_assertion st)"

fun role_kid :: "codecs \<Rightarrow> ('es, 'ps) key_ops \<Rightarrow> string \<Rightarrow> key_role \<Rightarrow> ('es, 'ps) staged_keys \<Rightarrow> string" where
  "role_kid c ops d Authorized st = did_key_of (key_multikey c ops (sk_authorized st))"
| "role_kid c ops d KeyStore.Authentication st = d @ ''#authentication-key-01''"
| "role_kid c ops d Assertion st = d @ ''#assertion-key-01''"

lemma held_loads:
  assumes "entry_holds ops e sts s"
  shows "load_eddsa ops e Authorized None s = Ok (sk_authorized (last sts))"
    "load_ecdsa ops e KeyStore.Authentication None s = Ok (sk_authentication (last sts))"
    "load_ecdsa ops e Assertion None s = Ok (sk_assertion (last sts))"
proof -
  obtain v where v: "latest_version e s = Ok v" "snapshot_at ops e v s = Ok (last sts)"
    using keys.current [OF assms] keys.latest_is [OF assms] by simp
  have none: "load_eddsa ops e role None s = load_eddsa ops e role (Some v) s"
    "load_ecdsa ops e role None s = load_ecdsa ops e role (Some v) s" for role
    by (simp_all add: load_eddsa_def load_ecdsa_def read_key_file_def v(1))
  obtain a n x where "load_eddsa ops e Authorized (Some v) s = Ok a"
      "load_ecdsa ops e KeyStore.Authentication (Some v) s = Ok n" "load_ecdsa ops e Assertion (Some v) s = Ok x"
      "staged_from_parts a n x = last sts"
    using v(2) by (auto simp: snapshot_at_def ok_iff)
  moreover from this(4) have "sk_authorized (last sts) = a" "sk_authentication (last sts) = n" "sk_assertion (last sts) = x"
    by (metis staged_from_parts_def staged_keys.select_convs)+
  ultimately show "load_eddsa ops e Authorized None s = Ok (sk_authorized (last sts))"
    "load_ecdsa ops e KeyStore.Authentication None s = Ok (sk_authentication (last sts))"
    "load_ecdsa ops e Assertion None s = Ok (sk_assertion (last sts))"
    by (simp_all add: none)
qed

lemma resolve_role_held:
  assumes "entry_holds ops e sts s"
  shows "resolve_role c ops e role None s = Ok (role_kid c ops (ke_did e) role (last sts), role_signer role (last sts))"
  using held_loads [OF assms] by (cases role) (simp_all add: did_key_of_def key_multikey_def Let_def)

lemma did_key_decodes:
  assumes "bs58_law (env_codecs env)" "signer_sound env vk_of (Eddsa k)"
  shows "\<exists>vk. decode_multikey (env_codecs env) (env_verifiers env)
       (key_multikey (env_codecs env) (env_keys env) k) = Ok (Ed25519 vk)
     \<and> (\<forall>msg. verify_signature (env_verifiers env) (Ed25519 vk) msg (es_sign (env_keys env) k msg) = Ok ())"
proof -
  have pub: "length (es_public (env_keys env) k) = 32" using assms(2) by (simp add: ed_sound_def signer_of_def)
  then have "decode_multikey (env_codecs env) (env_verifiers env) (key_multikey (env_codecs env) (env_keys env) k)
      = and_then (map_err (\<lambda>e. VPMultikey (''invalid Ed25519 key: '' @ e))
          (ed_from_bytes (env_verifiers env) (es_public (env_keys env) k))) (\<lambda>vk. Ok (Ed25519 vk))"
    using assms(1)
    by (simp add: decode_multikey_def key_multikey_def multikey_of_def mb_from_str_def multicodec_ed25519_def)
  then show ?thesis
    using assms(2) by (auto simp: ed_sound_def signer_of_def verify_signature_ok)
qed

text \<open>The key the check resolves for a token the tool made accepts its signature.\<close>

lemma created_context:
  assumes holds: "entry_holds (env_keys env) (entry_of (env_keys env) (env_store env) (did_to_string d)) sts s"
    and did: "trim (did_to_string d) = did_to_string d" "did_from_str (did_to_string d) = Ok d" "CHR ''#'' \<notin> set (did_to_string d)"
    and laws: "bs58_law (env_codecs env)" "signer_sound env vk_of (role_signer role (last sts))"
    and args: "vp_did a = None" "vp_input a = None"
  defines "kid \<equiv> role_kid (env_codecs env) (env_keys env) (did_to_string d) role (last sts)"
  obtains shape ctx where "parse_kid kid = Ok shape" "resolve_context env vk_of kid shape a s = Ok ctx"
    "key_alg (pc_key ctx) = pop_signer_alg (role_signer role (last sts))"
    "\<And>msg. verify_signature (env_verifiers env) (pc_key ctx) msg
       (pop_signer_sign (env_keys env) (role_signer role (last sts)) msg) = Ok ()"
    "pc_iss_constraint ctx = None \<or> pc_iss_constraint ctx = Some (did_to_string d)"
proof (cases "role = Authorized")
  case True
  then have sound: "signer_sound env vk_of (Eddsa (sk_authorized (last sts)))" using laws(2) by simp
  obtain vk where vk: "decode_multikey (env_codecs env) (env_verifiers env)
       (key_multikey (env_codecs env) (env_keys env) (sk_authorized (last sts))) = Ok (Ed25519 vk)"
    "\<And>msg. verify_signature (env_verifiers env) (Ed25519 vk) msg (es_sign (env_keys env) (sk_authorized (last sts)) msg) = Ok ()"
    using did_key_decodes [OF laws(1) sound] by blast
  show ?thesis
    by (rule that [of "DidKey (key_multikey (env_codecs env) (env_keys env) (sk_authorized (last sts)))"
          "\<lparr>pc_key = Ed25519 vk, pc_iss_constraint = None\<rparr>"])
      (use True vk sound args in \<open>simp_all add: kid_def parse_kid_ok\<close>)
next
  case False
  define f where "f = (if role = Assertion then ''assertion-key-01'' else ''authentication-key-01'')"
  define k where "k = (if role = Assertion then sk_assertion (last sts) else sk_authentication (last sts))"
  have kid: "kid = did_to_string d @ ''#'' @ f" "role_signer role (last sts) = Ecdsa k"
    using False by (cases role; simp add: kid_def f_def k_def)+
  have "strip_prefix ''did:key:'' kid = None"
    by (cases "did_method d") (simp_all add: kid(1) did_to_string_def)
  then have parse: "parse_kid kid = Ok (Fragment (did_to_string d))"
    using did(3) kid(1) by (auto simp: parse_kid_ok)
  have "resolve_via_keystore env vk_of (did_to_string d) (did_to_string d @ ''#'' @ f) s = Ok (EcdsaP256 (vk_of k))
      \<and> CHR ''#'' \<notin> set (did_to_string d)"
    unfolding keystore_key_ok
    using did held_lookup [OF holds did(1)] held_loads [OF holds] False by (cases role) (auto simp: f_def k_def)
  then have via: "resolve_via_keystore env vk_of (did_to_string d) kid s = Ok (EcdsaP256 (vk_of k))"
    by (simp add: kid(1))
  show ?thesis
    by (rule that [OF parse, of "\<lparr>pc_key = EcdsaP256 (vk_of k), pc_iss_constraint = Some (did_to_string d)\<rparr>"])
      (use via args laws(2) in \<open>simp_all add: kid(2) verify_signature_ok\<close>)
qed

text \<open>The token a creation hands out, on standard output or in a file, as an argument.\<close>

definition takes_token :: "create_pop_args \<Rightarrow> string \<Rightarrow> verify_pop_args \<Rightarrow> bool" where
  "takes_token a printed v \<longleftrightarrow>
     (case cp_out a of
        None \<Rightarrow> vp_jwt v = Some printed \<and> vp_jwt_file v = None
      | Some p \<Rightarrow> vp_jwt v = None \<and> vp_jwt_file v = Some p)"

lemma write_output_ok:
  "write_output env jwt out force s = (Inr printed, s') \<longleftrightarrow>
     (case out of
        None \<Rightarrow> env_stdout_error env = None \<and> printed = jwt \<and> s' = s
      | Some p \<Rightarrow> (path_exists s p \<longrightarrow> force) \<and> wrote default_mode p jwt s s' \<and> printed = [])"
  by (cases out) (auto simp: write_output_def ok_iff fs_write_ok split: option.splits if_split_asm)

lemma token_read:
  assumes "b64_text_law c" "jwt = pop_jwt c ops signer header payload"
    and "write_output env jwt (cp_out a) (cp_force a) s = (Inr printed, s')" "takes_token a printed v"
  defines "h \<equiv> b64_encode c (as_bytes (json_to_string c header))"
    and "p \<equiv> b64_encode c (as_bytes (json_to_string c payload))"
  shows "pop_text v s' = Ok (h @ ''.'' @ p @ ''.'' @ b64_encode c (pop_signer_sign ops signer (as_bytes (h @ ''.'' @ p))))"
    (is "_ = Ok ?jwt")
proof -
  have jwt: "jwt = ?jwt" by (simp add: assms(2) pop_jwt_def Let_def h_def p_def)
  have trim: "trim jwt = jwt" unfolding jwt h_def p_def by (rule token_parts(1) [OF assms(1)])
  show ?thesis
  proof (cases "cp_out a")
    case None
    then show ?thesis using assms(3,4) trim jwt by (simp add: takes_token_def pop_text_def write_output_ok)
  next
    case (Some q)
    then have "wrote default_mode q jwt s s'" using assms(3) by (simp add: write_output_ok)
    then have "read_to_string q s' = Ok jwt"
      using wrote_frame(7) by blast
    then show ?thesis using Some assms(4) trim jwt by (simp add: takes_token_def pop_text_def)
  qed
qed

lemma sum_wraps:
  fixes now ttl :: u64
  assumes "unat now + unat ttl \<ge> 2 ^ 64"
  shows "\<not> now < now + ttl"
proof -
  have "unat (now + ttl) = (unat now + unat ttl) mod 2 ^ 64" by (simp add: unat_word_ariths)
  also have "\<dots> = (unat now + unat ttl - 2 ^ 64) mod 2 ^ 64" using assms by (rule le_mod_geq)
  also have "\<dots> \<le> unat now + unat ttl - 2 ^ 64" by (rule mod_less_eq_dividend)
  also have "\<dots> < unat now"
  proof -
    have "unat ttl < 2 ^ 64" using unsigned_less [of ttl] by simp
    with assms show ?thesis by linarith
  qed
  finally show ?thesis by (simp add: word_less_nat_alt)
qed

text \<open>When the check accepts a token that the tool made.\<close>

text \<open>The output file lies beside the store, so that writing it leaves the entry as it was.\<close>

lemma output_keeps_entry:
  assumes out: "write_output env jwt dest force s = (Inr printed, s')"
    and entry: "entry_holds ops e sts s" "prefix root (ke_dir e)"
    and beside: "\<forall>p. dest = Some p \<longrightarrow> apart root p"
  shows "entry_holds ops e sts s'"
proof (cases dest)
  case None
  then show ?thesis using out entry(1) by (simp add: write_output_ok)
next
  case (Some q)
  then have w: "wrote default_mode q jwt s s'" using out by (simp add: write_output_ok)
  have "same_at s s' x" if "prefix (ke_dir e) x" for x
  proof -
    have "x \<noteq> q" using prefix_order.trans [OF entry(2) that] beside Some by (auto simp: apart_def)
    then show ?thesis using wrote_frame(1,3) [OF w] by (simp add: same_at_def)
  qed
  then show ?thesis using entry(1) wrote_frame(2) [OF w] by (rule_tac entry_holds_cong) auto
qed

lemma created_pop_iff:
  assumes create: "cmd_create_pop env t random a s = (Inr printed, s')" "cp_version a = None"
    and entry: "resolve_entry (env_keys env) (env_store env) (cp_did a) s
        = Ok (entry_of (env_keys env) (env_store env) (did_to_string d))"
      "entry_holds (env_keys env) (entry_of (env_keys env) (env_store env) (did_to_string d)) sts s"
      "\<forall>p. cp_out a = Some p \<longrightarrow> apart (env_store env) p"
    and did: "trim (did_to_string d) = did_to_string d" "did_from_str (did_to_string d) = Ok d"
      "CHR ''#'' \<notin> set (did_to_string d)"
    and token: "header = pop_header (pop_signer_alg (role_signer (cp_role a) (last sts)))
        (role_kid (env_codecs env) (env_keys env) (did_to_string d) (cp_role a) (last sts))"
      "payload = pop_payload (did_to_string d) (current_unix_seconds t) (current_unix_seconds t + cp_ttl a)
        (case cp_nonce a of Some m \<Rightarrow> m | None \<Rightarrow> generate_nonce (env_codecs env) random)"
    and laws: "bs58_law (env_codecs env)" "b64_text_law (env_codecs env)"
      "signer_sound env vk_of (role_signer (cp_role a) (last sts))"
      "json_text_law (env_codecs env) header" "json_text_law (env_codecs env) payload"
    and verify: "takes_token a printed v" "vp_did v = None" "vp_input v = None"
  shows "is_ok (cmd_verify_pop env vk_of chr t' v s') \<longleftrightarrow>
      (let now = current_unix_seconds t; now' = current_unix_seconds t' in
        \<not> now' + IAT_SKEW_SECS < now \<and> (now' < now + cp_ttl a \<or> vp_allow_expired v)
        \<and> (\<forall>n. vp_nonce v = Some n \<longrightarrow>
             n = (case cp_nonce a of Some m \<Rightarrow> m | None \<Rightarrow> generate_nonce (env_codecs env) random)))"
proof -
  let ?c = "env_codecs env" let ?ops = "env_keys env" let ?sg = "role_signer (cp_role a) (last sts)"
  let ?e = "entry_of ?ops (env_store env) (did_to_string d)"
  let ?nonce = "case cp_nonce a of Some m \<Rightarrow> m | None \<Rightarrow> generate_nonce ?c random"
  define h where "h = b64_encode ?c (as_bytes (json_to_string ?c header))"
  define p where "p = b64_encode ?c (as_bytes (json_to_string ?c payload))"
  define sg where "sg = pop_signer_sign ?ops ?sg (as_bytes (h @ ''.'' @ p))"
  have out: "write_output env (pop_jwt ?c ?ops ?sg header payload) (cp_out a) (cp_force a) s = (Inr printed, s')"
    using create entry(1) resolve_role_held [OF entry(2)]
    by (auto simp: cmd_create_pop_def ok_iff Let_def token(1) token(2) split: if_split_asm)
  note read = token_read [OF laws(2) refl out verify(1), folded h_def p_def, folded sg_def]
  have holds: "entry_holds ?ops ?e sts s'"
    using out entry(2) _ entry(3) by (rule output_keeps_entry) simp
  obtain shape ctx where ctx: "parse_kid (role_kid ?c ?ops (did_to_string d) (cp_role a) (last sts)) = Ok shape"
    "resolve_context env vk_of (role_kid ?c ?ops (did_to_string d) (cp_role a) (last sts)) shape v s' = Ok ctx"
    "key_alg (pc_key ctx) = pop_signer_alg ?sg"
    "\<And>msg. verify_signature (env_verifiers env) (pc_key ctx) msg (pop_signer_sign ?ops ?sg msg) = Ok ()"
    "pc_iss_constraint ctx = None \<or> pc_iss_constraint ctx = Some (did_to_string d)"
    using created_context [OF holds did laws(1,3) verify(2,3)] by blast
  have parts: "split_on (CHR ''.'') (h @ ''.'' @ p @ ''.'' @ b64_encode ?c sg) = [h, p, b64_encode ?c sg]"
    unfolding h_def p_def by (rule token_parts(2) [OF laws(2)])
  have b64: "b64_law ?c" using laws(2) by (simp add: b64_text_law_def)
  have "\<exists>m. header = JObject m" "\<exists>m. payload = JObject m"
    by (simp_all add: token(1) token(2) pop_header_def pop_payload_def json_obj_def)
  then have json: "decode_part_json ?c h ''header'' = Ok header" "decode_part_json ?c p ''payload'' = Ok payload"
    using laws(4,5) b64 unfolding decode_part_ok h_def p_def json_text_law_def by auto
  have claims: "claims_ok now v (pc_iss_constraint ctx) payload \<longleftrightarrow>
      \<not> now + IAT_SKEW_SECS < current_unix_seconds t
      \<and> (now < current_unix_seconds t + cp_ttl a \<or> vp_allow_expired v)
      \<and> (\<forall>n. vp_nonce v = Some n \<longrightarrow> n = ?nonce)" for now
    using ctx(5) by (auto simp: claims_ok_def token(2) pop_payload_def json_obj_def)
  have iff: "is_ok (cmd_verify_pop env vk_of chr t' v s') \<longleftrightarrow>
      claims_ok (current_unix_seconds t') v (pc_iss_constraint ctx) payload" for t'
    unfolding pop_checked [OF read parts json b64_lawD [OF b64]]
    using ctx(1-4) by (auto simp: token(1) pop_header_def json_obj_def sg_def)
  show ?thesis using claims iff by (simp add: Let_def)
qed

text \<open>C16: a proof the tool creates is accepted by its check, exactly while it is valid. Take a proof
  made with the latest keys of a DID, that is without \<open>--version\<close> (with the key of an older version
  the check, which takes the latest, can refuse it), written beside the key store. Checked with
  the same key store and without a log, the proof of any role is accepted if and only if the clock
  is at most a minute behind, the expiry, a sum of 64 bits that wraps around, lies ahead or is
  waived, and the nonce is the one asked for. A time to live so large that the sum wraps
  gives a proof that is never accepted at its own time.\<close>

theorem created_pop_accepted_iff:
  assumes create: "cmd_create_pop env t random a s = (Inr printed, s')" "cp_version a = None"
    and entry: "resolve_entry (env_keys env) (env_store env) (cp_did a) s
        = Ok (entry_of (env_keys env) (env_store env) (did_to_string d))"
      "entry_holds (env_keys env) (entry_of (env_keys env) (env_store env) (did_to_string d)) sts s"
      "\<forall>p. cp_out a = Some p \<longrightarrow> apart (env_store env) p"
    and did: "trim (did_to_string d) = did_to_string d" "did_from_str (did_to_string d) = Ok d"
      "CHR ''#'' \<notin> set (did_to_string d)"
    and token: "header = pop_header (pop_signer_alg (role_signer (cp_role a) (last sts)))
        (role_kid (env_codecs env) (env_keys env) (did_to_string d) (cp_role a) (last sts))"
      "payload = pop_payload (did_to_string d) (current_unix_seconds t) (current_unix_seconds t + cp_ttl a)
        (case cp_nonce a of Some m \<Rightarrow> m | None \<Rightarrow> generate_nonce (env_codecs env) random)"
    and laws: "bs58_law (env_codecs env)" "b64_text_law (env_codecs env)"
      "signer_sound env vk_of (role_signer (cp_role a) (last sts))"
      "json_text_law (env_codecs env) header" "json_text_law (env_codecs env) payload"
    and verify: "takes_token a printed v" "vp_did v = None" "vp_input v = None"
  shows "(is_ok (cmd_verify_pop env vk_of chr t' v s') \<longleftrightarrow>
      (let now = current_unix_seconds t; now' = current_unix_seconds t' in
        \<not> now' + IAT_SKEW_SECS < now \<and> (now' < now + cp_ttl a \<or> vp_allow_expired v)
        \<and> (\<forall>n. vp_nonce v = Some n \<longrightarrow>
             n = (case cp_nonce a of Some m \<Rightarrow> m | None \<Rightarrow> generate_nonce (env_codecs env) random))))
    \<and> (unat (current_unix_seconds t) + unat (cp_ttl a) \<ge> 2 ^ 64 \<and> \<not> vp_allow_expired v
        \<longrightarrow> \<not> is_ok (cmd_verify_pop env vk_of chr t v s'))"
  using created_pop_iff [OF assms] created_pop_iff [OF assms, of chr t] sum_wraps by (auto simp: Let_def)

section \<open>Instances\<close>

text \<open>Two letters for a byte, and a syntax for the token of the sample DID.\<close>

definition letters_encode :: "u8 list \<Rightarrow> string" where
  "letters_encode bs = concat (map (\<lambda>b. [char_of (97 + unat b div 16), char_of (97 + unat b mod 16)]) bs)"

fun letters_decode :: "string \<Rightarrow> u8 list" where
  "letters_decode (x # y # r) = of_nat ((of_char x - 97) * 16 + (of_char y - 97)) # letters_decode r"
| "letters_decode _ = []"

lemma letters_law: "letters_decode (letters_encode bs) = bs" "set (letters_encode bs) \<subseteq> set base64url"
proof -
  have small: "unat b div 16 < 16" "unat b mod 16 < 16" for b :: u8
  proof -
    have "unat b < 256" using unsigned_less [of b] by simp
    then show "unat b div 16 < 16" "unat b mod 16 < 16" by simp_all
  qed
  have code: "of_char (char_of (97 + n)) = 97 + n" if "n < 16" for n :: nat
    using that by simp
  have byte: "of_nat ((of_char (char_of (97 + unat b div 16)) - 97) * 16
      + (of_char (char_of (97 + unat b mod 16)) - 97)) = b" for b :: u8
    by (simp only: code [OF small(1)] code [OF small(2)] diff_add_inverse div_mult_mod_eq) simp
  show "letters_decode (letters_encode bs) = bs"
  proof (induction bs)
    case (Cons b bs)
    have "letters_encode (b # bs)
        = char_of (97 + unat b div 16) # char_of (97 + unat b mod 16) # letters_encode bs"
      by (simp add: letters_encode_def)
    then show ?case by (simp only: letters_decode.simps byte Cons)
  qed (simp add: letters_encode_def)
  have "\<forall>n \<in> {..<16}. char_of (97 + n :: nat) \<in> set base64url" by code_simp
  with small show "set (letters_encode bs) \<subseteq> set base64url"
    by (auto simp: letters_encode_def)
qed

definition sample_header :: json where
  "sample_header = pop_header ''EdDSA'' (did_key_of sample_multikey)"

definition sample_payload :: json where
  "sample_payload = pop_payload (did_to_string sample_did) 0 60 ''n''"

definition pop_codecs :: codecs where
  "pop_codecs = plain_codecs\<lparr>b64_encode := letters_encode, b64_decode := (\<lambda>t. Ok (letters_decode t)),
     json_to_string := (\<lambda>v. if v = sample_header then ''h'' else ''p''),
     json_from_str := (\<lambda>t. Ok (if t = ''h'' then sample_header else sample_payload)),
     json_from_slice := (\<lambda>bs. Ok (if bs = as_bytes ''h'' then sample_header else sample_payload))\<rparr>"

abbreviation pop_env :: "(u8 list, u8 list, string, string) env" where
  "pop_env \<equiv> text_env pop_codecs sample_keys ''x''"

definition sample_pop :: create_pop_args where
  "sample_pop = \<lparr>cp_did = did_to_string sample_did, cp_role = Authorized, cp_nonce = Some ''n'', cp_ttl = 60,
     cp_version = None, cp_out = None, cp_force = False\<rparr>"

definition sample_check :: "string \<Rightarrow> verify_pop_args" where
  "sample_check jwt = \<lparr>vp_jwt = Some jwt, vp_jwt_file = None, vp_did = None, vp_input = None,
     vp_nonce = Some ''n'', vp_allow_expired = False\<rparr>"

lemma pop_laws:
  "bs58_law pop_codecs" "b64_text_law pop_codecs" "json_text_law pop_codecs sample_header"
  "json_text_law pop_codecs sample_payload" "signer_sound pop_env vk_of (Eddsa sample_key)"
  "key_multikey pop_codecs sample_keys sample_key = sample_multikey"
proof -
  show "bs58_law pop_codecs" by (simp add: bs58_law_def pop_codecs_def) (simp add: plain_codecs_def)
  show "b64_text_law pop_codecs"
    by (simp add: b64_text_law_def b64_law_def pop_codecs_def letters_law)
  have "json_get sample_header ''alg'' \<noteq> json_get sample_payload ''alg''"
    by (simp add: sample_header_def sample_payload_def pop_header_def pop_payload_def json_obj_def)
  then have "sample_payload \<noteq> sample_header" by auto
  then show "json_text_law pop_codecs sample_header" "json_text_law pop_codecs sample_payload"
    by (simp_all add: json_text_law_def pop_codecs_def as_bytes_inj)
  show mk: "key_multikey pop_codecs sample_keys sample_key = sample_multikey"
    using sample_key_facts(2) by (simp add: key_multikey_def multikey_of_def pop_codecs_def life_codecs_def)
  show "signer_sound pop_env vk_of (Eddsa sample_key)"
    using sample_key_facts(1,3) by (simp add: mk)
qed

lemma pop_resolves: "resolve_entry sample_keys [''r''] (did_to_string sample_did) sample_files = Ok sample_vault_entry"
proof -
  have "\<not> is_hash (did_to_string sample_did)"
    by (simp add: is_hash_def did_to_string_def sample_did_def sample_scid_def bytes_text_def)
  then show ?thesis
    using held_lookup [OF sample_holds sample_did_text(1)] by (simp add: resolve_entry_def sample_resolved(1))
qed

lemma pop_created:
  obtains jwt where "cmd_create_pop pop_env 0 [] sample_pop sample_files = (Inr jwt, sample_files)"
proof -
  have "resolve_role pop_codecs sample_keys sample_vault_entry Authorized None sample_files
      = Ok (role_kid pop_codecs sample_keys (did_to_string sample_did) Authorized sample_stored, Eddsa sample_key)"
    using resolve_role_held [OF sample_holds, of pop_codecs Authorized] by (simp add: staged_from_parts_def)
  then have "\<exists>jwt. cmd_create_pop pop_env 0 [] sample_pop sample_files = (Inr jwt, sample_files)"
    using pop_resolves
    by (simp add: cmd_create_pop_def sample_pop_def write_output_def text_env_def Let_def)
  then show ?thesis using that by blast
qed

lemma pop_sample:
  "current_unix_seconds 0 = 0" "role_signer (cp_role sample_pop) (last [sample_stored]) = Eddsa sample_key"
  "sample_header = pop_header (pop_signer_alg (role_signer (cp_role sample_pop) (last [sample_stored])))
      (role_kid (env_codecs pop_env) (env_keys pop_env) (did_to_string sample_did) (cp_role sample_pop) (last [sample_stored]))"
  "sample_payload = pop_payload (did_to_string sample_did) (current_unix_seconds 0)
      (current_unix_seconds 0 + cp_ttl sample_pop)
      (case cp_nonce sample_pop of Some m \<Rightarrow> m | None \<Rightarrow> generate_nonce (env_codecs pop_env) [])"
  "cp_version sample_pop = None" "\<forall>p. cp_out sample_pop = Some p \<longrightarrow> apart (env_store pop_env) p"
  "resolve_entry (env_keys pop_env) (env_store pop_env) (cp_did sample_pop) sample_files
      = Ok (entry_of (env_keys pop_env) (env_store pop_env) (did_to_string sample_did))"
  "entry_holds (env_keys pop_env) (entry_of (env_keys pop_env) (env_store pop_env) (did_to_string sample_did))
      [sample_stored] sample_files"
  "bs58_law (env_codecs pop_env)" "b64_text_law (env_codecs pop_env)"
  "signer_sound pop_env vk_of (role_signer (cp_role sample_pop) (last [sample_stored]))"
  "json_text_law (env_codecs pop_env) sample_header" "json_text_law (env_codecs pop_env) sample_payload"
  "takes_token sample_pop jwt (sample_check jwt)" "vp_did (sample_check jwt) = None" "vp_input (sample_check jwt) = None"
proof -
  show zero: "current_unix_seconds 0 = 0" by (simp add: current_unix_seconds_def)
  show signer: "role_signer (cp_role sample_pop) (last [sample_stored]) = Eddsa sample_key"
    by (simp add: sample_pop_def staged_from_parts_def)
  show "sample_header = pop_header (pop_signer_alg (role_signer (cp_role sample_pop) (last [sample_stored])))
      (role_kid (env_codecs pop_env) (env_keys pop_env) (did_to_string sample_did) (cp_role sample_pop) (last [sample_stored]))"
    "sample_payload = pop_payload (did_to_string sample_did) (current_unix_seconds 0)
      (current_unix_seconds 0 + cp_ttl sample_pop)
      (case cp_nonce sample_pop of Some m \<Rightarrow> m | None \<Rightarrow> generate_nonce (env_codecs pop_env) [])"
    using pop_laws(6)
    by (simp_all add: sample_header_def sample_payload_def sample_pop_def staged_from_parts_def zero)
  show "signer_sound pop_env vk_of (role_signer (cp_role sample_pop) (last [sample_stored]))"
    unfolding signer by (rule pop_laws(5))
qed (use pop_laws pop_resolves sample_holds in
  \<open>simp_all add: sample_pop_def sample_check_def takes_token_def\<close>)

lemmas sample_pop_iff = created_pop_iff [OF _ pop_sample(5,7,8,6) sample_did_text(1) sample_resolved(1)
    sample_did_text(2) pop_sample(3,4,9-16)]

theorem created_pop_accepted_iff_witness:
  "\<exists>jwt. cmd_create_pop pop_env 0 [] sample_pop sample_files = (Inr jwt, sample_files)
     \<and> is_ok (cmd_verify_pop pop_env (\<lambda>_. []) (\<lambda>_. None) 59 (sample_check jwt) sample_files)
     \<and> \<not> is_ok (cmd_verify_pop pop_env (\<lambda>_. []) (\<lambda>_. None) 60 (sample_check jwt) sample_files)"
proof -
  obtain jwt where run: "cmd_create_pop pop_env 0 [] sample_pop sample_files = (Inr jwt, sample_files)"
    by (rule pop_created)
  note iff = created_pop_accepted_iff [OF run pop_sample(5,7,8,6) sample_did_text(1) sample_resolved(1)
    sample_did_text(2) pop_sample(3,4,9-16), THEN conjunct1]
  have "current_unix_seconds 59 = 59" "current_unix_seconds 60 = 60" by (simp_all add: current_unix_seconds_def)
  then have "is_ok (cmd_verify_pop pop_env (\<lambda>_. []) (\<lambda>_. None) 59 (sample_check jwt) sample_files)"
    "\<not> is_ok (cmd_verify_pop pop_env (\<lambda>_. []) (\<lambda>_. None) 60 (sample_check jwt) sample_files)"
    unfolding iff by (simp_all add: pop_sample(1)) (simp_all add: sample_pop_def sample_check_def)
  with run show ?thesis by blast
qed

theorem verify_pop_sound_witness:
  "\<exists>jwt h p sg sig header alg key kid iss payload. pop_text (sample_check jwt) sample_files = Ok (h @ ''.'' @ p @ ''.'' @ sg)
     \<and> decode_part_json pop_codecs h ''header'' = Ok header \<and> json_get header ''kid'' = Some (JString kid)
     \<and> json_get header ''alg'' = Some (JString alg) \<and> alg = key_alg key
     \<and> pop_key pop_env (\<lambda>_. []) (sample_check jwt) sample_files kid key iss
     \<and> verify_signature plain_verifiers key (as_bytes (h @ ''.'' @ p)) sig = Ok ()
     \<and> claims_ok 0 (sample_check jwt) iss payload"
proof -
  obtain jwt where run: "cmd_create_pop pop_env 0 [] sample_pop sample_files = (Inr jwt, sample_files)"
    by (rule pop_created)
  have "is_ok (cmd_verify_pop pop_env (\<lambda>_. []) (\<lambda>_. None) 0 (sample_check jwt) sample_files)"
    unfolding sample_pop_iff [OF run] by (simp add: pop_sample(1)) (simp add: sample_pop_def sample_check_def)
  then obtain out where "cmd_verify_pop pop_env (\<lambda>_. []) (\<lambda>_. None) 0 (sample_check jwt) sample_files = Ok out"
    by (auto simp: is_ok_iff)
  from verify_pop_sound [OF this] show ?thesis by (simp only: pop_sample(1) text_env_fields) blast
qed

end
