(* ===== verification/Registries.thy ===== *)
theory Registries
  imports DidCmds
begin

text \<open>
  The registry clients, \<open>swiyu-registries/src\<close>: allocating and publishing at the identifier
  registry, creating, listing and updating at the status registry, and the two public fetches.
  The network is a parameter: whether a client can be built, and what is answered to a request
  after the requests sent before it. The state of a computation is the list of those requests.
\<close>

section \<open>The network\<close>

type_synonym u16 = "16 word"

datatype http_method = MGet | MPost | MPut

text \<open>The settings of a client (times in seconds).\<close>

record http_config =
  hc_timeout :: nat
  hc_connect_timeout :: "nat option"
  hc_https_only :: bool
  hc_user_agent :: "string option"

record http_request =
  rq_config :: http_config
  rq_method :: http_method
  rq_url :: string
  rq_bearer :: "string option"
  rq_headers :: "(string \<times> string) list"
  rq_query :: "(string \<times> string) list"
  rq_form :: "(string \<times> string) list"
  rq_body :: "string option"

text \<open>An answer: the status, the body as text and as bytes; reading either may fail.\<close>

record http_reply =
  re_status :: u16
  re_text :: "(string, string) result"
  re_bytes :: "(u8 list, string) result"

type_synonym requests = "http_request list"

type_synonym ('a, 'e) net = "(requests, 'a, 'e) effect"

record web =
  web_build :: "http_config \<Rightarrow> (unit, string) result"
  web_answer :: "requests \<Rightarrow> http_request \<Rightarrow> (http_reply, string) result"

definition http_send :: "web \<Rightarrow> http_request \<Rightarrow> (http_reply, string) net" where
  "http_send web rq tr = (web_answer web tr rq, tr @ [rq])"

definition request :: "http_config \<Rightarrow> http_method \<Rightarrow> string \<Rightarrow> http_request" where
  "request cfg m url = \<lparr>rq_config = cfg, rq_method = m, rq_url = url, rq_bearer = None, rq_headers = [],
     rq_query = [], rq_form = [], rq_body = None\<rparr>"

definition is_success :: "u16 \<Rightarrow> bool" where "is_success st \<longleftrightarrow> 200 \<le> st \<and> st < 300"

definition is_client_error :: "u16 \<Rightarrow> bool" where "is_client_error st \<longleftrightarrow> 400 \<le> st \<and> st < 500"

text \<open>\<open>response.text().await.unwrap_or_default()\<close>\<close>

definition text_or_default :: "http_reply \<Rightarrow> string" where
  "text_or_default r = (case re_text r of Inr t \<Rightarrow> t | Inl _ \<Rightarrow> [])"

text \<open>\<open>response.json()\<close>: the body is read and parsed, with one kind of error for both.\<close>

definition response_json :: "codecs \<Rightarrow> http_reply \<Rightarrow> (json, string) result" where
  "response_json c r = and_then (re_bytes r) (json_from_slice c)"

section \<open>Errors\<close>

datatype registry_error =
    RETransport string
  | REHttpStatus u16 string
  | REDecode string

fun is_retryable :: "registry_error \<Rightarrow> bool" where
  "is_retryable (RETransport _) = True"
| "is_retryable (REHttpStatus st _) = (st = 429 \<or> 500 \<le> st \<and> st < 600)"
| "is_retryable (REDecode _) = False"

definition http_status_error :: "http_reply \<Rightarrow> registry_error" where
  "http_status_error r = REHttpStatus (re_status r) (text_or_default r)"

section \<open>Clients\<close>

text \<open>\<open>IdentifierRegistryClient\<close>, \<open>StatusRegistryClient\<close> and \<open>TrustRegistryClient\<close> have the same fields.\<close>

record registry_client =
  rc_base_url :: string
  rc_http :: http_config

definition PKG_VERSION :: string where "PKG_VERSION = ''0.1.3''"

definition hardened :: "string \<Rightarrow> http_config" where
  "hardened agent = \<lparr>hc_timeout = 30, hc_connect_timeout = Some 10, hc_https_only = True,
     hc_user_agent = Some (agent @ PKG_VERSION)\<rparr>"

definition with_http :: "string \<Rightarrow> http_config \<Rightarrow> registry_client" where
  "with_http base_url cfg = \<lparr>rc_base_url = base_url, rc_http = cfg\<rparr>"

definition client_new :: "web \<Rightarrow> string \<Rightarrow> string \<Rightarrow> (registry_client, registry_error) result" where
  "client_new web agent base_url =
     and_then (map_err RETransport (web_build web (hardened agent))) (\<lambda>_.
       Ok (with_http base_url (hardened agent)))"

definition identifier_client_new :: "web \<Rightarrow> string \<Rightarrow> (registry_client, registry_error) result" where
  "identifier_client_new web = client_new web ''swiyu-identifier-registry-client/''"

definition status_client_new :: "web \<Rightarrow> string \<Rightarrow> (registry_client, registry_error) result" where
  "status_client_new web = client_new web ''swiyu-status-registry-client/''"

definition trust_client_new :: "web \<Rightarrow> string \<Rightarrow> (registry_client, registry_error) result" where
  "trust_client_new web = client_new web ''swiyu-trust-registry-client/''"

text \<open>Sending a request: a transport failure, or the answer with its status checked.\<close>

definition send_checked :: "web \<Rightarrow> http_request \<Rightarrow> (http_reply, registry_error) net" where
  "send_checked web rq =
     io_then (io_map_err RETransport (http_send web rq)) (\<lambda>response.
       if \<not> is_success (re_status response) then io_err (http_status_error response)
       else io_ok response)"

definition decode_json :: "codecs \<Rightarrow> http_reply \<Rightarrow> (json, registry_error) result" where
  "decode_json c r = map_err (\<lambda>e. REDecode (''response is not valid JSON: '' @ e)) (response_json c r)"

definition read_string :: "json \<Rightarrow> string \<Rightarrow> (string, registry_error) result" where
  "read_string v key =
     (case json_get v key of
        None \<Rightarrow> Err (REDecode (''missing '' @ key))
      | Some x \<Rightarrow> ok_or (as_str x) (REDecode (key @ '' is not a string'')))"

section \<open>Identifier registry\<close>

definition identifier_entries :: "registry_client \<Rightarrow> string \<Rightarrow> string" where
  "identifier_entries client partner_id =
     trim_end_matches (CHR ''/'') (rc_base_url client) @ ''/api/v1/identifier/business-entities/''
       @ partner_id @ ''/identifier-entries''"

definition extract_identifier :: "string \<Rightarrow> string option" where
  "extract_identifier url =
     (let trimmed = trim_end_matches (CHR ''/'')
            (case strip_suffix ''/did.jsonl'' url of Some r \<Rightarrow> r | None \<Rightarrow> url);
          lst = last (split_on (CHR ''/'') trimmed)
      in if lst = [] then None else Some lst)"

definition allocate_did :: "codecs \<Rightarrow> web \<Rightarrow> registry_client \<Rightarrow> string \<Rightarrow> string \<Rightarrow> (allocation, registry_error) net" where
  "allocate_did c web client token partner_id =
     io_then (send_checked web
        (request (rc_http client) MPost (identifier_entries client partner_id)\<lparr>rq_bearer := Some token\<rparr>)) (\<lambda>response.
     io_of
       (and_then (decode_json c response) (\<lambda>body.
        and_then (read_string body ''identifierRegistryUrl'') (\<lambda>registry_url.
        and_then (ok_or (extract_identifier registry_url)
           (REDecode (''cannot extract identifier from identifierRegistryUrl '' @ quoted registry_url))) (\<lambda>identifier.
          Ok \<lparr>al_url = registry_url, al_identifier = identifier\<rparr>)))))"

definition publish_log_entry ::
  "web \<Rightarrow> registry_client \<Rightarrow> string \<Rightarrow> string \<Rightarrow> string \<Rightarrow> string \<Rightarrow> (unit, registry_error) net" where
  "publish_log_entry web client token partner_id identifier entry =
     io_then (send_checked web
        (request (rc_http client) MPut (identifier_entries client partner_id @ ''/'' @ identifier)
          \<lparr>rq_bearer := Some token, rq_headers := [(''Content-Type'', ''application/jsonl+json'')],
           rq_body := Some entry\<rparr>)) (\<lambda>_.
       io_ok ())"

definition fetch_log_at_url :: "web \<Rightarrow> registry_client \<Rightarrow> string \<Rightarrow> (string, registry_error) net" where
  "fetch_log_at_url web client url =
     io_then (send_checked web (request (rc_http client) MGet url)) (\<lambda>response.
       io_of (map_err RETransport (re_text response)))"

definition client_fetch_log :: "web \<Rightarrow> registry_client \<Rightarrow> did \<Rightarrow> (string, registry_error) net" where
  "client_fetch_log web client d = fetch_log_at_url web client (did_log_url d)"

section \<open>Status registry\<close>

record status_list_entry =
  se_id :: string
  se_registry_url :: string

definition status_entries :: "registry_client \<Rightarrow> string \<Rightarrow> string" where
  "status_entries client partner_id =
     trim_end_matches (CHR ''/'') (rc_base_url client) @ ''/api/v1/status/business-entities/''
       @ partner_id @ ''/status-list-entries/''"

definition create_status_list_entry ::
  "codecs \<Rightarrow> web \<Rightarrow> registry_client \<Rightarrow> string \<Rightarrow> string \<Rightarrow> (status_list_entry, registry_error) net" where
  "create_status_list_entry c web client token partner_id =
     io_then (send_checked web
        (request (rc_http client) MPost (status_entries client partner_id)\<lparr>rq_bearer := Some token\<rparr>)) (\<lambda>response.
     io_of
       (and_then (decode_json c response) (\<lambda>body.
        and_then (read_string body ''id'') (\<lambda>i.
        and_then (read_string body ''statusRegistryUrl'') (\<lambda>url.
          Ok \<lparr>se_id = i, se_registry_url = url\<rparr>)))))"

definition update_status_list_entry ::
  "web \<Rightarrow> registry_client \<Rightarrow> string \<Rightarrow> string \<Rightarrow> string \<Rightarrow> string \<Rightarrow> (unit, registry_error) net" where
  "update_status_list_entry web client token partner_id entry_id status_list_jwt =
     io_then (send_checked web
        (request (rc_http client) MPut (status_entries client partner_id @ entry_id)
          \<lparr>rq_bearer := Some token, rq_headers := [(''Content-Type'', ''application/statuslist+jwt'')],
           rq_body := Some status_list_jwt\<rparr>)) (\<lambda>_.
       io_ok ())"

record list_params =
  lq_page :: u32
  lq_size :: u32
  lq_sort :: "string list"

definition list_params_default :: list_params where
  "list_params_default = \<lparr>lq_page = 0, lq_size = 20, lq_sort = []\<rparr>"

record entry_summary =
  es_id :: string
  es_created_at :: string
  es_updated_at :: string

record entries_page =
  ep_entries :: "entry_summary list"
  ep_page :: u32
  ep_size :: u32
  ep_total_elements :: u64
  ep_total_pages :: u32

definition read_u64 :: "json \<Rightarrow> string \<Rightarrow> (u64, registry_error) result" where
  "read_u64 v key =
     (case json_get v key of
        None \<Rightarrow> Err (REDecode (''missing '' @ key))
      | Some x \<Rightarrow> ok_or (as_u64 x) (REDecode (key @ '' is not a non-negative integer'')))"

definition read_u32 :: "json \<Rightarrow> string \<Rightarrow> (u32, registry_error) result" where
  "read_u32 v key =
     and_then (read_u64 v key) (\<lambda>n.
       if unat n < 2 ^ 32 then Ok (ucast n)
       else Err (REDecode (key @ '' does not fit in u32: '' @ show_nat (unat n))))"

definition decode_entry :: "json \<Rightarrow> (entry_summary, registry_error) result" where
  "decode_entry v =
     and_then (read_string v ''id'') (\<lambda>i.
     and_then (read_string v ''createdAt'') (\<lambda>created.
     and_then (read_string v ''updatedAt'') (\<lambda>updated.
       Ok \<lparr>es_id = i, es_created_at = created, es_updated_at = updated\<rparr>)))"

fun at_index :: "nat \<Rightarrow> registry_error \<Rightarrow> registry_error" where
  "at_index i (REDecode message) = REDecode (''content['' @ show_nat i @ '']: '' @ message)"
| "at_index i err = err"

fun decode_entries :: "nat \<Rightarrow> json list \<Rightarrow> (entry_summary list, registry_error) result" where
  "decode_entries i [] = Ok []"
| "decode_entries i (v # vs) =
     and_then (map_err (at_index i) (decode_entry v)) (\<lambda>e.
     and_then (decode_entries (i + 1) vs) (\<lambda>es. Ok (e # es)))"

definition decode_page :: "json \<Rightarrow> (entries_page, registry_error) result" where
  "decode_page body =
     and_then (ok_or (json_get body ''content'') (REDecode ''missing content'')) (\<lambda>v.
     and_then (ok_or (as_array v) (REDecode ''content is not an array'')) (\<lambda>content.
     and_then (decode_entries 0 content) (\<lambda>entries.
     and_then (read_u32 body ''number'') (\<lambda>page.
     and_then (read_u32 body ''size'') (\<lambda>size.
     and_then (read_u64 body ''totalElements'') (\<lambda>total_elements.
     and_then (read_u32 body ''totalPages'') (\<lambda>total_pages.
       Ok \<lparr>ep_entries = entries, ep_page = page, ep_size = size, ep_total_elements = total_elements,
           ep_total_pages = total_pages\<rparr>)))))))"

definition list_status_list_entries ::
  "codecs \<Rightarrow> web \<Rightarrow> registry_client \<Rightarrow> string \<Rightarrow> string \<Rightarrow> list_params \<Rightarrow> (entries_page, registry_error) net" where
  "list_status_list_entries c web client token partner_id params =
     io_then (send_checked web
        (request (rc_http client) MGet (status_entries client partner_id)
          \<lparr>rq_bearer := Some token,
           rq_query := [(''page'', show_nat (unat (lq_page params))), (''size'', show_nat (unat (lq_size params)))]
             @ map (Pair ''sort'') (lq_sort params)\<rparr>)) (\<lambda>response.
       io_of (and_then (decode_json c response) decode_page))"

section \<open>Trust registry\<close>

definition build_endpoint :: "string \<Rightarrow> did \<Rightarrow> string" where
  "build_endpoint base_url d =
     trim_end_matches (CHR ''/'') base_url @ ''/api/v1/truststatements/identity/'' @ url_path_segment d"

text \<open>\<open>serde_json::from_str::<Vec<String>>\<close>\<close>

definition string_array :: "json \<Rightarrow> string list option" where
  "string_array v =
     Option.bind (as_array v) (\<lambda>xs.
       if list_all (\<lambda>x. as_str x \<noteq> None) xs then Some (map (the \<circ> as_str) xs) else None)"

definition fetch_trust_statements :: "codecs \<Rightarrow> web \<Rightarrow> registry_client \<Rightarrow> did \<Rightarrow> (string list, registry_error) net" where
  "fetch_trust_statements c web client d =
     io_then (io_map_err RETransport
        (http_send web (request (rc_http client) MGet (build_endpoint (rc_base_url client) d)))) (\<lambda>response.
       if re_status response = 404 then io_ok []
       else if \<not> is_success (re_status response) then io_err (http_status_error response)
       else
         io_of (and_then (map_err RETransport (re_text response)) (\<lambda>body.
           ok_or (Option.bind (res_ok (json_from_str c body)) string_array)
             (REDecode ''trust registry response is not a JSON array of JWT strings''))))"

end
