(* ===== verification/SwiyuAuth.thy ===== *)
theory SwiyuAuth
  imports Registries
begin

text \<open>
  What the tool does at a registry on behalf of a partner: the token exchange of
  \<open>swiyu-didtool/src/oauth2.rs\<close>, the two calls of \<open>swiyu.rs\<close> and the checks \<open>main.rs\<close> makes on
  partner ids and URLs. The environment of the process is a parameter; a variable that is not
  set, or not valid Unicode, is \<open>None\<close>.
\<close>

section \<open>Checks of the command line\<close>

definition is_https_url :: "string \<Rightarrow> bool" where
  "is_https_url s =
     (case strip_prefix ''https://'' s of
        Some rest \<Rightarrow> hd (split_on (CHR ''/'') rest) \<noteq> []
      | None \<Rightarrow> False)"

definition is_uuid :: "string \<Rightarrow> bool" where
  "is_uuid s \<longleftrightarrow> length s = 36
     \<and> list_all (\<lambda>i. s ! i = CHR ''-'') [8, 13, 18, 23]
     \<and> list_all (\<lambda>i. is_ascii_hexdigit (s ! i)) (filter (\<lambda>i. i \<notin> set [8, 13, 18, 23]) [0..<36])"

definition parse_partner_id :: "string \<Rightarrow> (string, string) result" where
  "parse_partner_id s =
     (if s = [] then Err (''required '' @ em_dash @ '' provide --partner-id or set SWIYU_PARTNER_ID'')
      else if is_uuid s then Ok s
      else Err (''not a valid UUID: '' @ quoted s))"

definition parse_https_url :: "string \<Rightarrow> (string, string) result" where
  "parse_https_url s =
     (if s = [] then Err ''required (value is empty)''
      else if is_https_url s then Ok s
      else Err (''must use https:// scheme and have a non-empty host: '' @ quoted s))"

section \<open>The token exchange\<close>

datatype oauth2_error =
    OAMissingCredential string
  | OAInvalidTokenUrl string
  | OARefreshRejected string
  | OATransport string
  | OADecode string

type_synonym process_env = "string \<Rightarrow> string option"

definition env_var :: "process_env \<Rightarrow> string \<Rightarrow> (string, oauth2_error) result" where
  "env_var vars name =
     (case vars name of
        Some v \<Rightarrow> if trim v \<noteq> [] then Ok v else Err (OAMissingCredential name)
      | None \<Rightarrow> Err (OAMissingCredential name))"

record oauth_credentials =
  oc_token_url :: string
  oc_client_id :: string
  oc_client_secret :: string
  oc_refresh_token :: string

definition credentials_from_env :: "process_env \<Rightarrow> (oauth_credentials, oauth2_error) result" where
  "credentials_from_env vars =
     and_then (env_var vars ''SWIYU_TOKEN_URL'') (\<lambda>token_url.
     if \<not> is_https_url token_url then Err (OAInvalidTokenUrl token_url)
     else
       and_then (env_var vars ''SWIYU_CLIENT_ID'') (\<lambda>client_id.
       and_then (env_var vars ''SWIYU_CLIENT_SECRET'') (\<lambda>client_secret.
       and_then (env_var vars ''SWIYU_REFRESH_TOKEN'') (\<lambda>refresh_token.
         Ok \<lparr>oc_token_url = token_url, oc_client_id = client_id, oc_client_secret = client_secret,
             oc_refresh_token = refresh_token\<rparr>))))"

definition parse_access_token :: "codecs \<Rightarrow> string \<Rightarrow> (string, oauth2_error) result" where
  "parse_access_token c body =
     and_then (map_err (\<lambda>e. OADecode (''token endpoint body is not JSON: '' @ e)) (json_from_str c body)) (\<lambda>v.
       ok_or (Option.bind (json_get v ''access_token'') as_str)
         (OADecode ''token endpoint response missing access_token''))"

definition format_oauth_error :: "codecs \<Rightarrow> u16 \<Rightarrow> string \<Rightarrow> string" where
  "format_oauth_error c st body =
     (case json_from_str c body of
        Inl _ \<Rightarrow> ''HTTP '' @ show_nat (unat st) @ '': '' @ body
      | Inr v \<Rightarrow>
          let kind = (case Option.bind (json_get v ''error'') as_str of Some k \<Rightarrow> k | None \<Rightarrow> ''(no error code)'');
              detail = (case Option.bind (json_get v ''error_description'') as_str of Some d \<Rightarrow> d | None \<Rightarrow> [])
          in if detail = [] then ''HTTP '' @ show_nat (unat st) @ '': '' @ kind
             else ''HTTP '' @ show_nat (unat st) @ '': '' @ kind @ '': '' @ detail)"

definition token_config :: http_config where
  "token_config = \<lparr>hc_timeout = 30, hc_connect_timeout = None, hc_https_only = False, hc_user_agent = None\<rparr>"

definition token_request :: "oauth_credentials \<Rightarrow> http_request" where
  "token_request creds =
     request token_config MPost (oc_token_url creds)
       \<lparr>rq_form := [(''grant_type'', ''refresh_token''), (''refresh_token'', oc_refresh_token creds),
          (''client_id'', oc_client_id creds), (''client_secret'', oc_client_secret creds)]\<rparr>"

definition refresh_token_grant :: "codecs \<Rightarrow> web \<Rightarrow> oauth_credentials \<Rightarrow> (string, oauth2_error) net" where
  "refresh_token_grant c web creds =
     io_then (io_of (map_err OATransport (web_build web token_config))) (\<lambda>_.
     io_then (io_map_err OATransport (http_send web (token_request creds))) (\<lambda>response.
     io_then (io_of (map_err OATransport (re_text response))) (\<lambda>body.
       if is_success (re_status response) then io_of (parse_access_token c body)
       else if is_client_error (re_status response)
       then io_err (OARefreshRejected (format_oauth_error c (re_status response) body))
       else io_err (OATransport (''token endpoint returned HTTP '' @ show_nat (unat (re_status response))
              @ '': '' @ body)))))"

section \<open>The two calls\<close>

datatype swiyu_error = SWOAuth2 oauth2_error | SWRegistry registry_error

definition allocate_did_url ::
  "codecs \<Rightarrow> process_env \<Rightarrow> web \<Rightarrow> string \<Rightarrow> string \<Rightarrow> (allocation, swiyu_error) net" where
  "allocate_did_url c vars web partner_id registry_url =
     io_then (io_of (map_err SWOAuth2 (credentials_from_env vars))) (\<lambda>creds.
     io_then (io_map_err SWOAuth2 (refresh_token_grant c web creds)) (\<lambda>token.
     io_then (io_of (map_err SWRegistry (identifier_client_new web registry_url))) (\<lambda>client.
       io_map_err SWRegistry (allocate_did c web client token partner_id))))"

definition publish_entry ::
  "codecs \<Rightarrow> process_env \<Rightarrow> web \<Rightarrow> string \<Rightarrow> string \<Rightarrow> string \<Rightarrow> string \<Rightarrow> (unit, swiyu_error) net" where
  "publish_entry c vars web registry_url partner_id identifier entry_body =
     io_then (io_of (map_err SWOAuth2 (credentials_from_env vars))) (\<lambda>creds.
     io_then (io_map_err SWOAuth2 (refresh_token_grant c web creds)) (\<lambda>token.
     io_then (io_of (map_err SWRegistry (identifier_client_new web registry_url))) (\<lambda>client.
       io_map_err SWRegistry (publish_log_entry web client token partner_id identifier entry_body))))"

section \<open>The texts of errors\<close>

fun show_oauth2_error :: "oauth2_error \<Rightarrow> string" where
  "show_oauth2_error (OAMissingCredential n) = n @ '' is not set''"
| "show_oauth2_error (OAInvalidTokenUrl u) = ''SWIYU_TOKEN_URL is not an https URL: '' @ u"
| "show_oauth2_error (OARefreshRejected m) = ''refresh token rejected: '' @ m"
| "show_oauth2_error (OATransport m) = ''token endpoint transport: '' @ m"
| "show_oauth2_error (OADecode m) = ''token endpoint decode: '' @ m"

fun show_registry_error :: "registry_error \<Rightarrow> string" where
  "show_registry_error (RETransport m) = ''transport error: '' @ m"
| "show_registry_error (REHttpStatus st b) = ''registry returned HTTP '' @ show_nat (unat st) @ '': '' @ b"
| "show_registry_error (REDecode m) = ''could not decode registry response: '' @ m"

fun show_swiyu_error :: "swiyu_error \<Rightarrow> string" where
  "show_swiyu_error (SWOAuth2 e) = show_oauth2_error e"
| "show_swiyu_error (SWRegistry e) = show_registry_error e"

text \<open>The registry the commands of \<open>DidCmds\<close> run with, after the requests already sent.\<close>

definition swiyu_registry :: "codecs \<Rightarrow> process_env \<Rightarrow> web \<Rightarrow> requests \<Rightarrow> registry" where
  "swiyu_registry c vars web tr =
     \<lparr>reg_allocate = (\<lambda>p u. map_err show_swiyu_error (fst (allocate_did_url c vars web p u tr))),
      reg_publish = (\<lambda>u p i b. map_err show_swiyu_error (fst (publish_entry c vars web u p i b tr)))\<rparr>"

text \<open>
  A creation allocates a place first, so that its log is published after those requests; it does
  both with the same partner id and URL.
\<close>

definition swiyu_creation :: "codecs \<Rightarrow> process_env \<Rightarrow> web \<Rightarrow> requests \<Rightarrow> registry" where
  "swiyu_creation c vars web tr = (swiyu_registry c vars web tr)
     \<lparr>reg_publish := (\<lambda>u p i b. map_err show_swiyu_error
        (fst (publish_entry c vars web u p i b (snd (allocate_did_url c vars web p u tr)))))\<rparr>"

end
