(* ===== verification/RegistrySound.thy ===== *)
theory RegistrySound
  imports SwiyuAuth DidLife
begin

text \<open>
  What the calls to the registries send and accept: which requests carry which secret, what a
  published log is, which pages decode, and that the identifier a DID was allocated under is the
  one its later updates are published to.
\<close>

section \<open>What is sent\<close>

lemma send_checked_runs:
  "send_checked web rq tr =
     (case web_answer web tr rq of
        Inl e \<Rightarrow> (Err (RETransport e), tr @ [rq])
      | Inr r \<Rightarrow> if is_success (re_status r) then (Ok r, tr @ [rq]) else (Err (http_status_error r), tr @ [rq]))"
  by (simp add: send_checked_def io_then_def io_map_err_def http_send_def split: sum.split)

text \<open>The token a grant gives, read off the answer of the token endpoint.\<close>

definition granted :: "codecs \<Rightarrow> web \<Rightarrow> requests \<Rightarrow> oauth_credentials \<Rightarrow> string \<Rightarrow> bool" where
  "granted c web tr creds token \<longleftrightarrow>
     (\<exists>r body. web_answer web tr (token_request creds) = Ok r \<and> is_success (re_status r)
        \<and> re_text r = Ok body \<and> parse_access_token c body = Ok token)"

lemma grant_sends:
  "refresh_token_grant c web creds tr = (r, tr') \<Longrightarrow>
     tr' = tr \<and> \<not> is_ok r \<or> tr' = tr @ [token_request creds] \<and> (\<forall>t. r = Ok t \<longleftrightarrow> granted c web tr creds t)"
  by (auto simp: refresh_token_grant_def io_then_def io_map_err_def http_send_def granted_def ok_iff
      split: prod.splits sum.splits if_splits)

lemma grant_ok:
  "refresh_token_grant c web creds tr = (Inr t, tr') \<longleftrightarrow>
     web_build web token_config = Ok () \<and> granted c web tr creds t \<and> tr' = tr @ [token_request creds]"
  by (auto simp: refresh_token_grant_def http_send_def granted_def ok_iff split: if_split_asm)

lemma credentials_https: "credentials_from_env vars = Ok creds \<Longrightarrow> is_https_url (oc_token_url creds)"
  by (auto simp: credentials_from_env_def ok_iff split: if_split_asm)

text \<open>The request with a token, and the requests of one call to the registry.\<close>

definition publish_request :: "string \<Rightarrow> string \<Rightarrow> string \<Rightarrow> string \<Rightarrow> string \<Rightarrow> http_request" where
  "publish_request token u p i entry =
     request (hardened ''swiyu-identifier-registry-client/'') MPut
       (trim_end_matches (CHR ''/'') u @ ''/api/v1/identifier/business-entities/'' @ p
          @ ''/identifier-entries/'' @ i)
       \<lparr>rq_bearer := Some token, rq_headers := [(''Content-Type'', ''application/jsonl+json'')],
        rq_body := Some entry\<rparr>"

definition allocate_request :: "string \<Rightarrow> string \<Rightarrow> string \<Rightarrow> http_request" where
  "allocate_request token u p =
     request (hardened ''swiyu-identifier-registry-client/'') MPost
       (trim_end_matches (CHR ''/'') u @ ''/api/v1/identifier/business-entities/'' @ p
          @ ''/identifier-entries'')
       \<lparr>rq_bearer := Some token\<rparr>"

definition registry_call ::
  "codecs \<Rightarrow> process_env \<Rightarrow> web \<Rightarrow> requests \<Rightarrow> (string \<Rightarrow> http_request) \<Rightarrow> requests \<Rightarrow> bool" where
  "registry_call c vars web tr mk sent \<longleftrightarrow>
     sent = [] \<or>
     (\<exists>creds. credentials_from_env vars = Ok creds \<and>
        (sent = [token_request creds] \<or>
         (\<exists>token. granted c web tr creds token \<and> sent = [token_request creds, mk token])))"


text \<open>Both calls are of one shape: credentials, token, client, and one request with the token.\<close>

lemma registry_call_shape:
  assumes run: "io_then (io_of (map_err SWOAuth2 (credentials_from_env vars))) (\<lambda>creds.
     io_then (io_map_err SWOAuth2 (refresh_token_grant c web creds)) (\<lambda>token.
     io_then (io_of (map_err SWRegistry (identifier_client_new web u))) (\<lambda>client.
       io_map_err SWRegistry (f token client)))) tr = (r, tr')"
    and one: "\<And>token s. f token (with_http u (hardened ''swiyu-identifier-registry-client/'')) s
      = (g (web_answer web s (mk token)), s @ [mk token])"
  shows "\<exists>sent. tr' = tr @ sent \<and> registry_call c vars web tr mk sent
    \<and> (\<forall>x. r = Ok x \<longleftrightarrow> length sent = 2 \<and> g (web_answer web (tr @ [sent ! 0]) (sent ! 1)) = Ok x)"
proof (cases "credentials_from_env vars")
  case (Inl e)
  with run show ?thesis by (auto simp: registry_call_def)
next
  case creds: (Inr creds)
  obtain gr tr1 where g: "refresh_token_grant c web creds tr = (gr, tr1)" by fastforce
  show ?thesis
  proof (cases gr)
    case (Inl e)
    then show ?thesis
      using run g grant_sends [OF g] creds by (auto simp: registry_call_def)
  next
    case (Inr t)
    then have t: "granted c web tr creds t" "tr1 = tr @ [token_request creds]" using g by (auto simp: grant_ok)
    show ?thesis
    proof (cases "web_build web (hardened ''swiyu-identifier-registry-client/'')")
      case (Inl e)
      then show ?thesis
        using run g t \<open>gr = Inr t\<close> creds
        by (auto simp: registry_call_def identifier_client_new_def client_new_def)
    next
      case (Inr unit)
      then have "tr' = tr1 @ [mk t]" "r = map_err SWRegistry (g (web_answer web tr1 (mk t)))"
        using run g t \<open>gr = Inr t\<close> creds
        by (simp_all add: identifier_client_new_def client_new_def one)
      then show ?thesis
        using t creds by (intro exI [of _ "[token_request creds, mk t]"]) (auto simp: registry_call_def ok_iff)
    qed
  qed
qed

definition accepted :: "(http_reply, string) result \<Rightarrow> (http_reply, registry_error) result" where
  "accepted a = and_then (map_err RETransport a) (\<lambda>r.
     if is_success (re_status r) then Ok r else Err (http_status_error r))"

lemma send_checked_accepted: "send_checked web rq tr = (accepted (web_answer web tr rq), tr @ [rq])"
  by (auto simp: send_checked_runs accepted_def split: sum.split)

lemma accepted_ok [ok_iff]: "accepted a = Ok r \<longleftrightarrow> a = Ok r \<and> is_success (re_status r)"
  by (auto simp: accepted_def ok_iff split: if_split_asm)

text \<open>The allocation an answer stands for.\<close>

definition allocated :: "codecs \<Rightarrow> http_reply \<Rightarrow> (allocation, registry_error) result" where
  "allocated c response =
     and_then (decode_json c response) (\<lambda>body.
     and_then (read_string body ''identifierRegistryUrl'') (\<lambda>registry_url.
     and_then (ok_or (extract_identifier registry_url)
        (REDecode (''cannot extract identifier from identifierRegistryUrl '' @ quoted registry_url))) (\<lambda>identifier.
       Ok \<lparr>al_url = registry_url, al_identifier = identifier\<rparr>)))"

lemma publish_entry_sends:
  assumes "publish_entry c vars web u p i b tr = (r, tr')"
  shows "\<exists>sent. tr' = tr @ sent \<and> registry_call c vars web tr (\<lambda>t. publish_request t u p i b) sent
    \<and> (r = Ok () \<longleftrightarrow> length sent = 2 \<and> is_ok (accepted (web_answer web (tr @ [sent ! 0]) (sent ! 1))))"
proof -
  have "publish_log_entry web (with_http u (hardened ''swiyu-identifier-registry-client/'')) token p i b s
      = (and_then (accepted (web_answer web s (publish_request token u p i b))) (\<lambda>_. Ok ()),
         s @ [publish_request token u p i b])" for token s
    by (simp add: publish_log_entry_def with_http_def identifier_entries_def publish_request_def
        send_checked_accepted io_then_def split: sum.split)
  from registry_call_shape [OF assms [unfolded publish_entry_def] this]
  show ?thesis by (auto simp: is_ok_iff ok_iff)
qed

lemma allocate_did_url_sends:
  assumes "allocate_did_url c vars web p u tr = (r, tr')"
  shows "\<exists>sent. tr' = tr @ sent \<and> registry_call c vars web tr (\<lambda>t. allocate_request t u p) sent
    \<and> (\<forall>al. r = Ok al \<longleftrightarrow> length sent = 2
         \<and> and_then (accepted (web_answer web (tr @ [sent ! 0]) (sent ! 1))) (allocated c) = Ok al)"
proof -
  have "allocate_did c web (with_http u (hardened ''swiyu-identifier-registry-client/'')) token p s
      = (and_then (accepted (web_answer web s (allocate_request token u p))) (allocated c),
         s @ [allocate_request token u p])" for token s
    by (simp add: allocate_did_def with_http_def identifier_entries_def allocate_request_def
        send_checked_accepted io_then_def allocated_def split: sum.split)
  from registry_call_shape [OF assms [unfolded allocate_did_url_def] this] show ?thesis .
qed
section \<open>Identifiers\<close>

lemma trim_end_matches_no: "s = [] \<or> last s \<noteq> ch \<Longrightarrow> trim_end_matches ch s = s"
  by (cases s rule: rev_cases) (simp_all add: trim_end_matches_def)

lemma join_last: "ps \<noteq> [] \<Longrightarrow> (\<And>p. p \<in> set ps \<Longrightarrow> p \<noteq> []) \<Longrightarrow> join_with sep ps \<noteq> [] \<and> last (join_with sep ps) = last (last ps)"
  by (induction sep ps rule: join_with.induct) auto

lemma replace_char_join:
  "(\<And>p. p \<in> set ps \<Longrightarrow> ch \<notin> set p) \<Longrightarrow> replace_char ch t (join_with [ch] ps) = join_with t ps"
  by (induction "[ch]" ps rule: join_with.induct) (auto simp: replace_char_absent)

lemma replace_nonempty_before:
  "hd pat \<notin> set a \<Longrightarrow> pat \<noteq> [] \<Longrightarrow> replace_nonempty pat new (a @ r) = a @ replace_nonempty pat new r"
proof (induction a)
  case (Cons x xs)
  then have "strip_prefix pat (x # xs @ r) = None" by (cases pat) auto
  with Cons show ?case by (simp add: replace_nonempty_skip)
qed simp

text \<open>The URLs the registry serves logs at: a host, the segments of a path, and the file.\<close>

definition log_place :: "string \<Rightarrow> string list \<Rightarrow> string" where
  "log_place host segs = ''https://'' @ host @ ''/'' @ join_with ''/'' segs @ ''/did.jsonl''"

definition plain_segments :: "string list \<Rightarrow> bool" where
  "plain_segments segs \<longleftrightarrow> segs \<noteq> [] \<and> segs \<noteq> [''.well-known'']
     \<and> list_all (\<lambda>x. x \<noteq> [] \<and> CHR ''/'' \<notin> set x \<and> CHR '':'' \<notin> set x) segs"

lemma plain_join:
  assumes "plain_segments segs"
  shows "split_on (CHR ''/'') (join_with ''/'' segs) = segs" "split_on (CHR '':'') (join_with '':'' segs) = segs"
    "replace_char (CHR '':'') ''/'' (join_with '':'' segs) = join_with ''/'' segs"
    "last segs \<noteq> []" "join_with ''/'' segs \<noteq> []" "last (join_with ''/'' segs) \<noteq> CHR ''/''"
proof -
  have segs: "segs \<noteq> []" "\<And>x. x \<in> set segs \<Longrightarrow> x \<noteq> [] \<and> CHR ''/'' \<notin> set x \<and> CHR '':'' \<notin> set x"
    using assms by (auto simp: plain_segments_def list_all_iff)
  show "split_on (CHR ''/'') (join_with ''/'' segs) = segs" "split_on (CHR '':'') (join_with '':'' segs) = segs"
    "replace_char (CHR '':'') ''/'' (join_with '':'' segs) = join_with ''/'' segs"
    using segs by (auto intro: split_join replace_char_join)
  show last: "last segs \<noteq> []" using segs by simp
  show "join_with ''/'' segs \<noteq> []" using join_last [OF segs(1)] segs(2) by blast
  have "last (last segs) \<in> set (last segs)" by (rule last_in_set [OF last])
  then have "last (last segs) \<noteq> CHR ''/''" using segs(2) [of "last segs"] segs(1) by (metis last_in_set)
  then show "last (join_with ''/'' segs) \<noteq> CHR ''/''" using join_last [OF segs(1)] segs(2) by metis
qed

lemma split_path:
  "split_on (CHR ''/'') (a @ CHR ''/'' # b) = split_on (CHR ''/'') a @ split_on (CHR ''/'') b"
proof (induction a)
  case (Cons x xs)
  then show ?case by (cases "split_on (CHR ''/'') xs") auto
qed simp

text \<open>A place of logs, with or without the name of the file.\<close>

definition log_base :: "string \<Rightarrow> string list \<Rightarrow> string" where
  "log_base host segs = ''https://'' @ host @ ''/'' @ join_with ''/'' segs"

definition names_place :: "string \<Rightarrow> string \<Rightarrow> string list \<Rightarrow> bool" where
  "names_place url host segs \<longleftrightarrow>
     url = log_place host segs \<or> url = log_base host segs \<and> last segs \<noteq> ''did.jsonl''"

lemma split_base:
  assumes "plain_segments segs"
  shows "split_on (CHR ''/'') (log_base host segs) = split_on (CHR ''/'') (''https://'' @ host) @ segs"
proof -
  have "log_base host segs = (''https://'' @ host) @ CHR ''/'' # join_with ''/'' segs" by (simp add: log_base_def)
  then show ?thesis by (simp only: split_path plain_join(1) [OF assms])
qed

lemma place_identifier:
  assumes "plain_segments segs" "names_place url host segs"
  shows "extract_identifier url = Some (last segs)"
proof -
  let ?b = "log_base host segs"
  note j = plain_join [OF assms(1)]
  have segs: "segs \<noteq> []" using assms(1) by (simp add: plain_segments_def)
  have b: "(case strip_suffix ''/did.jsonl'' url of Some r \<Rightarrow> r | None \<Rightarrow> url) = ?b"
  proof (cases "url = log_place host segs")
    case True
    then have "url = ?b @ ''/did.jsonl''" by (simp add: log_place_def log_base_def)
    then have "strip_suffix ''/did.jsonl'' url = Some ?b" unfolding strip_suffix_some .
    then show ?thesis by simp
  next
    case False
    then have url: "url = ?b" "last segs \<noteq> ''did.jsonl''" using assms(2) by (simp_all add: names_place_def)
    have "strip_suffix ''/did.jsonl'' ?b = None"
    proof (cases "strip_suffix ''/did.jsonl'' ?b")
      case (Some r)
      then have "?b = r @ CHR ''/'' # ''did.jsonl''" by (simp add: strip_suffix_some)
      then have "split_on (CHR ''/'') ?b = split_on (CHR ''/'') r @ [''did.jsonl'']"
        by (simp only: split_path) simp
      then show ?thesis using split_base [OF assms(1), of host] url(2) segs by (metis last_append last_snoc)
    qed
    then show ?thesis by (simp add: url(1))
  qed
  have trim: "trim_end_matches (CHR ''/'') ?b = ?b"
    by (rule trim_end_matches_no) (use j(5,6) in \<open>simp add: log_base_def\<close>)
  have "last (split_on (CHR ''/'') ?b) = last segs" using split_base [OF assms(1)] segs by simp
  then show ?thesis using j(4) unfolding extract_identifier_def Let_def b trim by simp
qed

lemma place_components:
  assumes "plain_segments segs" "host \<noteq> []" "CHR ''/'' \<notin> set host" "names_place url host segs"
  shows "url_to_did_components url =
    Ok (case split_once (CHR '':'') host of Some (h, port) \<Rightarrow> h @ ''%3A'' @ port | None \<Rightarrow> host,
        Some (join_with '':'' segs))"
proof -
  note j = plain_join [OF assms(1)]
  obtain p where p: "url = ''https://'' @ (host @ CHR ''/'' # p)"
    "p = join_with ''/'' segs @ ''/did.jsonl'' \<or> p = join_with ''/'' segs \<and> last segs \<noteq> ''did.jsonl''"
    using assms(4) by (auto simp: names_place_def log_place_def log_base_def)
  have strip: "strip_prefix ''https://'' url = Some (host @ CHR ''/'' # p)"
    unfolding p(1) by (rule strip_prefix_append)
  have "join_with ''/'' segs @ ''/did.jsonl'' = join_with ''/'' segs @ CHR ''/'' # ''did.jsonl''" by simp
  then have split: "split_on (CHR ''/'') p = segs @ [''did.jsonl'']
      \<or> split_on (CHR ''/'') p = segs \<and> last segs \<noteq> ''did.jsonl''"
    using p(2) by (auto simp only: split_path j(1)) simp_all
  have filter: "filter (\<lambda>x. x \<noteq> []) segs = segs" using assms(1) by (auto simp: plain_segments_def list_all_iff)
  have segs: "segs \<noteq> []" "segs \<noteq> [''.well-known'']" using assms(1) by (simp_all add: plain_segments_def)
  from split show ?thesis
  proof (elim disjE conjE)
    assume "split_on (CHR ''/'') p = segs @ [''did.jsonl'']"
    then show ?thesis
      unfolding url_to_did_components_def strip
      by (simp add: split_once_append [OF assms(3)] filter assms(2) segs Let_def)
  next
    assume "split_on (CHR ''/'') p = segs" "last segs \<noteq> ''did.jsonl''"
    then show ?thesis
      unfolding url_to_did_components_def strip
      by (simp add: split_once_append [OF assms(3)] filter assms(2) segs Let_def)
  qed
qed

text \<open>C19: the place of a DID. Let the registry allocate a URL for the log: HTTPS, a host without a percent
  sign, a path of segments without a slash or a colon (other than \<open>.well-known\<close> alone), with or without
  the file name \<open>did.jsonl\<close> at its end. Then the DID that is made from that URL resolves to exactly
  the file \<open>did.jsonl\<close> below this path, and the identifier that later updates take from the DID is
  the identifier the registry allocated.\<close>

theorem allocated_did_resolves:
  assumes run: "allocate_did_url c vars web p u tr = (Inr al, tr')"
    and place: "names_place (al_url al) host segs" "plain_segments segs"
      "host \<noteq> []" "CHR ''/'' \<notin> set host" "CHR ''%'' \<notin> set host"
    and did: "url_to_did_components (al_url al) = Ok (dmn, path)" "build_did fmt (Some scid) dmn path = Ok d"
  shows "did_log_url d = log_place host segs \<and> extract_registry_identifier d = Some (al_identifier al)"
proof -
  obtain sent where "and_then (accepted (web_answer web (tr @ [sent ! 0]) (sent ! 1))) (allocated c) = Ok al"
    using allocate_did_url_sends [OF run] by auto
  then have "extract_identifier (al_url al) = Some (al_identifier al)" by (auto simp: allocated_def ok_iff)
  then have i: "al_identifier al = last segs" using place_identifier [OF place(2,1)] by simp
  have d: "did_domain d = dmn" "did_path d = path"
    using did(2) by (cases fmt; auto simp: try_new_tdw_def try_new_webvh_def validate_and_build_def
        split: if_split_asm option.split_asm)+
  have c: "path = Some (join_with '':'' segs)"
    "dmn = (case split_once (CHR '':'') host of Some (h, port) \<Rightarrow> h @ ''%3A'' @ port | None \<Rightarrow> host)"
    using did(1) place_components [OF place(2-4,1)] by simp_all
  note j = plain_join [OF place(2)]
  have host: "str_replace ''%3A'' '':'' dmn = host"
  proof (cases "split_once (CHR '':'') host")
    case None
    then show ?thesis using place(5) by (simp add: c str_replace_absent del: split_once_none)
  next
    case (Some hp)
    then obtain h port where hp: "hp = (h, port)" "host = h @ CHR '':'' # port" by (cases hp) (auto simp: split_once_some)
    have "replace_nonempty ''%3A'' '':'' (h @ ''%3A'' @ port) = h @ '':'' @ port"
      using place(5) by (simp add: hp replace_nonempty_before replace_nonempty_absent
          replace_nonempty_match [of "''%3A''", simplified] del: append_Cons)
    then show ?thesis using Some by (simp add: c hp str_replace_def)
  qed
  show ?thesis
    using i j(2-4) by (simp add: did_log_url_def d c(1) host log_place_def extract_registry_identifier_def)
qed

section \<open>Secrets\<close>

text \<open>
  A request that keeps the secrets of the partner: a bearer token goes only to the identifier
  interface under the given base URL, by a client restricted to HTTPS; a form (with the client
  secret and the refresh token) goes only to an HTTPS URL; and never both.
\<close>

definition keeps_secret :: "string \<Rightarrow> http_request \<Rightarrow> bool" where
  "keeps_secret u rq \<longleftrightarrow>
     (rq_bearer rq \<noteq> None \<longrightarrow> rq_form rq = [] \<and> hc_https_only (rq_config rq)
        \<and> prefix (trim_end_matches (CHR ''/'') u @ ''/api/v1/identifier/'') (rq_url rq))
   \<and> (rq_form rq \<noteq> [] \<longrightarrow> is_https_url (rq_url rq))"

definition secretless :: "http_request \<Rightarrow> bool" where
  "secretless rq \<longleftrightarrow> rq_bearer rq = None \<and> rq_form rq = []"

text \<open>
  The clients follow redirects on their own (reqwest's default policy, which the code leaves as it
  is). What the code relies on there: a request that follows a redirect is sent by the same client,
  which refuses a URL that is not HTTPS if it is restricted to HTTPS; it carries the bearer token
  of the request before it or none, and none if it goes to another origin; and it carries the form
  of the request before it or none. \<open>step rq h\<close> says that \<open>h\<close> may follow \<open>rq\<close>.
\<close>

definition redirect_law :: "(string \<Rightarrow> string option) \<Rightarrow> (http_request \<Rightarrow> http_request \<Rightarrow> bool) \<Rightarrow> bool" where
  "redirect_law origin step \<longleftrightarrow>
     (\<forall>rq h. step rq h \<longrightarrow>
        rq_config h = rq_config rq
        \<and> (hc_https_only (rq_config rq) \<longrightarrow> is_https_url (rq_url h))
        \<and> (rq_bearer h \<noteq> None \<longrightarrow> rq_bearer h = rq_bearer rq \<and> origin (rq_url h) = origin (rq_url rq))
        \<and> (rq_form h \<noteq> [] \<longrightarrow> rq_form h = rq_form rq))"

lemma redirects:
  assumes "redirect_law origin step" "step\<^sup>*\<^sup>* rq h"
  shows "rq_config h = rq_config rq \<and> (h \<noteq> rq \<longrightarrow> hc_https_only (rq_config rq) \<longrightarrow> is_https_url (rq_url h))
    \<and> (rq_bearer h \<noteq> None \<longrightarrow> rq_bearer h = rq_bearer rq \<and> origin (rq_url h) = origin (rq_url rq))
    \<and> (rq_form h \<noteq> [] \<longrightarrow> rq_form h = rq_form rq)"
  using assms(2)
proof induction
  case (step h h')
  from assms(1) step(2) have "rq_config h' = rq_config h \<and> (hc_https_only (rq_config h) \<longrightarrow> is_https_url (rq_url h'))
    \<and> (rq_bearer h' \<noteq> None \<longrightarrow> rq_bearer h' = rq_bearer h \<and> origin (rq_url h') = origin (rq_url h))
    \<and> (rq_form h' \<noteq> [] \<longrightarrow> rq_form h' = rq_form h)"
    unfolding redirect_law_def by blast
  with step.IH show ?case by metis
qed simp

text \<open>A request all of whose redirects keep the secrets as far as the client can: where it is sent
  first is checked by the program; from there a token stays with its origin and on HTTPS.\<close>

definition guarded ::
  "(string \<Rightarrow> string option) \<Rightarrow> (http_request \<Rightarrow> http_request \<Rightarrow> bool) \<Rightarrow> string \<Rightarrow> http_request \<Rightarrow> bool" where
  "guarded origin step u rq \<longleftrightarrow> keeps_secret u rq
     \<and> (\<forall>h. step\<^sup>*\<^sup>* rq h \<and> rq_bearer h \<noteq> None \<longrightarrow>
          rq_bearer h = rq_bearer rq \<and> rq_form h = [] \<and> hc_https_only (rq_config h)
          \<and> (h = rq \<or> is_https_url (rq_url h)) \<and> origin (rq_url h) = origin (rq_url rq))"

definition unguarded_form :: "(http_request \<Rightarrow> http_request \<Rightarrow> bool) \<Rightarrow> http_request \<Rightarrow> bool" where
  "unguarded_form step rq \<longleftrightarrow> (\<exists>h. step\<^sup>*\<^sup>* rq h \<and> rq_form h = rq_form rq \<and> \<not> is_https_url (rq_url h))"

lemma keeps_secret_requests:
  "credentials_from_env vars = Ok creds \<Longrightarrow> keeps_secret u (token_request creds)"
  "keeps_secret u (publish_request t u p i b)" "keeps_secret u (allocate_request t u p)"
  by (simp_all add: keeps_secret_def token_request_def publish_request_def allocate_request_def request_def
      hardened_def credentials_https)

lemma keeps_guarded:
  assumes "redirect_law origin step" "keeps_secret u rq" shows "guarded origin step u rq"
  unfolding guarded_def
proof (intro conjI allI impI assms(2); elim conjE)
  fix h assume h: "step\<^sup>*\<^sup>* rq h" "rq_bearer h \<noteq> None"
  note r = redirects [OF assms(1) h(1)]
  from r h(2) have b: "rq_bearer h = rq_bearer rq" "origin (rq_url h) = origin (rq_url rq)" by blast+
  with h(2) assms(2) have k: "rq_form rq = []" "hc_https_only (rq_config rq)" unfolding keeps_secret_def by simp_all
  from b show "rq_bearer h = rq_bearer rq" "origin (rq_url h) = origin (rq_url rq)" .
  from r k show "rq_form h = []" "hc_https_only (rq_config h)" "h = rq \<or> is_https_url (rq_url h)" by metis+
qed

lemma secretless_redirects:
  "redirect_law origin step \<Longrightarrow> secretless rq \<Longrightarrow> step\<^sup>*\<^sup>* rq h \<Longrightarrow> secretless h"
  using redirects [of origin step rq h] unfolding secretless_def by metis

lemma registry_call_guarded:
  assumes "redirect_law origin step" "registry_call c vars web tr mk sent" "\<And>t. keeps_secret u (mk t)"
  shows "list_all (guarded origin step u) sent"
  using assms(2) keeps_guarded [OF assms(1)] keeps_secret_requests(1) assms(3)
  by (auto simp: registry_call_def)

text \<open>The token request is sent by a client that is not restricted to HTTPS, so a redirect may carry
  its form to a URL of any scheme.\<close>

lemma token_form_redirected:
  "\<exists>step. redirect_law origin step \<and> unguarded_form step (token_request creds)"
proof (intro exI conjI)
  let ?step = "\<lambda>rq h. rq = token_request creds \<and> h = rq\<lparr>rq_url := ''http://x''\<rparr>"
  show "redirect_law origin ?step"
    by (simp add: redirect_law_def token_request_def request_def token_config_def)
  have "?step\<^sup>*\<^sup>* (token_request creds) (token_request creds\<lparr>rq_url := ''http://x''\<rparr>)" by blast
  then show "unguarded_form ?step (token_request creds)"
    unfolding unguarded_form_def
    by (intro exI [of _ "token_request creds\<lparr>rq_url := ''http://x''\<rparr>"]) (simp add: is_https_url_def)
qed

text \<open>C17: where secrets go, redirects that the HTTP clients follow on their own included. Publishing a
  log and allocating a place hand the bearer token only to a client restricted to HTTPS, for a URL
  under the identifier interface of the registry, and every request of the redirects that follow
  carries this token only to the same origin, over HTTPS; the client secret and refresh token are
  handed over only for the HTTPS token URL. There the guarantee ends: the token client is not
  restricted, so that the redirects it follows may carry both to a URL that is not HTTPS. Fetching
  a log or trust statements sends no secret at all.\<close>

theorem secrets_kept:
  assumes "redirect_law origin step"
  shows "keeps (list_all (guarded origin step u)) (publish_entry c vars web u p i b)
   \<and> keeps (list_all (guarded origin step u)) (allocate_did_url c vars web p u)
   \<and> keeps (list_all (\<lambda>rq. \<forall>h. step\<^sup>*\<^sup>* rq h \<longrightarrow> secretless h)) (client_fetch_log web client d)
   \<and> keeps (list_all (\<lambda>rq. \<forall>h. step\<^sup>*\<^sup>* rq h \<longrightarrow> secretless h)) (fetch_trust_statements c web client d)
   \<and> (\<exists>step. redirect_law origin step \<and> unguarded_form step (token_request creds))"
proof (intro conjI token_form_redirected)
  note guarded = registry_call_guarded [OF assms] and free = secretless_redirects [OF assms]
  show "keeps (list_all (guarded origin step u)) (publish_entry c vars web u p i b)"
    unfolding keeps_def
  proof (intro allI impI)
    fix tr assume "list_all (guarded origin step u) tr"
    then show "list_all (guarded origin step u) (snd (publish_entry c vars web u p i b tr))"
      using publish_entry_sends [of c vars web u p i b tr] guarded keeps_secret_requests(2)
      by (cases "publish_entry c vars web u p i b tr") fastforce
  qed
  show "keeps (list_all (guarded origin step u)) (allocate_did_url c vars web p u)"
    unfolding keeps_def
  proof (intro allI impI)
    fix tr assume "list_all (guarded origin step u) tr"
    then show "list_all (guarded origin step u) (snd (allocate_did_url c vars web p u tr))"
      using allocate_did_url_sends [of c vars web p u tr] guarded keeps_secret_requests(3)
      by (cases "allocate_did_url c vars web p u tr") fastforce
  qed
  have get: "step\<^sup>*\<^sup>* (request cfg m x) h \<Longrightarrow> secretless h" for cfg m x h
    by (rule free) (simp_all add: secretless_def request_def)
  show "keeps (list_all (\<lambda>rq. \<forall>h. step\<^sup>*\<^sup>* rq h \<longrightarrow> secretless h)) (client_fetch_log web client d)"
    by (auto simp: keeps_def client_fetch_log_def fetch_log_at_url_def send_checked_accepted get
        io_then_def split: sum.split)
  show "keeps (list_all (\<lambda>rq. \<forall>h. step\<^sup>*\<^sup>* rq h \<longrightarrow> secretless h)) (fetch_trust_statements c web client d)"
    by (auto simp: keeps_def fetch_trust_statements_def http_send_def get io_then_def io_map_err_def
        split: sum.split)
qed

section \<open>What was published\<close>

text \<open>
  What is known when the SWIYU registry says yes: with the credentials of the environment a token
  was granted, and the request with that token, of the log or for a place, was answered with
  success.
\<close>

definition log_taken ::
  "codecs \<Rightarrow> process_env \<Rightarrow> web \<Rightarrow> requests \<Rightarrow> string \<Rightarrow> string \<Rightarrow> string \<Rightarrow> string \<Rightarrow> bool" where
  "log_taken c vars web tr u p i b \<longleftrightarrow>
     (\<exists>creds token reply. credentials_from_env vars = Ok creds \<and> granted c web tr creds token
       \<and> snd (publish_entry c vars web u p i b tr) = tr @ [token_request creds, publish_request token u p i b]
       \<and> web_answer web (tr @ [token_request creds]) (publish_request token u p i b) = Ok reply
       \<and> is_success (re_status reply))"

definition place_given ::
  "codecs \<Rightarrow> process_env \<Rightarrow> web \<Rightarrow> requests \<Rightarrow> string \<Rightarrow> string \<Rightarrow> allocation \<Rightarrow> bool" where
  "place_given c vars web tr p u al \<longleftrightarrow>
     (\<exists>creds token reply. credentials_from_env vars = Ok creds \<and> granted c web tr creds token
       \<and> web_answer web (tr @ [token_request creds]) (allocate_request token u p) = Ok reply
       \<and> is_success (re_status reply) \<and> allocated c reply = Ok al)"

lemma publish_taken:
  assumes "fst (publish_entry c vars web u p i b tr) = Ok ()"
  shows "log_taken c vars web tr u p i b"
proof -
  obtain tr' where run: "publish_entry c vars web u p i b tr = (Ok (), tr')"
    using assms by (cases "publish_entry c vars web u p i b tr") simp
  from publish_entry_sends [OF run] obtain creds token reply where "credentials_from_env vars = Ok creds"
      "granted c web tr creds token" "tr' = tr @ [token_request creds, publish_request token u p i b]"
      "web_answer web (tr @ [token_request creds]) (publish_request token u p i b) = Ok reply"
      "is_success (re_status reply)"
    by (auto simp: registry_call_def is_ok_iff ok_iff)
  with run show ?thesis unfolding log_taken_def by auto
qed

lemma allocate_given:
  assumes "fst (allocate_did_url c vars web p u tr) = Ok al"
  shows "place_given c vars web tr p u al"
proof -
  obtain tr' where "allocate_did_url c vars web p u tr = (Ok al, tr')"
    using assms by (cases "allocate_did_url c vars web p u tr") simp
  from allocate_did_url_sends [OF this] obtain sent where
      "registry_call c vars web tr (\<lambda>t. allocate_request t u p) sent" "length sent = 2"
      "and_then (accepted (web_answer web (tr @ [sent ! 0]) (sent ! 1))) (allocated c) = Ok al"
    by auto
  then obtain creds token reply where "credentials_from_env vars = Ok creds" "granted c web tr creds token"
      "web_answer web (tr @ [token_request creds]) (allocate_request token u p) = Ok reply"
      "is_success (re_status reply)" "allocated c reply = Ok al"
    by (auto simp: registry_call_def ok_iff)
  then show ?thesis unfolding place_given_def by blast
qed

interpretation swiyu: log_registry "swiyu_registry c vars web tr" "log_taken c vars web tr"
    "place_given c vars web tr" for c vars web tr
  by unfold_locales (simp_all add: swiyu_registry_def ok_iff publish_taken allocate_given)

interpretation swiyu_new: log_registry "swiyu_creation c vars web tr"
    "\<lambda>u p. log_taken c vars web (snd (allocate_did_url c vars web p u tr)) u p"
    "place_given c vars web tr" for c vars web tr
  by unfold_locales (simp_all add: swiyu_creation_def swiyu_registry_def ok_iff publish_taken allocate_given)

text \<open>
  A new DID: its log is taken by the registry that gave the place, under the identifier given, in
  requests that come after those of the allocation.
\<close>

lemma creation_published:
  assumes "create_source (swiyu_creation c vars web tr) args = Ok (url, alloc)"
    "create_publish (swiyu_creation c vars web tr) args alloc line = Ok (Some loc)"
  shows "\<exists>p u al. place_given c vars web tr p u al \<and> loc = al_url al \<and> url = al_url al
    \<and> log_taken c vars web (snd (allocate_did_url c vars web p u tr)) u p (al_identifier al) (trim_end line)"
  using swiyu_new.creation_stored [OF assms] by blast

text \<open>C20: what was published. If an update reports that its log was published, then with the
  credentials of the environment a token was granted, and a PUT of the whole updated log, without
  its trailing white space, to the identifier the DID names was answered with success; the URL
  that is reported is the one the DID resolves to.\<close>

theorem published_update_sent:
  assumes "publish_update env (swiyu_registry c vars web tr) np pid url d t log w s = (Inr (Some (loc, body)), s')"
  shows "\<exists>p u i creds token reply. pid = Some p \<and> url = Some u \<and> extract_registry_identifier d = Some i
    \<and> credentials_from_env vars = Ok creds \<and> granted c web tr creds token
    \<and> snd (publish_entry c vars web u p i (trim_end log) tr)
        = tr @ [token_request creds, publish_request token u p i (trim_end log)]
    \<and> web_answer web (tr @ [token_request creds]) (publish_request token u p i (trim_end log)) = Ok reply
    \<and> is_success (re_status reply) \<and> loc = did_log_url d \<and> body = trim_end log"
  using swiyu.update_stored [OF assms] unfolding log_taken_def by blast

section \<open>Pages\<close>

text \<open>The page a body stands for, written out.\<close>

definition entry_json :: "entry_summary \<Rightarrow> json" where
  "entry_json e = json_obj [(''id'', JString (es_id e)), (''createdAt'', JString (es_created_at e)),
     (''updatedAt'', JString (es_updated_at e))]"

definition json_u32 :: "u32 \<Rightarrow> json" where "json_u32 n = JNumber (PosInt (ucast n))"

definition page_json :: "entries_page \<Rightarrow> json" where
  "page_json p = json_obj [(''content'', JArray (map entry_json (ep_entries p))), (''number'', json_u32 (ep_page p)),
     (''size'', json_u32 (ep_size p)), (''totalElements'', JNumber (PosInt (ep_total_elements p))),
     (''totalPages'', json_u32 (ep_total_pages p))]"

lemma entry_json_back: "decode_entry (entry_json e) = Ok e"
  by (cases e) (simp add: decode_entry_def entry_json_def read_string_def json_obj_def)

lemma entries_json_back: "decode_entries i (map entry_json es) = Ok es"
  by (induction es arbitrary: i) (simp_all add: entry_json_back)

lemma u32_u64:
  "unat (ucast (n :: u32) :: u64) = unat n" "ucast (ucast n :: u64) = n" "unat n < 2 ^ 32"
proof -
  show lt: "unat n < 2 ^ 32" using unsigned_less [of n, where ?'a = nat] by simp
  then show u: "unat (ucast n :: u64) = unat n" by (simp add: unsigned_ucast_eq unsigned_take_bit_eq take_bit_nat_eq_self)
  show "ucast (ucast n :: u64) = n"
    by (rule word_unat_eq_iff [THEN iffD2]) (use lt in \<open>simp add: unsigned_ucast_eq unsigned_take_bit_eq take_bit_nat_eq_self u\<close>)
qed

lemma u64_u32: "unat (m :: u64) < 2 ^ 32 \<Longrightarrow> ucast (ucast m :: u32) = m"
  by (rule word_unat_eq_iff [THEN iffD2]) (simp add: unsigned_ucast_eq unsigned_take_bit_eq take_bit_nat_eq_self)

lemma read_u32_back:
  "json_get v key = Some (json_u32 n) \<Longrightarrow> read_u32 v key = Ok n"
  by (simp add: read_u32_def read_u64_def json_u32_def u32_u64 u32_u64(3) [simplified])

text \<open>The first entry that does not decode gives the error, with its position.\<close>

lemma decode_entries_ok: "decode_entries i vs = Ok es \<longleftrightarrow> list_all2 (\<lambda>v e. decode_entry v = Ok e) vs es"
  by (induction vs arbitrary: i es) (auto simp: ok_iff list_all2_Cons1)

lemma decode_entry_err: "decode_entry v = Inl e \<Longrightarrow> \<exists>m. e = REDecode m"
  by (auto simp: decode_entry_def read_string_def err_iff split: option.splits)

lemma decode_entries_err:
  "decode_entries i vs = Inl e \<Longrightarrow>
     \<exists>k m. k < length vs \<and> list_all (\<lambda>x. is_ok (decode_entry x)) (take k vs)
       \<and> decode_entry (vs ! k) = Err (REDecode m)
       \<and> e = REDecode (''content['' @ show_nat (i + k) @ '']: '' @ m)"
proof (induction vs arbitrary: i)
  case (Cons v vs)
  show ?case
  proof (cases "decode_entry v")
    case (Inl d)
    then obtain m where "d = REDecode m" using decode_entry_err by blast
    with Inl Cons.prems show ?thesis by (intro exI [of _ 0]) simp
  next
    case (Inr x)
    then have "decode_entries (i + 1) vs = Inl e" using Cons.prems by (auto simp: err_iff)
    from Cons.IH [OF this] obtain k m where k: "k < length vs" "list_all (\<lambda>x. is_ok (decode_entry x)) (take k vs)"
      "decode_entry (vs ! k) = Err (REDecode m)" "e = REDecode (''content['' @ show_nat (i + 1 + k) @ '']: '' @ m)"
      by blast
    with Inr show ?thesis by (intro exI [of _ "Suc k"] exI [of _ m]) simp
  qed
qed simp

text \<open>Pages of status lists. The counters and entries of every page are read back from its JSON
  form; a page is accepted exactly if every member of the content is an entry with its three texts
  and the four counters are integers that fit, 32 bits for the number, size and total of pages and
  64 for the total of elements; and a malformed entry is reported at its position, the first one
  if there are several.\<close>

theorem decode_page_spec:
  "decode_page (page_json pg) = Ok pg
   \<and> (decode_page body = Ok pg \<longleftrightarrow>
       (\<exists>vs. json_get body ''content'' = Some (JArray vs)
          \<and> list_all2 (\<lambda>v e. decode_entry v = Ok e) vs (ep_entries pg))
       \<and> json_get body ''number'' = Some (json_u32 (ep_page pg)) \<and> json_get body ''size'' = Some (json_u32 (ep_size pg))
       \<and> json_get body ''totalElements'' = Some (JNumber (PosInt (ep_total_elements pg)))
       \<and> json_get body ''totalPages'' = Some (json_u32 (ep_total_pages pg)))
   \<and> ((\<exists>e. decode_entries 0 vs = Err e) \<longleftrightarrow>
       (\<exists>k m. k < length vs \<and> list_all (\<lambda>x. is_ok (decode_entry x)) (take k vs)
          \<and> decode_entries 0 vs = Err (REDecode (''content['' @ show_nat k @ '']: '' @ m))
          \<and> decode_entry (vs ! k) = Err (REDecode m)))"
proof (intro conjI)
  show "decode_page (page_json pg) = Ok pg"
    by (simp add: decode_page_def page_json_def json_obj_def entries_json_back read_u32_back read_u64_def)
  have u32: "read_u32 body key = Ok n \<longleftrightarrow> json_get body key = Some (json_u32 n)" for key n
  proof
    assume "read_u32 body key = Ok n"
    then obtain x m where x: "json_get body key = Some x" "as_u64 x = Some m" "unat m < 2 ^ 32" "n = ucast m"
      by (auto simp: read_u32_def read_u64_def ok_iff split: if_split_asm option.splits)
    have "ucast (ucast m :: u32) = m"
      using x(3) by (rule u64_u32)
    moreover have "x = JNumber (PosInt m)" using x(2) by (cases x rule: as_u64.cases) auto
    ultimately show "json_get body key = Some (json_u32 n)" using x(1,4) by (simp add: json_u32_def)
  qed (rule read_u32_back)
  have u64: "read_u64 body key = Ok n \<longleftrightarrow> json_get body key = Some (JNumber (PosInt n))" for key n
  proof -
    have "as_u64 x = Some n \<longleftrightarrow> x = JNumber (PosInt n)" for x by (cases x rule: as_u64.cases) auto
    then show ?thesis by (auto simp: read_u64_def ok_iff split: option.splits)
  qed
  have arr: "as_array x = Some vs \<longleftrightarrow> x = JArray vs" for x vs by (cases x) auto
  show "decode_page body = Ok pg \<longleftrightarrow>
       (\<exists>vs. json_get body ''content'' = Some (JArray vs)
          \<and> list_all2 (\<lambda>v e. decode_entry v = Ok e) vs (ep_entries pg))
       \<and> json_get body ''number'' = Some (json_u32 (ep_page pg)) \<and> json_get body ''size'' = Some (json_u32 (ep_size pg))
       \<and> json_get body ''totalElements'' = Some (JNumber (PosInt (ep_total_elements pg)))
       \<and> json_get body ''totalPages'' = Some (json_u32 (ep_total_pages pg))"
    by (cases pg) (auto simp: decode_page_def ok_iff u32 u64 arr decode_entries_ok)
  show "(\<exists>e. decode_entries 0 vs = Err e) \<longleftrightarrow>
       (\<exists>k m. k < length vs \<and> list_all (\<lambda>x. is_ok (decode_entry x)) (take k vs)
          \<and> decode_entries 0 vs = Err (REDecode (''content['' @ show_nat k @ '']: '' @ m))
          \<and> decode_entry (vs ! k) = Err (REDecode m))"
    using decode_entries_err [of 0 vs] by fastforce
qed
section \<open>Instance\<close>

text \<open>A network that grants a token, allocates the place \<open>https://example.com/a/did.jsonl\<close> and accepts all logs.\<close>

definition net_codecs :: codecs where
  "net_codecs = plain_codecs
     \<lparr>json_from_str := (\<lambda>t. Ok (json_obj [(''access_token'', JString t)])),
      json_from_slice := (\<lambda>b. Ok (json_obj [(''identifierRegistryUrl'', JString (bytes_text b))]))\<rparr>"

definition net_web :: web where
  "net_web = \<lparr>web_build = (\<lambda>_. Ok ()), web_answer = (\<lambda>tr rq. Ok \<lparr>re_status = 200, re_text = Ok ''t'',
     re_bytes = Ok (as_bytes (log_place ''example.com'' [''a'']))\<rparr>)\<rparr>"

definition net_vars :: process_env where
  "net_vars n = Some (if n = ''SWIYU_TOKEN_URL'' then ''https://t'' else ''s'')"

definition net_creds :: oauth_credentials where
  "net_creds = \<lparr>oc_token_url = ''https://t'', oc_client_id = ''s'', oc_client_secret = ''s'', oc_refresh_token = ''s''\<rparr>"

definition net_did :: did where
  "net_did = \<lparr>did_method = Tdw, did_scid = Some ''x'', did_domain = ''example.com'', did_path = Some ''a''\<rparr>"

lemma net_credentials: "credentials_from_env net_vars = Ok net_creds"
proof -
  have "trim ''s'' \<noteq> []" "trim ''https://t'' \<noteq> []" by code_simp+
  moreover have "is_https_url ''https://t''" by code_simp
  ultimately show ?thesis
    by (simp add: credentials_from_env_def env_var_def net_vars_def net_creds_def)
qed

lemma net_grant: "refresh_token_grant net_codecs net_web net_creds tr = (Inr ''t'', tr @ [token_request net_creds])"
  by (simp add: grant_ok granted_def net_web_def net_codecs_def parse_access_token_def is_success_def json_obj_def)

lemma net_client: "identifier_client_new net_web u = Ok (with_http u (hardened ''swiyu-identifier-registry-client/''))"
  by (simp add: identifier_client_new_def client_new_def net_web_def)

lemma net_accepted: "\<exists>r. accepted (web_answer net_web tr rq) = Ok r \<and> re_bytes r = Ok (as_bytes (log_place ''example.com'' [''a'']))"
  by (simp add: accepted_def is_success_def net_web_def)

theorem allocated_did_resolves_witness:
  "did_log_url net_did = ''https://example.com/a/did.jsonl''
   \<and> (\<exists>al tr'. allocate_did_url net_codecs net_vars net_web ''p'' ''https://r'' [] = (Inr al, tr')
        \<and> extract_registry_identifier net_did = Some (al_identifier al))"
proof -
  let ?place = "log_place ''example.com'' [''a'']"
  have segs: "plain_segments [''a'']" "names_place ?place ''example.com'' [''a'']"
    by (simp_all add: plain_segments_def names_place_def)
  obtain al tr' where run: "allocate_did_url net_codecs net_vars net_web ''p'' ''https://r'' [] = (Inr al, tr')"
      "al_url al = ?place"
  proof -
    obtain r where r: "accepted (web_answer net_web [token_request net_creds] (allocate_request ''t'' ''https://r'' ''p'')) = Ok r"
      "re_bytes r = Ok (as_bytes ?place)"
      using net_accepted by blast
    have "allocate_did net_codecs net_web (with_http ''https://r'' (hardened ''swiyu-identifier-registry-client/''))
        ''t'' ''p'' [token_request net_creds]
      = (Ok \<lparr>al_url = ?place, al_identifier = ''a''\<rparr>, [token_request net_creds, allocate_request ''t'' ''https://r'' ''p''])"
      using r place_identifier [OF segs]
      by (simp add: allocate_did_def send_checked_accepted with_http_def identifier_entries_def
          allocate_request_def decode_json_def response_json_def read_string_def)
        (simp add: net_codecs_def json_obj_def)
    then show ?thesis
      using that by (simp add: allocate_did_url_def net_credentials net_grant net_client)
  qed
  have comps: "url_to_did_components ?place = Ok (''example.com'', Some ''a'')"
    using place_components [OF segs(1) _ _ segs(2)] by simp
  have d: "build_did TDW03 (Some ''x'') ''example.com'' (Some ''a'') = Ok net_did"
    by (simp add: try_new_tdw_def validate_and_build_def is_valid_domain_def is_valid_path_def net_did_def)
  have "did_log_url net_did = al_url al \<and> extract_registry_identifier net_did = Some (al_identifier al)"
    using allocated_did_resolves [OF run(1) segs(2) [folded run(2)] segs(1) _ _ _ comps [folded run(2)] d] run(2) by simp
  with run show ?thesis by (auto simp: log_place_def)
qed

text \<open>Redirects that stay on the host, with the token, or go elsewhere without it.\<close>

definition net_origin :: "string \<Rightarrow> string option" where
  "net_origin url = Some (take 9 url)"

definition net_step :: "http_request \<Rightarrow> http_request \<Rightarrow> bool" where
  "net_step rq h \<longleftrightarrow> (h = rq\<lparr>rq_url := ''https://r/moved''\<rparr> \<and> net_origin (rq_url rq) = net_origin ''https://r''
     \<or> h = rq\<lparr>rq_url := ''https://x'', rq_bearer := None\<rparr>)"

theorem secrets_kept_witness:
  "redirect_law net_origin net_step
   \<and> list_all (guarded net_origin net_step ''https://r'')
       [token_request net_creds, allocate_request ''t'' ''https://r'' ''p'']"
proof (intro conjI)
  have urls: "is_https_url ''https://r/moved''" "is_https_url ''https://x''"
    "net_origin ''https://r/moved'' = net_origin ''https://r''"
    by code_simp+
  show law: "redirect_law net_origin net_step" using urls by (auto simp: redirect_law_def net_step_def)
  have "snd (allocate_did_url net_codecs net_vars net_web ''p'' ''https://r'' [])
      = [token_request net_creds, allocate_request ''t'' ''https://r'' ''p'']"
    by (simp add: allocate_did_url_def net_credentials net_grant net_client allocate_did_def send_checked_runs
        with_http_def identifier_entries_def allocate_request_def io_then_def io_map_err_def)
      (simp add: net_web_def is_success_def)
  then show "list_all (guarded net_origin net_step ''https://r'')
       [token_request net_creds, allocate_request ''t'' ''https://r'' ''p'']"
    using secrets_kept [OF law, THEN conjunct2, THEN conjunct1,
        of "''https://r''" net_codecs net_vars net_web "''p''", unfolded keeps_def, rule_format, of "[]"]
    by simp
qed

theorem published_update_sent_witness:
  "granted net_codecs net_web [] net_creds ''t''
   \<and> snd (publish_entry net_codecs net_vars net_web ''https://r'' ''p'' ''a'' (trim_end ''log'') [])
       = [token_request net_creds, publish_request ''t'' ''https://r'' ''p'' ''a'' (trim_end ''log'')]"
proof -
  let ?env = "text_env net_codecs plain_keys ''x''" let ?s = "plain_files {||} []"
  have i: "extract_registry_identifier net_did = Some ''a''"
    by (simp add: extract_registry_identifier_def net_did_def)
  have pub: "publish_log_entry net_web client ''t'' ''p'' ''a'' b tr = (Ok (), snd (publish_log_entry net_web client ''t'' ''p'' ''a'' b tr))"
    for client b tr
    by (simp add: publish_log_entry_def send_checked_accepted io_then_def)
      (simp add: accepted_def is_success_def net_web_def)
  have "fst (publish_entry net_codecs net_vars net_web ''https://r'' ''p'' ''a'' (trim_end ''log'') []) = Ok ()"
    by (simp add: publish_entry_def net_credentials net_grant net_client io_map_err_run [OF pub])
  then have "publish_update ?env (swiyu_registry net_codecs net_vars net_web []) False (Some ''p'') (Some ''https://r'')
      net_did ''d'' ''log'' None ?s = (Inr (Some (did_log_url net_did, trim_end ''log'')), ?s)"
    by (simp add: publish_update_def require_registry_credentials_def i swiyu_registry_def)
  from published_update_sent [OF this] show ?thesis
    by (auto simp: i net_credentials granted_def net_web_def net_codecs_def parse_access_token_def json_obj_def)
qed

end
