(* ===== verification/FileTrees.thy ===== *)
theory FileTrees
  imports Commands
begin

text \<open>
  Well-formed file trees: the directory of every file and of every directory exists, and nothing
  is a file and a directory at once. Every operation the tool uses keeps trees well formed, whether
  it succeeds or fails; and which paths an operation may change at all.
\<close>

section \<open>Well-formed trees\<close>

definition wf_files :: "files \<Rightarrow> bool" where
  "wf_files s \<longleftrightarrow>
     [] |\<in>| fs_dirs s
   \<and> (\<forall>q. q |\<in>| fs_dirs s \<and> q \<noteq> [] \<longrightarrow> butlast q |\<in>| fs_dirs s)
   \<and> (\<forall>q. fmlookup (fs_files s) q \<noteq> None \<longrightarrow> q |\<notin>| fs_dirs s \<and> butlast q |\<in>| fs_dirs s)"

lemma wf_filesD:
  assumes "wf_files s"
  shows "[] |\<in>| fs_dirs s" "q |\<in>| fs_dirs s \<Longrightarrow> butlast q |\<in>| fs_dirs s"
    "fmlookup (fs_files s) q = Some f \<Longrightarrow> q |\<notin>| fs_dirs s \<and> butlast q |\<in>| fs_dirs s"
  using assms by (cases "q = []"; auto simp: wf_files_def)+

text \<open>All directories above a directory, and above a file, exist.\<close>

lemma wf_dir_prefix:
  assumes "wf_files s"
  shows "q |\<in>| fs_dirs s \<Longrightarrow> prefix p q \<Longrightarrow> p |\<in>| fs_dirs s"
proof (induction q rule: rev_induct)
  case (snoc x xs)
  then show ?case using wf_filesD(2) [OF assms snoc.prems(1)] by auto
qed (use wf_filesD(1) [OF assms] in simp)

lemma wf_file_prefix:
  assumes "wf_files s" "fmlookup (fs_files s) q = Some f" "strict_prefix p q"
  shows "p |\<in>| fs_dirs s"
proof -
  have "prefix p (butlast q)" using assms(3) by (cases q rule: rev_cases) (auto simp: strict_prefix_def)
  then show ?thesis using wf_dir_prefix [OF assms(1)] wf_filesD(3) [OF assms(1,2)] by blast
qed

lemma wf_empty_below:
  assumes "wf_files s" "\<not> path_exists s p" "prefix p q"
  shows "fmlookup (fs_files s) q = None"
proof (rule ccontr)
  assume "fmlookup (fs_files s) q \<noteq> None"
  then obtain f where f: "fmlookup (fs_files s) q = Some f" by blast
  then have "p \<noteq> q" using assms(2) by (cases f) (auto simp: path_exists_def)
  with assms(3) have "strict_prefix p q" by (simp add: strict_prefix_def)
  with wf_file_prefix [OF assms(1) f] assms(2) show False by (simp add: path_exists_def path_is_dir_def)
qed

section \<open>Operations keep trees well formed\<close>

lemma wf_open_and_write [keeps_intro]: "keeps wf_files (open_and_write mode p t)"
  by (auto simp: keeps_def wf_files_def open_and_write_def Let_def path_is_dir_def split: option.split)

lemma wf_fs_write [keeps_intro]: "keeps wf_files (fs_write p t)"
  unfolding fs_write_def by (rule wf_open_and_write)

lemma wf_create_dirs:
  "create_dirs d ns s = (r, s') \<Longrightarrow> wf_files s \<Longrightarrow> d |\<in>| fs_dirs s \<Longrightarrow> wf_files s'"
proof (induction d ns s arbitrary: r s' rule: create_dirs.induct)
  case (2 d n ns s)
  let ?p = "d @ [n]"
  show ?case
  proof (cases "path_is_dir s ?p")
    case True
    with 2 show ?thesis by (simp add: Let_def path_is_dir_def)
  next
    case False
    show ?thesis
    proof (cases "refusal (fs_refuses s ?p) = None \<and> fmlookup (fs_files s) ?p = None")
      case True
      let ?s = "s\<lparr>fs_dirs := finsert ?p (fs_dirs s)\<rparr>"
      have "wf_files ?s" using "2.prems"(2,3) True by (auto simp: wf_files_def)
      moreover have "create_dirs ?p ns ?s = (r, s')"
        using "2.prems"(1) True \<open>\<not> path_is_dir s ?p\<close> by (simp add: Let_def)
      ultimately show ?thesis
        using "2.IH"(2) [OF refl \<open>\<not> path_is_dir s ?p\<close>] True by simp
    next
      case False
      with "2.prems" \<open>\<not> path_is_dir s ?p\<close> show ?thesis
        by (auto simp: Let_def split: option.split_asm if_split_asm)
    qed
  qed
qed simp

lemma wf_create_dir_all [keeps_intro]: "keeps wf_files (create_dir_all p)"
proof -
  have "wf_files s \<Longrightarrow> wf_files (snd (create_dir_all p s))" for s
    using wf_create_dirs [of "[]" p s] wf_filesD(1) [of s]
    by (cases "create_dir_all p s") (simp add: create_dir_all_def)
  then show ?thesis by (simp add: keeps_def)
qed

lemma wf_remove_dir_all: "p \<noteq> [] \<Longrightarrow> keeps wf_files (remove_dir_all p)"
  by (auto simp: keeps_def wf_files_def remove_dir_all_def below_iff split: option.split
      dest: prefix_order.trans [OF _ prefixeq_butlast])

text \<open>Replacing a file through its temporary file.\<close>

lemma tmp_path_dir: "p \<noteq> [] \<Longrightarrow> butlast (tmp_path p) = butlast p"
  by (simp add: tmp_path_def)

lemma wf_rename_tmp: "keeps wf_files (fs_rename (tmp_path p) p)"
proof (cases "p = []")
  case True
  then show ?thesis
    by (auto simp: keeps_def fs_rename_def path_is_dir_def wf_filesD(1) split: option.split)
next
  case False
  have "wf_files (snd (fs_rename (tmp_path p) p s))" if wf: "wf_files s" for s
    using wf wf_filesD(3) [OF wf, of "tmp_path p"]
    by (auto simp: wf_files_def fs_rename_def path_is_dir_def tmp_path_dir [OF False] split: option.split)
  then show ?thesis by (simp add: keeps_def)
qed

lemma wf_write_atomic [keeps_intro]: "keeps wf_files (write_atomic p t)"
  unfolding write_atomic_def by (intro keeps_intro wf_rename_tmp)

lemma wf_key_files [keeps_intro]:
  "keeps wf_files (write_private_key_file p t)" "keeps wf_files (write_private_key_ecdsa ops k p)"
  "keeps wf_files (write_private_key_eddsa ops k' p)" "keeps wf_files (write_public_key_ecdsa ops pk p)"
  "keeps wf_files (write_public_key_eddsa ops pk' p)"
  unfolding write_private_key_file_def write_private_key_ecdsa_def write_private_key_eddsa_def
    write_public_key_ecdsa_def write_public_key_eddsa_def
  by (intro keeps_intro)+

lemma wf_snapshot [keeps_intro]: "keeps wf_files (write_snapshot ops st d)"
  unfolding write_snapshot_def Let_def by (intro keeps_intro)

lemma wf_add_version [keeps_intro]: "keeps wf_files (add_version ops e st)"
  unfolding add_version_def Let_def by (intro keeps_intro)

lemma wf_store_commit [keeps_intro]: "keeps wf_files (store_commit ops root st d)"
  unfolding store_commit_def Let_def by (intro keeps_intro)

lemma wf_write_log [keeps_intro]: "keeps wf_files (write_log t src dest force)"
  by (auto simp: write_log_def intro!: keeps_intro split: option.split)

lemma write_pending_shape:
  "write_pending cwd t ns s = (Err (WLPendingExhausted MAX_PENDING_INDEX), s)
   \<or> (\<exists>n. \<not> path_exists s (pending_path cwd n) \<and> write_pending cwd t ns s
        = io_then (io_map_err (WLWriteOutput (pending_path cwd n)) (fs_write (pending_path cwd n) t))
            (\<lambda>_. io_ok (pending_path cwd n)) s)"
  unfolding write_pending_find by (auto simp: find_Some_iff split: option.split)

lemma wf_write_pending_log [keeps_intro]: "keeps wf_files (write_pending_log cwd t)"
proof -
  have "keeps wf_files (io_then (io_map_err g (fs_write p t)) (\<lambda>_. io_ok x))" for g p x
    by (intro keeps_intro)
  then show ?thesis
    unfolding keeps_def write_pending_log_def
    using write_pending_shape [of cwd t "[1..<Suc MAX_PENDING_INDEX]"] by (metis snd_conv)
qed

end
