(* ===== verification/DidEnd.thy ===== *)
theory DidEnd
  imports DidHistory FileTrees
begin

text \<open>
  The end of a DID: from every history of creations and rotations a deactivation succeeds where
  the log can be written, and nothing follows it. The deactivated log verifies, no
  continuation of it does, and the tool refuses to deactivate it again.
\<close>

section \<open>Reading the log back\<close>

lemma verified_loads:
  assumes "read_to_string p s = Ok t" "log_from_jsonl (env_codecs env) t = Ok log" "log \<noteq> []"
    and "verify_log (env_codecs env) (env_verifiers env) log d = Ok ()" "wf_did d"
  shows "load_log env None (Some p) s
    = Ok \<lparr>ll_raw_lines = collect_raw_lines t, ll_log = log, ll_source_path = Some p\<rparr>"
proof -
  have "verify_loaded_log (env_codecs env) (env_verifiers env) log None = Ok ()"
    using assms(4) verified_current [OF assms(4,3)] verified_did [OF assms(4,5)] by (auto simp: verify_loaded_log_def split: list.split)
  with assms(1,2) show ?thesis by (simp add: load_log_ok)
qed

lemma history_formats:
  assumes "history_ok env p s d sts log"
  shows "log \<noteq> [] \<and> le_format (hd log) = TDW03 \<and> le_format (last log) = TDW03"
proof -
  have "log \<noteq> []" "\<forall>e \<in> set log. le_format e = TDW03"
    using assms by (auto simp: history_ok_def entry_holds_def list_all_iff)
  then show ?thesis by simp
qed

section \<open>A deactivation succeeds\<close>

text \<open>A file that can be replaced: neither it nor the temporary file beside it is refused or a directory.\<close>

definition replaceable :: "path \<Rightarrow> files \<Rightarrow> bool" where
  "replaceable p s \<longleftrightarrow> fs_refuses s p = None \<and> \<not> path_is_dir s p \<and> writable (tmp_path p) s"

lemma replaced:
  assumes "replaceable p s"
  shows "\<exists>s'. write_log t (Some p) None force s = (Inr (Some p), s')"
proof -
  obtain s1 where w: "wrote default_mode (tmp_path p) t s s1"
    using assms writable_writes(1) unfolding replaceable_def by blast
  then have "\<exists>s'. fs_rename (tmp_path p) p s1 = (Inr (), s')"
    using assms wrote_frame [OF w] by (auto simp: fs_rename_ok replaceable_def path_is_dir_def)
  with w show ?thesis
    by (auto simp: write_log_def write_atomic_def io_then_ok io_map_err_ok fs_write_ok io_ok_def)
qed

lemma deactivation_runs:
  assumes hist: "did_history env p s d sts" "bs58_law (env_codecs env)"
    and trimmed: "trim (did_to_string d) = did_to_string d" and place: "replaceable p s"
    and args: "da_did args = None" "da_input args = Some p" "da_out args = None" "da_no_publish args"
  shows "\<exists>out s'. cmd_deactivate env clk reg args s = (Inr out, s')"
proof -
  obtain log where ok: "history_ok env p s d sts log" using history_invariant [OF hist] by blast
  note ends = history_formats [OF ok]
  obtain mode t where f: "fmlookup (fs_files s) p = Some (mode, t)" "log_from_jsonl (env_codecs env) t = Ok log"
      and ver: "verify_log (env_codecs env) (env_verifiers env) log d = Ok ()" "wf_did d"
    using ok by (auto simp: history_ok_def)
  then have "read_to_string p s = Ok t" using place by (simp add: read_to_string_ok replaceable_def)
  then have load: "load_log env None (Some p) s
      = Ok \<lparr>ll_raw_lines = collect_raw_lines t, ll_log = log, ll_source_path = Some p\<rparr>"
    using verified_loads f(2) ends ver by blast
  note id = verified_did [OF ver]
  have cur: "current_did log = Some (did_to_string d)" using verified_current [OF ver(1)] ends by blast
  have held: "entry_holds (env_keys env) (did_entry env d) sts s" using ok by (simp add: history_ok_def)
  note latest = keys.latest_is [OF held]
  have tgt: "update_target env log s = Ok (did_to_string d, d, did_entry env d, of_nat (length sts), sk_authorized (last sts))"
    using cur id latest held_snapshot(1) [OF held latest] held_lookup [OF held [unfolded did_entry_def] trimmed]
    by (simp add: update_target_ok did_entry_def)
  obtain xs x where log: "log = xs @ [x]" using ends by (cases log rule: rev_cases) auto
  obtain doc where doc: "le_state x = StateValue doc" using verified_last [OF ver(1)] log by auto
  have last: "le_format x = TDW03" "lp_deactivated (le_parameters x) = None"
    using ends ok by (simp_all add: history_ok_def log)
  obtain i v where new: "signed_update (env_codecs env) (signer_of (env_keys env) (sk_authorized (last sts)))
      (le_version_id x) (2 + of_nat (length xs)) (compute_version_time clk (le_version_time x))
      deactivate_parameters doc = (i, v)"
    by fastforce
  obtain s' where w: "write_log (build_updated_log (collect_raw_lines t) (json_to_string (env_codecs env) v))
      (Some p) None (da_force args) s = (Inr (Some p), s')"
    using replaced [OF place] by blast
  show ?thesis
    by (simp add: cmd_deactivate_def Let_def args load tgt [unfolded log] log doc last new w publish_update_def)
qed

text \<open>C26: a DID can be deactivated. After any creation and rotations of a DID in the format did:tdw 0.3
  (\<open>--format tdw\<close>; for a did:webvh log the command fails with \<open>UnsupportedFormat\<close>), its log kept in one
  file, \<open>did deactivate --input\<close> with that file and \<open>--no-publish\<close> succeeds, if only the file can be
  replaced: the log in it loads and verifies, its DID is found in the key store with its latest
  keys, and no entry before it has deactivated the DID.\<close>

theorem history_can_end:
  assumes "did_history env p s d sts" "bs58_law (env_codecs env)"
    and "trim (did_to_string d) = did_to_string d" "replaceable p s"
    and "da_did args = None" "da_input args = Some p" "da_out args = None" "da_no_publish args"
  shows "\<exists>out s'. cmd_deactivate env clk reg args s = (Inr out, s')"
  by (rule deactivation_runs [OF assms])

section \<open>Nothing follows it\<close>

lemma deactivation_parts_of:
  assumes "cmd_deactivate env clk reg args s = (Inr out, s')"
  obtains l d k e where "deactivation_made env clk args s = Ok (l, d, k, e)" "ll_log l \<noteq> []"
  using assms by (rule cmd_deactivate_ok)

text \<open>C6: deactivation ends the life of a DID. After any history of a creation in the format did:tdw 0.3
  and rotations, when
  \<open>did deactivate\<close> succeeds on the file of the log, that file holds one more entry, the log
  verifies, no key is in force, and no continuation of it whatsoever verifies; the store
  still has every set of keys, and deactivating again is refused without a change.\<close>

theorem history_ends:
  assumes hist: "did_history env p s d sts" "bs58_law (env_codecs env)"
    and run: "cmd_deactivate env clk reg args s = (Inr out, s')"
      "da_did args = None" "da_input args = Some p" "da_out args = None"
    and law: "\<And>l d k e. deactivation_made env clk args s = Ok (l, d, k, e) \<Longrightarrow> entry_text_law (env_codecs env) e"
    and beside: "apart (ke_dir (did_entry env d)) p" "apart (ke_dir (did_entry env d)) (tmp_path p)"
  shows "\<exists>mode t log. fmlookup (fs_files s') p = Some (mode, t) \<and> log_from_jsonl (env_codecs env) t = Ok log
    \<and> length log = Suc (length sts) \<and> verify_log (env_codecs env) (env_verifiers env) log d = Ok ()
    \<and> announced [] log = []
    \<and> (\<forall>later d'. later \<noteq> [] \<longrightarrow> verify_log (env_codecs env) (env_verifiers env) (log @ later) d' \<noteq> Ok ())
    \<and> entry_holds (env_keys env) (did_entry env d) sts s'
    \<and> (\<forall>clk' reg'. cmd_deactivate env clk' reg' args s' = (Inl UPAlreadyDeactivated, s'))"
proof -
  let ?c = "env_codecs env"
  obtain log where ok: "history_ok env p s d sts log" using history_invariant [OF hist] by blast
  obtain l d' k e where made: "deactivation_made env clk args s = Ok (l, d', k, e)"
    using run(1) by (rule deactivation_parts_of)
  obtain doc t entry v where m: "load_log env None (Some p) s = Ok l"
      "update_target env (ll_log l) s = Ok (t, d', entry, v, k)"
    using deactivation_made_ok [OF made] run(2,3) by metis
  note reads = history_target [OF ok m]
  have tdw: "le_format (hd (ll_log l)) = TDW03" using history_formats [OF ok] by (simp add: reads(1))
  have key: "CHR ''#'' \<notin> set (key_multikey ?c (env_keys env) k)" "ed_sound (env_verifiers env) (signer_of (env_keys env) k)"
    using ok by (simp_all add: history_ok_def signing_laws_def reads(5))
  note parts = deactivation_parts [OF run(1) made tdw hist(2) key law [OF made], unfolded reads(1-3)]
  have saved: "uo_saved out = Some p" using parts(5) run(4) reads(2) by simp
  obtain mode body where f: "fmlookup (fs_files s') p = Some (mode, body)" "log_from_jsonl ?c body = Ok (log @ [e])"
    using parts(9) [OF saved] by blast
  have verified: "verify_log ?c (env_verifiers env) (log @ [e]) d = Ok ()"
    using parts(1) ok by (simp add: history_ok_def reads(5))
  have held: "entry_holds (env_keys env) (did_entry env d) sts s'"
  proof (rule entry_holds_cong)
    show "entry_holds (env_keys env) (did_entry env d) sts s" using ok by (simp add: history_ok_def)
    show "fs_refuses s' = fs_refuses s" by (rule parts(7))
    fix q assume "prefix (ke_dir (did_entry env d)) q"
    then have "q \<noteq> p \<and> q \<noteq> tmp_path p" using beside by (auto simp: apart_def)
    then show "same_at s s' q" using parts(6,8) saved by (simp add: same_at_def)
  qed
  have "refusal (fs_refuses s' p) = None"
    using m(1) parts(7) by (auto simp: load_log_ok read_to_string_ok)
  then have read: "read_to_string p s' = Ok body" using f(1) by (simp add: read_to_string_ok)
  have "load_log env (da_did args) (da_input args) s'
      = Ok \<lparr>ll_raw_lines = collect_raw_lines body, ll_log = log @ [e], ll_source_path = Some p\<rparr>"
    using verified_loads [OF read f(2) _ verified] ok run(2,3) by (simp add: history_ok_def)
  then have "cmd_deactivate env clk' reg' args s' = (Inl UPAlreadyDeactivated, s')" for clk' reg'
    by (rule deactivated_refused) (use parts(2,4) run(2) in simp_all)
  moreover have "verify_log ?c (env_verifiers env) ((log @ [e]) @ later) d'' \<noteq> Ok ()" if "later \<noteq> []" for later d''
    using parts(3) _ that by (rule no_keys_no_more) simp
  moreover have "length (log @ [e]) = Suc (length sts)" using ok by (simp add: history_ok_def)
  ultimately show ?thesis using f verified parts(3) held by blast
qed


section \<open>Instances\<close>

definition birth_deactivate :: deactivate_args where
  "birth_deactivate = sample_deactivate\<lparr>da_did := None, da_input := Some [''out''], da_out := None\<rparr>"

lemma birth_deactivate_args:
  "da_did birth_deactivate = None" "da_input birth_deactivate = Some [''out'']" "da_out birth_deactivate = None"
  "da_no_publish birth_deactivate"
  by (simp_all add: birth_deactivate_def sample_deactivate_def)

lemma born:
  obtains s where "did_history birth_env [''out''] s sample_did [cm_staged birth]" "replaceable [''out''] s"
    "\<exists>mode t. fmlookup (fs_files s) [''out''] = Some (mode, t) \<and> log_from_jsonl birth_codecs t = Ok [birth_entry]"
proof -
  obtain out s s1 e where run: "cmd_create birth_env birth_fresh sample_clock sample_registry sample_create
        (plain_files {|[], [''r'']|} []) = (Inr out, s)"
      and w: "wrote default_mode [''out''] (entry_line birth_codecs birth_entry @ newline) (plain_files {|[], [''r'']|} []) s1"
      and commit: "store_commit sample_keys [''r''] (cm_staged birth) sample_did s1 = (Inr e, s)"
    by (rule birth_steps)
  have hist: "did_history birth_env [''out''] s sample_did [cm_staged birth]" by (rule birth_history [OF run])
  have fields: "cm_new birth = birth_entry" "ca_out sample_create = [''out'']" "ca_format sample_create = TDW03"
    by (simp_all add: birth_def sample_create_def)
  have "apart [''r''] [''out'']" by (simp add: apart_def)
  then have stored: "\<exists>mode t. fmlookup (fs_files s) [''out''] = Some (mode, t) \<and> log_from_jsonl birth_codecs t = Ok [birth_entry]"
    using created_log(2) [OF run fields(3) birth_made] birth_laws birth_same(3) birth_key by (simp add: fields)
  have touched: "fs_refuses s = fs_refuses s1"
    "\<not> prefix ([''r''] @ [did_to_hash sample_keys (did_to_string sample_did)]) q \<Longrightarrow>
      \<not> prefix q ([''r''] @ [did_to_hash sample_keys (did_to_string sample_did)]) \<Longrightarrow> same_at s1 s q" for q
    using touches_commit commit unfolding touches_def by blast+
  have "\<not> path_is_dir s [''out'']" "\<not> path_is_dir s [''out.tmp'']" "fs_refuses s = (\<lambda>_. None)"
    using touched(1) touched(2) [of "[''out'']"] touched(2) [of "[''out.tmp'']"] wrote_frame(1,2) [OF w]
    by (auto simp: same_at_def path_is_dir_def plain_files_def)
  moreover have "wf_files (plain_files {|[], [''r'']|} [])" by (auto simp: wf_files_def plain_files_def)
  then have "wf_files s"
    using keepsD [OF wf_fs_write] keepsD [OF wf_store_commit commit] w by (metis fs_write_ok)
  then have "path_is_dir s []" by (simp add: path_is_dir_def wf_filesD(1))
  ultimately have "replaceable [''out''] s" by (simp add: replaceable_def writable_def tmp_path_def)
  with hist stored show ?thesis using that by blast
qed

theorem history_can_end_witness:
  "\<exists>s out s'. cmd_deactivate birth_env sample_clock sample_registry birth_deactivate s = (Inr out, s')"
proof -
  obtain s where "did_history birth_env [''out''] s sample_did [cm_staged birth]" "replaceable [''out''] s"
    by (rule born)
  from history_can_end [OF this(1) _ sample_did_text(1) this(2) birth_deactivate_args] birth_same(3)
  have "\<exists>out s'. cmd_deactivate birth_env sample_clock sample_registry birth_deactivate s = (Inr out, s')" by simp
  then show ?thesis by blast
qed

text \<open>What the deactivation adds to that log, which has a syntax.\<close>

lemma birth_ends:
  assumes "fmlookup (fs_files s) [''out''] = Some (mode, t)" "log_from_jsonl birth_codecs t = Ok [birth_entry]"
    and hist: "did_history birth_env [''out''] s sample_did [cm_staged birth]"
    and made: "deactivation_made birth_env sample_clock birth_deactivate s = Ok (l, d, k, e)"
  shows "entry_text_law birth_codecs e"
proof -
  obtain log where ok: "history_ok birth_env [''out''] s sample_did [cm_staged birth] log"
    using history_invariant [OF hist] birth_same(3) by auto
  then have log: "log = [birth_entry]" using assms(1,2) by (simp add: history_ok_def)
  obtain doc did_text entry v where load: "load_log birth_env None (Some [''out'']) s = Ok l"
    and doc: "le_state (last (ll_log l)) = StateValue doc"
    and tgt: "update_target birth_env (ll_log l) s = Ok (did_text, d, entry, v, k)"
    and e: "e = update_entry birth_codecs (signer_of sample_keys k) (le_version_id (last (ll_log l)))
       (of_nat (length (ll_log l)) + 1) (compute_version_time sample_clock (le_version_time (last (ll_log l))))
       (update_params (Some []) (Some True)) doc"
    by (rule deactivation_made_ok [OF made]) (auto simp: birth_deactivate_args)
  note reads = history_target [OF ok load tgt]
  have "update_entry birth_codecs = update_entry plain_codecs"
    unfolding birth_codecs_def by (intro ext) (simp add: text_same update_entry_def derive_entry_hash_def)
  moreover have "compute_version_time sample_clock u = ''t''" for u
    by (simp add: compute_version_time_def sample_clock_def Let_def)
  moreover have "doc = json_replace ''{SCID}'' sample_scid birth_doc"
    using doc by (simp add: reads(1) log birth_entry_def)
  ultimately have "e = birth_end"
    by (simp add: e reads(1,5) log birth_keys(3) birth_end_def)
  then show ?thesis
    by (simp add: entry_text_law_def entry_line_def birth_text one_line_def line_texts)
qed

theorem history_ends_witness:
  "\<exists>s out s'. cmd_deactivate birth_env sample_clock sample_registry birth_deactivate s = (Inr out, s')
     \<and> (\<exists>mode t log. fmlookup (fs_files s') [''out''] = Some (mode, t) \<and> log_from_jsonl birth_codecs t = Ok log
          \<and> length log = 2 \<and> verify_log birth_codecs plain_verifiers log sample_did = Ok ())
     \<and> cmd_deactivate birth_env sample_clock sample_registry birth_deactivate s' = (Inl UPAlreadyDeactivated, s')"
proof -
  obtain s where hist: "did_history birth_env [''out''] s sample_did [cm_staged birth]" and place: "replaceable [''out''] s"
    and stored: "\<exists>mode t. fmlookup (fs_files s) [''out''] = Some (mode, t) \<and> log_from_jsonl birth_codecs t = Ok [birth_entry]"
    by (rule born)
  have apart: "apart (ke_dir (did_entry birth_env sample_did)) [''out'']"
    "apart (ke_dir (did_entry birth_env sample_did)) (tmp_path [''out''])"
    by (simp_all add: did_entry_def apart_def tmp_path_def)
  have law: "entry_text_law (env_codecs birth_env) e"
    if "deactivation_made birth_env sample_clock birth_deactivate s = Ok (l, d, k, e)" for l d k e
    using birth_ends [OF _ _ hist that] stored by auto
  obtain out s' where run: "cmd_deactivate birth_env sample_clock sample_registry birth_deactivate s = (Inr out, s')"
    using deactivation_runs [OF hist _ sample_did_text(1) place birth_deactivate_args, of sample_clock sample_registry]
      birth_same(3) by auto
  show ?thesis
    using history_ends [OF hist _ run birth_deactivate_args(1-3) law apart] birth_same(3) run by fastforce
qed

end
