(* ===== verification/KeyCmds.thy ===== *)
theory KeyCmds
  imports Commands
begin

text \<open>
  The commands on the key store, \<open>swiyu-didtool/src/cmd/key.rs\<close>: list, versions, show and export.
  What a command prints before it fails is part of its result, so each returns the texts it
  printed, one for each \<open>println\<close>, and its outcome.
\<close>

section \<open>Model\<close>

datatype key_cmd_error = KCKeyStore keystore_error | KCResolve resolve_error

type_synonym 'e printed = "string list \<times> (unit, 'e) result"

definition key_cmd_list :: "path \<Rightarrow> files \<Rightarrow> key_cmd_error printed" where
  "key_cmd_list root s =
     (case store_list root s of
        Inl e \<Rightarrow> ([], Err (KCKeyStore e))
      | Inr entries \<Rightarrow> (map (\<lambda>(hash, did). hash @ ''  '' @ did) entries, Ok ()))"

definition role_labels :: "(string \<times> key_role) list" where
  "role_labels = [(''authorized'', Authorized), (''authentication'', Authentication), (''assertion'', Assertion)]"

text \<open>The public keys of a version, one for each role; the first that cannot be read is the error.\<close>

fun role_pems :: "keystore_entry \<Rightarrow> u32 \<Rightarrow> files \<Rightarrow> (string \<times> key_role) list \<Rightarrow> (string list, keystore_error) result" where
  "role_pems e v s [] = Ok []"
| "role_pems e v s ((label, role) # rs) =
     and_then (public_key_pem e role (Some v) s) (\<lambda>pem.
     and_then (role_pems e v s rs) (\<lambda>pems. Ok (pem # pems)))"

definition changed_labels :: "string list \<Rightarrow> string list \<Rightarrow> string list" where
  "changed_labels prev pems = [fst (role_labels ! i). i \<leftarrow> [0..<length role_labels], prev ! i \<noteq> pems ! i]"

definition version_tag :: "string list option \<Rightarrow> string list \<Rightarrow> string" where
  "version_tag prev pems =
     (case prev of
        None \<Rightarrow> ''initial''
      | Some prev_pems \<Rightarrow>
          let changed = changed_labels prev_pems pems
          in if changed = [] then ''(unchanged)'' else join_with '' '' changed)"

fun version_lines :: "keystore_entry \<Rightarrow> files \<Rightarrow> string list option \<Rightarrow> u32 list \<Rightarrow> key_cmd_error printed" where
  "version_lines e s prev [] = ([], Ok ())"
| "version_lines e s prev (v # vs) =
     (case role_pems e v s role_labels of
        Inl er \<Rightarrow> ([], Err (KCKeyStore er))
      | Inr pems \<Rightarrow>
          let (ls, r) = version_lines e s (Some pems) vs
          in ((show_nat (unat v) @ ''  '' @ version_tag prev pems) # ls, r))"

definition key_cmd_versions :: "('es, 'ps) key_ops \<Rightarrow> path \<Rightarrow> string \<Rightarrow> files \<Rightarrow> key_cmd_error printed" where
  "key_cmd_versions ops root target s =
     (case resolve_entry ops root target s of
        Inl e \<Rightarrow> ([], Err (KCResolve e))
      | Inr entry \<Rightarrow>
          (case all_versions entry s of
             Inl e \<Rightarrow> ([], Err (KCKeyStore e))
           | Inr versions \<Rightarrow> version_lines entry s None versions))"

fun show_keys :: "keystore_entry \<Rightarrow> u32 option \<Rightarrow> files \<Rightarrow> (string \<times> key_role) list \<Rightarrow> key_cmd_error printed" where
  "show_keys e version s [] = ([], Ok ())"
| "show_keys e version s ((label, role) # rs) =
     (case public_key_pem e role version s of
        Inl er \<Rightarrow> ([], Err (KCKeyStore er))
      | Inr pem \<Rightarrow>
          let (ls, r) = show_keys e version s rs
          in ([''# '' @ label, trim pem, []] @ ls, r))"

definition key_cmd_show ::
  "('es, 'ps) key_ops \<Rightarrow> path \<Rightarrow> string \<Rightarrow> key_role option \<Rightarrow> u32 option \<Rightarrow> files \<Rightarrow> key_cmd_error printed" where
  "key_cmd_show ops root target role version s =
     (case resolve_entry ops root target s of
        Inl e \<Rightarrow> ([], Err (KCResolve e))
      | Inr entry \<Rightarrow>
          (case role of
             Some key_role \<Rightarrow>
               (case public_key_pem entry key_role version s of
                  Inl e \<Rightarrow> ([], Err (KCKeyStore e))
                | Inr pem \<Rightarrow> ([trim pem], Ok ()))
           | None \<Rightarrow> show_keys entry version s role_labels))"

definition key_cmd_export ::
  "('es, 'ps) key_ops \<Rightarrow> path \<Rightarrow> string \<Rightarrow> key_role \<Rightarrow> path \<Rightarrow> bool \<Rightarrow> u32 option \<Rightarrow> (unit, key_cmd_error) io" where
  "key_cmd_export ops root target role out private version =
     io_then (io_look (\<lambda>s. map_err KCResolve (resolve_entry ops root target s))) (\<lambda>entry.
       io_map_err KCKeyStore
         (if private then export_private_key entry role version out
          else export_public_key entry role version out))"

section \<open>Public keys in the store\<close>

text \<open>The text of the public key of a role, as the store writes it.\<close>

fun public_text :: "('es, 'ps) key_ops \<Rightarrow> ('es, 'ps) staged_keys \<Rightarrow> key_role \<Rightarrow> string option" where
  "public_text ops st Authorized = res_ok (es_public_to_pem ops (es_public ops (sk_authorized st)))"
| "public_text ops st Authentication = res_ok (ps_public_to_pem ops (ps_public ops (sk_authentication st)))"
| "public_text ops st Assertion = res_ok (ps_public_to_pem ops (ps_public ops (sk_assertion st)))"

text \<open>An entry in order that also shows the public keys of every version.\<close>

definition entry_shows ::
  "('es, 'ps) key_ops \<Rightarrow> keystore_entry \<Rightarrow> ('es, 'ps) staged_keys list \<Rightarrow> files \<Rightarrow> bool" where
  "entry_shows ops e sts s \<longleftrightarrow>
     (\<forall>i < length sts. \<forall>role. \<exists>t. public_text ops (sts ! i) role = Some t
        \<and> public_key_pem e role (Some (of_nat (Suc i))) s = Ok t)"

lemma snapshot_public:
  assumes "write_snapshot ops st d s = (Inr x, s')"
  shows "\<exists>t m. public_text ops st role = Some t
    \<and> fmlookup (fs_files s') (d @ [key_file_name role False]) = Some (m, t)"
proof -
  obtain pa ga pn gn px gx s1 s2 s3 s4 s5 where
    pem: "es_public_to_pem ops (es_public ops (sk_authorized st)) = Ok ga"
      "ps_public_to_pem ops (ps_public ops (sk_authentication st)) = Ok gn"
      "ps_public_to_pem ops (ps_public ops (sk_assertion st)) = Ok gx"
    and w: "wrote private_mode (d @ [key_file_name Authorized True]) pa s s1"
      "wrote default_mode (d @ [key_file_name Authorized False]) ga s1 s2"
      "wrote private_mode (d @ [key_file_name Authentication True]) pn s2 s3"
      "wrote default_mode (d @ [key_file_name Authentication False]) gn s3 s4"
      "wrote private_mode (d @ [key_file_name Assertion True]) px s4 s5"
      "wrote default_mode (d @ [key_file_name Assertion False]) gx s5 s'"
    using assms by (auto simp: write_snapshot_def Let_def ok_iff)
  have names: "key_file_name r b = key_file_name r' b' \<longleftrightarrow> r = r' \<and> b = b'" for r r' b b'
    by (cases r; cases r'; cases b; cases b') (simp_all add: key_file_name_def)
  note frames = wrote_frame [OF w(1)] wrote_frame [OF w(2)] wrote_frame [OF w(3)]
    wrote_frame [OF w(4)] wrote_frame [OF w(5)] wrote_frame [OF w(6)]
  show ?thesis
    using pem frames(11,25,39) by (cases role) (auto simp: names frames(3,10,17,24,31,38))
qed
lemma public_ok:
  "public_key_pem e role (Some v) s = Ok t \<longleftrightarrow>
     refusal (fs_refuses s (key_path e v role False)) = None
     \<and> (\<exists>m. fmlookup (fs_files s) (key_path e v role False) = Some (m, t))"
  by (auto simp: public_key_pem_def read_key_file_def Let_def ok_iff path_exists_def read_to_string_ok)

lemma shows_kept:
  assumes "entry_shows ops e sts s" "fs_refuses s' = fs_refuses s"
    "\<And>i role. i < length sts \<Longrightarrow>
      fmlookup (fs_files s') (key_path e (of_nat (Suc i)) role False)
        = fmlookup (fs_files s) (key_path e (of_nat (Suc i)) role False)"
  shows "entry_shows ops e sts s'"
  using assms by (simp add: entry_shows_def public_ok del: of_nat_Suc)

lemma shows_untouched:
  assumes "touches (root @ [h]) m" "m s = (r, s')" "h' \<noteq> h" "ke_dir e = root @ [h']" "entry_shows ops e sts s"
  shows "entry_shows ops e sts s'"
proof (rule shows_kept [OF assms(5)])
  note t = assms(1) [unfolded touches_def, rule_format, OF assms(2)]
  show "fs_refuses s' = fs_refuses s" using t by blast
  fix i role
  have "\<not> prefix (root @ [h]) (key_path e (of_nat (Suc i)) role False)
      \<and> \<not> prefix (key_path e (of_nat (Suc i)) role False) (root @ [h])"
    using assms(3,4) by (auto simp: key_path_def prefix_def)
  with t show "fmlookup (fs_files s') (key_path e (of_nat (Suc i)) role False)
      = fmlookup (fs_files s) (key_path e (of_nat (Suc i)) role False)"
    by (simp add: same_at_def)
qed

lemma shows_new:
  assumes "write_snapshot ops st (ke_dir e @ [show_pad4 (unat v)]) s = (Inr x, s')"
    "\<forall>q. prefix (ke_dir e) q \<longrightarrow> fs_refuses s q = None"
  shows "\<exists>t. public_text ops st role = Some t \<and> public_key_pem e role (Some v) s' = Ok t"
proof -
  have "key_path e v role False = (ke_dir e @ [show_pad4 (unat v)]) @ [key_file_name role False]"
    by (simp add: key_path_def)
  then show ?thesis
    using snapshot_public [OF assms(1), of role] write_snapshot_ok(3) [OF assms(1)] assms(2)
    by (auto simp: public_ok)
qed

lemma add_version_shows:
  assumes holds: "entry_holds ops e sts s" and old: "entry_shows ops e sts s"
    and run: "add_version ops e st s = (Inr v, s')" and room: "Suc (length sts) < 10000"
  shows "entry_shows ops e (sts @ [st]) s'"
proof -
  let ?n = "length sts" let ?d = "ke_dir e @ [show_pad4 (Suc ?n)]"
  have u: "unat (of_nat k :: u32) = k" if "k < 10000" for k
    using that by (intro unat_of_nat_small) simp
  have v: "(of_nat ?n :: u32) + 1 = of_nat (Suc ?n)" by simp
  obtain s1 where run1: "create_dir_all ?d s = (Ok (), s1)" "write_snapshot ops st ?d s1 = (Ok (), s')"
    using run by (auto simp: add_version_def entry_holds_latest [OF holds] ok_iff Let_def v u [OF room]
        simp del: of_nat_Suc)
  note f = create_dir_all_frame [OF run1(1)] and g = write_snapshot_ok [OF run1(2)]
  have "entry_shows ops e sts s'"
  proof (rule shows_kept [OF old])
    show "fs_refuses s' = fs_refuses s" using f(2) g(3) by simp
    fix i role assume i: "i < ?n"
    then have "unat (of_nat (Suc i) :: u32) = Suc i" using room by (intro u) simp
    then have "butlast (key_path e (of_nat (Suc i)) role False) \<noteq> ?d"
      using i by (simp add: key_path_def butlast_append del: of_nat_Suc)
    then show "fmlookup (fs_files s') (key_path e (of_nat (Suc i)) role False)
        = fmlookup (fs_files s) (key_path e (of_nat (Suc i)) role False)"
      using g(4) f(1) by simp
  qed
  moreover have "\<exists>t. public_text ops st role = Some t \<and> public_key_pem e role (Some (of_nat (Suc ?n))) s' = Ok t" for role
  proof (rule shows_new)
    show "write_snapshot ops st (ke_dir e @ [show_pad4 (unat (of_nat (Suc ?n) :: u32))]) s1 = (Inr (), s')"
      using run1(2) u [OF room] by (simp del: of_nat_Suc)
    show "\<forall>q. prefix (ke_dir e) q \<longrightarrow> fs_refuses s1 q = None"
      using holds f(2) unfolding entry_holds_def by simp
  qed
  ultimately show ?thesis
    unfolding entry_shows_def by (auto simp: nth_append less_Suc_eq simp del: of_nat_Suc)
qed

lemma store_commit_shows:
  assumes run: "store_commit ops root st d s = (Inr e, s')" and quiet: "\<forall>q. prefix root q \<longrightarrow> fs_refuses s q = None"
  shows "entry_shows ops (entry_of ops root (did_to_string d)) [st] s'"
proof -
  let ?t = "did_to_string d" let ?e = "entry_of ops root ?t" let ?p = "root @ [did_to_hash ops ?t]"
  obtain s1 s2 where *: "create_dir_all (?p @ [''0001'']) s = (Ok (), s1)"
      "write_snapshot ops st (?p @ [''0001'']) s1 = (Ok (), s2)" "wrote default_mode (?p @ [''did.txt'']) ?t s2 s'"
    using run by (auto simp: store_commit_def Let_def ok_iff split: if_split_asm)
  have "\<forall>q. prefix (ke_dir ?e) q \<longrightarrow> fs_refuses s1 q = None"
    using quiet create_dir_all_frame(2) [OF *(1)] by (auto dest: append_prefixD)
  then have "\<exists>t. public_text ops st role = Some t \<and> public_key_pem ?e role (Some 1) s2 = Ok t" for role
    by (rule shows_new [rotated]) (use *(2) in \<open>simp add: show_pad4_one [unfolded One_nat_def]\<close>)
  then have "entry_shows ops ?e [st] s2" by (simp add: entry_shows_def)
  then show ?thesis
    by (rule shows_kept) (use wrote_frame(2,3) [OF *(3)] in \<open>simp_all add: key_path_def\<close>)
qed

lemma represents_hash:
  "represents ops root s m \<Longrightarrow> m t = Some sts \<Longrightarrow> m t' = Some sts' \<Longrightarrow> t \<noteq> t' \<Longrightarrow> did_to_hash ops t \<noteq> did_to_hash ops t'"
  unfolding represents_def store_shape_def by (meson domI inj_onD)

lemma vault_run_shows:
  "vault_run ops root s m \<Longrightarrow> m t = Some sts \<Longrightarrow> entry_shows ops (entry_of ops root t) sts s"
proof (induction arbitrary: t sts rule: vault_run.induct)
  case (commit s m st d e s')
  have quiet: "\<forall>q. prefix root q \<longrightarrow> fs_refuses s q = None"
    using vault_run_represents [OF commit(1)] by (simp add: represents_def store_shape_def)
  show ?case
  proof (cases "t = did_to_string d")
    case True
    with commit.prems store_commit_shows [OF commit(2) quiet] show ?thesis by simp
  next
    case False
    have rep: "represents ops root s' (m(did_to_string d \<mapsto> [st]))"
      by (rule vault_run_represents [OF vault_run.commit [OF commit(1-4)]])
    have "m t = Some sts" using False commit.prems by simp
    moreover from this have "did_to_hash ops t \<noteq> did_to_hash ops (did_to_string d)"
      using represents_hash [OF rep, of t _ "did_to_string d"] False by simp
    ultimately show ?thesis
      using shows_untouched [OF touches_commit commit(2) _ _ commit.IH] by simp
  qed
next
  case (add s m d e st v s' sts0)
  have rep: "represents ops root s m" by (rule vault_run_represents [OF add(1)])
  have e: "e = entry_of ops root (did_to_string d)"
    using add(2) by (auto simp: store_lookup_def Let_def ok_iff entry_of_def split: if_split_asm)
  show ?case
  proof (cases "t = did_to_string d")
    case True
    have "entry_holds ops e sts0 s" "entry_shows ops e sts0 s"
      using rep add(5) add.IH by (auto simp: represents_def e)
    from add_version_shows [OF this add(3,6)] show ?thesis using True add.prems by (simp add: e)
  next
    case False
    then have old: "m t = Some sts" using add.prems by simp
    then have "did_to_hash ops t \<noteq> did_to_hash ops (did_to_string d)"
      using represents_hash [OF rep _ add(5)] False by blast
    then show ?thesis
      using shows_untouched [of root "did_to_hash ops (did_to_string d)" "add_version ops e st" s "Inr v" s'
          "did_to_hash ops t" "entry_of ops root t"] touches_add_version [of e ops st] add(3)
        add.IH [OF old]
      by (simp add: e)
  qed
next
  case (remove s m d x s')
  then have old: "m t = Some sts" "did_to_hash ops t \<noteq> did_to_hash ops (did_to_string d)"
    by (auto simp: restrict_map_def split: if_split_asm)
  then show ?case
    using shows_untouched [OF touches_store_remove remove(2) _ _ remove.IH] by simp
qed simp

section \<open>Property\<close>

text \<open>The roles whose public key is another one in the next key set.\<close>

definition rotated_labels ::
  "('es, 'ps) key_ops \<Rightarrow> ('es, 'ps) staged_keys \<Rightarrow> ('es, 'ps) staged_keys \<Rightarrow> string list" where
  "rotated_labels ops old new =
     map fst (filter (\<lambda>(l, r). public_text ops old r \<noteq> public_text ops new r) role_labels)"

definition history_line :: "('es, 'ps) key_ops \<Rightarrow> ('es, 'ps) staged_keys list \<Rightarrow> nat \<Rightarrow> string" where
  "history_line ops sts i =
     show_nat (Suc i) @ ''  '' @
       (if i = 0 then ''initial''
        else let changed = rotated_labels ops (sts ! (i - 1)) (sts ! i)
             in if changed = [] then ''(unchanged)'' else join_with '' '' changed)"

definition public_pems :: "('es, 'ps) key_ops \<Rightarrow> ('es, 'ps) staged_keys \<Rightarrow> string list" where
  "public_pems ops st = map (\<lambda>(l, r). the (public_text ops st r)) role_labels"

lemma role_pems_shown:
  assumes "entry_shows ops e sts s" "i < length sts"
  shows "role_pems e (of_nat (Suc i)) s role_labels = Ok (public_pems ops (sts ! i))"
proof -
  have "public_key_pem e role (Some (of_nat (Suc i))) s = Ok (the (public_text ops (sts ! i) role))" for role
    using assms unfolding entry_shows_def by (metis option.sel)
  then show ?thesis by (simp add: role_labels_def public_pems_def del: of_nat_Suc)
qed

lemma changed_rotated:
  assumes "entry_shows ops e sts s" "Suc i < length sts"
  shows "changed_labels (public_pems ops (sts ! i)) (public_pems ops (sts ! Suc i))
    = rotated_labels ops (sts ! i) (sts ! Suc i)"
proof -
  have "\<exists>t. public_text ops (sts ! k) role = Some t" if "k < length sts" for k role
    using assms(1) that unfolding entry_shows_def by blast
  then have same: "the (public_text ops (sts ! i) role) = the (public_text ops (sts ! Suc i) role)
      \<longleftrightarrow> public_text ops (sts ! i) role = public_text ops (sts ! Suc i) role" for role
    using assms(2) by (metis Suc_lessD option.sel)
  have "[0..<3] = [0, 1, 2 :: nat]" by (simp add: upt_rec)
  then show ?thesis
    by (simp add: changed_labels_def rotated_labels_def public_pems_def role_labels_def same del: public_text.simps)
qed

lemma version_lines_shown:
  assumes "entry_shows ops e sts s" "length sts < 10000" "k \<le> length sts"
  shows "version_lines e s (if k = 0 then None else Some (public_pems ops (sts ! (k - 1))))
      (map of_nat [Suc k..<Suc (length sts)]) = (map (history_line ops sts) [k..<length sts], Ok ())"
  using assms(3)
proof (induction k rule: inc_induct)
  case (step k)
  have u: "unat (of_nat (Suc k) :: u32) = Suc k"
    using step(2) assms(2) by (intro unat_of_nat_small) simp
  have tag: "version_tag (if k = 0 then None else Some (public_pems ops (sts ! (k - 1)))) (public_pems ops (sts ! k))
      = drop (length (show_nat (Suc k)) + 2) (history_line ops sts k)"
    using changed_rotated [OF assms(1), of "k - 1"] step(2)
    by (cases k) (simp_all add: version_tag_def history_line_def Let_def)
  have line: "history_line ops sts k = show_nat (Suc k) @ ''  '' @ drop (length (show_nat (Suc k)) + 2) (history_line ops sts k)"
    by (simp add: history_line_def)
  have "map of_nat [Suc k..<Suc (length sts)] = (of_nat (Suc k) :: u32) # map of_nat [Suc (Suc k)..<Suc (length sts)]"
    "[k..<length sts] = k # [Suc k..<length sts]"
    using step(2) by (simp_all add: upt_conv_Cons del: upt_Suc of_nat_Suc)
  then show ?case
    using step.IH u line by (simp add: role_pems_shown [OF assms(1) step(2)] tag del: upt_Suc of_nat_Suc)
qed simp

text \<open>The report of versions. For a store filled and changed by its operations, the versions
  command prints one line for each key set a DID was given, in order: its number, and the roles
  whose public key differs from the one in the set before, in the order authorized,
  authentication, assertion; the first is tagged as initial.\<close>

theorem key_versions_report:
  assumes "vault_run ops root s m" "m t = Some sts"
    "resolve_entry ops root target s = Ok (entry_of ops root t)"
  shows "key_cmd_versions ops root target s = (map (history_line ops sts) [0..<length sts], Ok ())"
proof -
  have holds: "entry_holds ops (entry_of ops root t) sts s"
    using vault_run_represents [OF assms(1)] assms(2) by (simp add: represents_def)
  then have "length sts < 10000" by (simp add: entry_holds_def)
  from version_lines_shown [OF vault_run_shows [OF assms(1,2)] this, of 0] show ?thesis
    by (simp add: key_cmd_versions_def assms(3) entry_holds_latest(2) [OF holds] del: upt_Suc)
qed

theorem key_versions_report_witness:
  "\<exists>s'. key_cmd_versions plain_keys [''r''] (did_to_string plain_did) s' = ([''1  initial''], Ok ())"
proof -
  let ?s = "plain_files {|[], [''r'']|} []" let ?e = "entry_of plain_keys [''r''] (did_to_string plain_did)"
  obtain s' where run: "store_commit plain_keys [''r''] plain_staged plain_did ?s = (Inr ?e, s')"
    using commit_runs [OF plain_ready plain_laws(2) plain_fresh] by blast
  have "vault_run plain_keys [''r''] ?s Map.empty"
    by (rule vault_run.empty) (auto simp: plain_files_def path_exists_def path_is_dir_def)
  note vault = vault_run.commit [OF this run plain_laws(1) plain_did_text(2)]
  have "entry_holds plain_keys ?e [plain_staged] s'"
    using vault_run_represents [OF vault] by (simp add: represents_def)
  then have "store_lookup plain_keys [''r''] plain_did s' = Ok (Some ?e)"
    using plain_did_text(2) by (auto simp: store_lookup_def Let_def entry_holds_def entry_of_def path_exists_def)
  moreover have "did_from_str (did_to_string plain_did) = Ok plain_did" unfolding plain_did_text(1) by code_simp
  moreover have "\<not> is_hash (did_to_string plain_did)" unfolding plain_did_text(1) by code_simp
  ultimately have "resolve_entry plain_keys [''r''] (did_to_string plain_did) s' = Ok ?e"
    by (simp add: resolve_entry_def)
  from key_versions_report [OF vault _ this, of "[plain_staged]"]
  have "key_cmd_versions plain_keys [''r''] (did_to_string plain_did) s' = ([history_line plain_keys [plain_staged] 0], Ok ())"
    by simp
  moreover have "show_nat (Suc 0) = ''1''" by code_simp
  ultimately show ?thesis by (auto simp: history_line_def)
qed

end
