(* ===== verification/TrustCmds.thy ===== *)
theory TrustCmds
  imports Registries
begin

text \<open>
  The trust commands, \<open>swiyu-didtool/src/cmd/trust/mod.rs\<close>, \<open>lookup.rs\<close> and \<open>cmd_verify\<close> of
  \<open>verify.rs\<close>: the DID is resolved, its statements are fetched from the trust registry, and they
  are printed or checked. A command returns the lines it prints; the clock and the text of a time
  are parameters.
\<close>

section \<open>Fetching statements\<close>

datatype trust_cmd_error =
    TCTrust trust_error
  | TCRegistry registry_error
  | TCResolve resolve_error

definition fetch_statements :: "codecs \<Rightarrow> web \<Rightarrow> string \<Rightarrow> did \<Rightarrow> (string list, trust_cmd_error) net" where
  "fetch_statements c web base_url d =
     io_then (io_of (map_err TCRegistry (trust_client_new web base_url))) (\<lambda>client.
       io_map_err TCRegistry (fetch_trust_statements c web client d))"

section \<open>Lookup\<close>

record lookup_args =
  la_did :: string
  la_trust_registry_url :: "string option"
  la_raw :: bool

datatype lookup_outcome = Found | NoStatements

text \<open>The names of an entity, in the order of the languages.\<close>

definition entity_names :: "trust_statement \<Rightarrow> (string \<times> string) list" where
  "entity_names st =
     map (\<lambda>l. (l, case fmlookup (ts_entity_name st) l of Some n \<Rightarrow> n | None \<Rightarrow> []))
       (sorted_list_of_set (fset (fmdom (ts_entity_name st))))"

text \<open>One line for each name: the first after a label, the others below it.\<close>

fun name_lines :: "string \<Rightarrow> string \<Rightarrow> (string \<times> string) list \<Rightarrow> string list" where
  "name_lines label indent [] = []"
| "name_lines label indent ((lang, name) # ns) =
     (label @ lang @ '': '' @ name) # map (\<lambda>(l, n). indent @ l @ '': '' @ n) ns"

definition statement_lines :: "(u64 \<Rightarrow> string) \<Rightarrow> nat \<Rightarrow> trust_statement \<Rightarrow> string list" where
  "statement_lines isot n st =
     [''#'' @ show_nat n @ ''  '' @ ts_vct st,
      ''  issuer:            '' @ ts_iss st,
      ''  iat (issued at):   '' @ isot (ts_iat st)]
     @ (case ts_nbf st of Some t \<Rightarrow> [''  nbf (not before):  '' @ isot t] | None \<Rightarrow> [])
     @ (case ts_exp st of Some t \<Rightarrow> [''  exp (expires):     '' @ isot t] | None \<Rightarrow> [])
     @ (if ts_entity_name st = fmempty then [''  entity name:       (none)'']
        else name_lines ''  entity name:       '' ''                     '' (entity_names st))
     @ [''  state actor:       '' @
          (case ts_is_state_actor st of Some True \<Rightarrow> ''yes'' | Some False \<Rightarrow> ''no'' | None \<Rightarrow> ''(undisclosed)'')]
     @ (case ts_status st of
          Some p \<Rightarrow> [''  status:            '' @ slp_type p @ '' idx='' @ show_nat (unat (slp_idx p)),
                     ''                     '' @ slp_uri p]
        | None \<Rightarrow> [])"

definition numbered_blocks :: "(nat \<Rightarrow> 'a \<Rightarrow> string list) \<Rightarrow> 'a list \<Rightarrow> string list" where
  "numbered_blocks f xs = concat (map (\<lambda>(i, x). [] # f (i + 1) x) (zip [0..<length xs] xs))"

text \<open>What was printed: on standard output, and on standard error.\<close>

definition process_statements ::
  "codecs \<Rightarrow> (json \<Rightarrow> string) \<Rightarrow> (u64 \<Rightarrow> string) \<Rightarrow> string \<Rightarrow> string list \<Rightarrow> bool \<Rightarrow>
   (lookup_outcome \<times> string list \<times> string list, trust_cmd_error) result" where
  "process_statements c pretty isot did array raw =
     (if array = [] then Ok (NoStatements, [], [''no trust statements found for '' @ did])
      else if raw then Ok (Found, [pretty (JArray (map JString array))], [])
      else
        and_then (map_err TCTrust (decode_statements c 0 array)) (\<lambda>statements.
          Ok (Found, (''Trust statements for '' @ did)
                # numbered_blocks (statement_lines isot) (newest_first statements), [])))"

definition cmd_lookup ::
  "('ed, 'ec, 'es, 'ps) env \<Rightarrow> web \<Rightarrow> (u64 \<Rightarrow> string) \<Rightarrow> lookup_args \<Rightarrow> files \<Rightarrow>
   (lookup_outcome \<times> string list \<times> string list, trust_cmd_error) net" where
  "cmd_lookup env web isot args s =
     io_then (io_of (ok_or (la_trust_registry_url args) (TCTrust TRegistryUrlMissing))) (\<lambda>base_url.
     io_then (io_of (map_err TCResolve (resolve_did (env_store env) (la_did args) s))) (\<lambda>d.
     io_then (fetch_statements (env_codecs env) web base_url d) (\<lambda>array.
       io_of (process_statements (env_codecs env) (env_pretty env) isot (did_to_string d) array (la_raw args)))))"

section \<open>Verification\<close>

record trust_args =
  ta_did :: string
  ta_trust_registry_url :: "string option"
  ta_trust_issuer :: "string option"

definition header_lines :: "string \<Rightarrow> string \<Rightarrow> string list" where
  "header_lines did expected_issuer =
     [''Trust statements for '' @ did, ''Expected issuer:    '' @ expected_issuer]"

definition check_line :: "string \<Rightarrow> check \<Rightarrow> string" where
  "check_line label ch = label @ check_marker ch @ '' '' @ check_message ch"

definition report_lines :: "(u64 \<Rightarrow> string) \<Rightarrow> nat \<Rightarrow> report \<Rightarrow> string list" where
  "report_lines isot n r =
     (let st = rp_statement r in
      [''#'' @ show_nat n @ ''  '' @ ts_vct st,
       ''  iat (issued at):    '' @ isot (ts_iat st),
       check_line ''  iss (issuer):       '' (rp_iss r),
       check_line ''  signature:          '' (rp_signature r),
       check_line ''  freshness:          '' (rp_freshness r),
       check_line ''  status:             '' (rp_status r)]
      @ name_lines ''  entity name:        '' ''                      '' (entity_names st)
      @ (case ts_is_state_actor st of
           Some b \<Rightarrow> [''  state actor:        '' @ (if b then ''yes'' else ''no'')] | None \<Rightarrow> [])
      @ [''  verdict:            '' @ (if rp_verdict r then ''[ok]  '' else ''[fail]'') @ ''  ''
           @ (if rp_verdict r then ''trusted'' else ''untrusted'')])"

definition verdict_line :: "nat \<Rightarrow> nat \<Rightarrow> string" where
  "verdict_line trusted count =
     (if trusted > 0
      then ''Verdict: '' @ show_nat trusted @ '' trusted statement'' @ (if trusted = 1 then [] else ''s'')
             @ '' out of '' @ show_nat count @ '' '' @ em_dash @ '' entity is trusted.''
      else ''Verdict: 0 trusted statements out of '' @ show_nat count @ '' '' @ em_dash @ '' entity is untrusted.'')"

text \<open>\<open>Utc::now().timestamp().max(0) as u64\<close>\<close>

definition now_seconds :: "int \<Rightarrow> u64" where
  "now_seconds timestamp = of_int (max timestamp 0)"

definition cmd_trust_verify ::
  "('ed, 'ec, 'es, 'ps) env \<Rightarrow> web \<Rightarrow> (u64 \<Rightarrow> string) \<Rightarrow> int \<Rightarrow> trust_args \<Rightarrow> files \<Rightarrow>
   (verify_outcome \<times> string list, trust_cmd_error) net" where
  "cmd_trust_verify env web isot timestamp args s =
     io_then (io_of (ok_or (ta_trust_registry_url args) (TCTrust TRegistryUrlMissing))) (\<lambda>base_url.
     io_then (io_of (ok_or (ta_trust_issuer args) (TCTrust TIssuerMissing))) (\<lambda>expected_issuer.
     io_then (io_of (map_err TCResolve (resolve_did (env_store env) (ta_did args) s))) (\<lambda>d.
     io_then (fetch_statements (env_codecs env) web base_url d) (\<lambda>array.
     io_of
       (and_then (map_err TCTrust (trust_verify (env_codecs env) (env_verifiers env) (trust_fetcher (env_http env)) isot
                   expected_issuer (now_seconds timestamp) array)) (\<lambda>(outcome, reports).
          Ok (outcome, header_lines (did_to_string d) expected_issuer @ numbered_blocks (report_lines isot) reports
                @ [[], verdict_line (length (filter rp_verdict reports)) (length reports)])))))))"

section \<open>What the commands read\<close>

lemma string_array_some: "string_array v = Some xs \<longleftrightarrow> v = JArray (map JString xs)"
proof -
  have str: "as_str x = Some t \<longleftrightarrow> x = JString t" for x t by (cases x) auto
  show ?thesis
  proof (cases v)
    case (JArray js)
    have "(list_all (\<lambda>x. as_str x \<noteq> None) js \<and> map (the \<circ> as_str) js = xs) \<longleftrightarrow> js = map JString xs"
    proof
      assume l: "list_all (\<lambda>x. as_str x \<noteq> None) js \<and> map (the \<circ> as_str) js = xs"
      then have "\<And>x. x \<in> set js \<Longrightarrow> JString (the (as_str x)) = x" by (auto simp: list_all_iff str)
      then have "map (JString \<circ> (the \<circ> as_str)) js = js" by (simp add: map_idI)
      with l show "js = map JString xs" by (metis map_map)
    qed (auto simp: list_all_iff comp_def)
    then show ?thesis by (auto simp: JArray string_array_def)
  qed (simp_all add: string_array_def)
qed

definition statements_request :: "string \<Rightarrow> did \<Rightarrow> http_request" where
  "statements_request base_url d =
     request (hardened ''swiyu-trust-registry-client/'') MGet (build_endpoint base_url d)"

text \<open>What an answer of the trust registry stands for.\<close>

definition statements_in :: "codecs \<Rightarrow> (http_reply, string) result \<Rightarrow> string list \<Rightarrow> bool" where
  "statements_in c answer jwts \<longleftrightarrow>
     (\<exists>r. answer = Ok r \<and>
        (re_status r = 404 \<and> jwts = []
         \<or> is_success (re_status r)
           \<and> (\<exists>body. re_text r = Ok body \<and> json_from_str c body = Ok (JArray (map JString jwts)))))"

lemma success_not_404: "is_success st \<Longrightarrow> st \<noteq> 404"
  by (auto simp: is_success_def)

lemma res_ok_iff: "res_ok r = Some x \<longleftrightarrow> r = Ok x"
  by (cases r) auto

lemma fetch_statements_ok:
  "fetch_statements c web base_url d tr = (Inr jwts, tr') \<longleftrightarrow>
     web_build web (hardened ''swiyu-trust-registry-client/'') = Ok ()
     \<and> tr' = tr @ [statements_request base_url d]
     \<and> statements_in c (web_answer web tr (statements_request base_url d)) jwts"
  using success_not_404
  by (auto simp: fetch_statements_def trust_client_new_def client_new_def with_http_def fetch_trust_statements_def
      http_send_def statements_request_def statements_in_def ok_iff bind_eq_Some_conv string_array_some res_ok_iff
      split: if_split_asm)

lemma cmd_trust_verify_ok:
  "cmd_trust_verify env web isot timestamp args s tr = (Inr (out, lines), tr') \<longleftrightarrow>
     (\<exists>base issuer d jwts reports. ta_trust_registry_url args = Some base \<and> ta_trust_issuer args = Some issuer
        \<and> resolve_did (env_store env) (ta_did args) s = Ok d
        \<and> fetch_statements (env_codecs env) web base d tr = (Inr jwts, tr')
        \<and> trust_verify (env_codecs env) (env_verifiers env) (trust_fetcher (env_http env)) isot issuer
            (now_seconds timestamp) jwts = Ok (out, reports)
        \<and> lines = header_lines (did_to_string d) issuer @ numbered_blocks (report_lines isot) reports
            @ [[], verdict_line (length (filter rp_verdict reports)) (length reports)])"
  by (auto simp: cmd_trust_verify_def ok_iff)

section \<open>Properties\<close>

text \<open>C13: what a trusted verdict means. If the command calls the entity of a DID trusted, it sent one
  request, for the statements of this DID at the registry it was given, and the array in the
  answer holds a statement that names the expected issuer, is signed with ES256 under a P-256 key
  that the document fetched for its key id lists under that id, is within its validity at the
  time of the run, and points at a slot that reads \<open>Valid\<close> in a status list signed under a key
  of the issuer's own document.\<close>

theorem trust_command_sound:
  assumes "cmd_trust_verify env web isot timestamp args s tr = (Inr (Trusted, lines), tr')"
  shows "\<exists>base issuer d jwts. ta_trust_registry_url args = Some base \<and> ta_trust_issuer args = Some issuer
    \<and> resolve_did (env_store env) (ta_did args) s = Ok d \<and> tr' = tr @ [statements_request base d]
    \<and> statements_in (env_codecs env) (web_answer web tr (statements_request base d)) jwts
    \<and> (\<exists>jwt \<in> set jwts. \<exists>st. try_from_jwt (env_codecs env) jwt = Ok st
         \<and> stmt_trusted (env_codecs env) (env_verifiers env) (trust_fetcher (env_http env)) issuer
             (now_seconds timestamp) st)"
  using assms trusted_verdict_sound unfolding cmd_trust_verify_ok fetch_statements_ok by blast

text \<open>C34: a statement is not bound to its subject. The check never asks for whom a statement was
  issued: if the registry answers the request for another DID with the same body, the command
  comes to the same verdict on the entity of that DID.\<close>

theorem trust_not_bound_to_subject:
  assumes "cmd_trust_verify env web isot timestamp args s tr = (Inr (out, lines), tr')"
    "resolve_did (env_store env) other s = Ok d'" "resolve_did (env_store env) (ta_did args) s = Ok d"
    and same: "\<And>base. web_answer web tr (statements_request base d') = web_answer web tr (statements_request base d)"
  shows "\<exists>lines' tr''. cmd_trust_verify env web isot timestamp (args\<lparr>ta_did := other\<rparr>) s tr = (Inr (out, lines'), tr'')"
  using assms(1-3) unfolding cmd_trust_verify_ok fetch_statements_ok by (simp add: same) blast

section \<open>Instance\<close>

text \<open>The world of \<open>TrustVerify\<close> behind an HTTP client, and a registry that answers with its statement.\<close>

definition world_http :: http_client where
  "world_http url =
     (case world_fetch url of
        Inr (Some t) \<Rightarrow> Ok \<lparr>hr_status = 200, hr_body = as_bytes t, hr_broken = None, hr_text = t\<rparr>
      | _ \<Rightarrow> Ok \<lparr>hr_status = 404, hr_body = [], hr_broken = None, hr_text = []\<rparr>)"

definition world_env :: "(u8 list, u8 list, string, string) env" where
  "world_env = \<lparr>env_codecs = world_codecs, env_verifiers = world_verifiers, env_keys = plain_keys,
     env_http = world_http, env_pretty = (\<lambda>_. []), env_store = [], env_cwd = [], env_stdout_error = None\<rparr>"

definition world_web :: web where
  "world_web = \<lparr>web_build = (\<lambda>_. Ok ()),
     web_answer = (\<lambda>tr rq. Ok \<lparr>re_status = 200, re_text = Ok ''l'', re_bytes = Ok []\<rparr>)\<rparr>"

definition world_args :: trust_args where
  "world_args = \<lparr>ta_did = ''did:tdw:S:i'', ta_trust_registry_url = Some ''https://r'',
     ta_trust_issuer = Some ''did:tdw:S:i''\<rparr>"

lemma world_fetcher: "trust_fetcher world_http = world_fetch"
proof
  fix url
  have "valid_utf8 (as_bytes ''a'')" "valid_utf8 (as_bytes ''i'')" "valid_utf8 (as_bytes ''H.P.i'')" by code_simp+
  then show "trust_fetcher world_http url = world_fetch url"
    by (simp add: trust_fetcher_def fetch_text_cases world_http_def world_fetch_def MAX_BYTES_def length_as_bytes)
qed

lemma world_dids:
  "resolve_did r ''did:tdw:S:i'' s = Ok \<lparr>did_method = Tdw, did_scid = Some ''S'', did_domain = ''i'', did_path = None\<rparr>"
  "resolve_did r ''did:tdw:S:z'' s = Ok \<lparr>did_method = Tdw, did_scid = Some ''S'', did_domain = ''z'', did_path = None\<rparr>"
proof -
  have "\<not> is_hash ''did:tdw:S:i''" "\<not> is_hash ''did:tdw:S:z''" by code_simp+
  moreover have "did_from_str ''did:tdw:S:i'' = Ok \<lparr>did_method = Tdw, did_scid = Some ''S'', did_domain = ''i'', did_path = None\<rparr>"
    "did_from_str ''did:tdw:S:z'' = Ok \<lparr>did_method = Tdw, did_scid = Some ''S'', did_domain = ''z'', did_path = None\<rparr>"
    by code_simp+
  ultimately show "resolve_did r ''did:tdw:S:i'' s = Ok \<lparr>did_method = Tdw, did_scid = Some ''S'', did_domain = ''i'', did_path = None\<rparr>"
    "resolve_did r ''did:tdw:S:z'' s = Ok \<lparr>did_method = Tdw, did_scid = Some ''S'', did_domain = ''z'', did_path = None\<rparr>"
    by (simp_all add: resolve_did_def)
qed

lemma world_body: "json_from_str world_codecs ''l'' = Ok (JArray [JString ''h.p.a''])"
  by (simp add: world_codecs_def)

lemma world_statements: "statements_in world_codecs (web_answer world_web tr rq) jwts \<longleftrightarrow> jwts = [''h.p.a'']"
  by (cases jwts) (auto simp: statements_in_def world_web_def is_success_def world_body)

lemma world_runs:
  "\<exists>lines tr'. cmd_trust_verify world_env world_web (\<lambda>_. []) 9 world_args s [] = (Inr (Trusted, lines), tr')"
proof -
  have "web_build world_web cfg = Ok ()" for cfg by (simp add: world_web_def)
  moreover obtain reports where "trust_verify world_codecs world_verifiers world_fetch (\<lambda>_. []) ''did:tdw:S:i'' 9 [''h.p.a'']
     = Ok (Trusted, reports)"
    using world_trusts by blast
  ultimately show ?thesis
    unfolding cmd_trust_verify_ok fetch_statements_ok
    by (fastforce simp: world_env_def world_args_def world_dids world_fetcher now_seconds_def world_statements)
qed

theorem trust_command_sound_witness:
  "\<exists>st. try_from_jwt world_codecs ''h.p.a'' = Ok st
     \<and> stmt_trusted world_codecs world_verifiers world_fetch ''did:tdw:S:i'' 9 st"
proof -
  obtain lines tr' where "cmd_trust_verify world_env world_web (\<lambda>_. []) 9 world_args undefined []
      = (Inr (Trusted, lines), tr')"
    using world_runs by blast
  from trust_command_sound [OF this] obtain d jwts jwt st where
    "statements_in world_codecs (web_answer world_web [] (statements_request ''https://r'' d)) jwts" "jwt \<in> set jwts"
    "try_from_jwt world_codecs jwt = Ok st" "stmt_trusted world_codecs world_verifiers world_fetch ''did:tdw:S:i'' 9 st"
    by (auto simp: world_env_def world_args_def world_fetcher now_seconds_def)
  then show ?thesis by (auto simp: world_statements)
qed

theorem trust_not_bound_to_subject_witness:
  "\<exists>lines tr'. cmd_trust_verify world_env world_web (\<lambda>_. []) 9 (world_args\<lparr>ta_did := ''did:tdw:S:z''\<rparr>) undefined []
     = (Inr (Trusted, lines), tr')"
proof -
  obtain lines tr' where run: "cmd_trust_verify world_env world_web (\<lambda>_. []) 9 world_args undefined []
      = (Inr (Trusted, lines), tr')"
    using world_runs by blast
  show ?thesis
    by (rule trust_not_bound_to_subject [OF run]) (simp_all add: world_args_def world_dids world_web_def)
qed

end
