(* ===== verification/Cli.thy ===== *)
theory Cli
  imports KeyCmds PopCmds SwiyuAuth TrustCmds DidLife
begin

text \<open>
  The command line, \<open>swiyu-didtool/src/main.rs\<close>: opening the key store, dispatching a parsed
  command, and the status the process exits with. The parser of the arguments is the crate
  \<open>clap\<close>; what it hands over is a command.
\<close>

section \<open>Commands\<close>

record registry_opts =
  ro_no_publish :: bool
  ro_partner_id :: "string option"
  ro_registry_url :: "string option"

record source_opts =
  so_did :: "string option"
  so_input :: "path option"

datatype did_command =
    DidCreate registry_opts log_entry_format path "path option" "path option" "path option"
  | DidRotate source_opts "rotate_role list" "path option" "path option" "path option"
      "path option" bool registry_opts
  | DidDeactivate source_opts "path option" bool registry_opts

datatype didlog_command =
    DidlogList source_opts
  | DidlogShow source_opts "path option" bool bool bool
  | DidlogEntry source_opts "string option" "path option" bool bool bool

datatype key_command =
    KeyList
  | KeyVersions string
  | KeyShow string "key_role option" "u32 option"
  | KeyExport string key_role path bool "u32 option"

datatype pop_command =
    PopCreate create_pop_args
  | PopVerify "string option" "path option" source_opts "string option" bool

datatype trust_command =
    TrustLookup string "string option" bool
  | TrustVerify string "string option" "string option"

datatype command =
    CmdDid did_command
  | CmdDidlog didlog_command
  | CmdKey key_command
  | CmdPop pop_command
  | CmdTrust trust_command

text \<open>What a command ends with; the trust commands distinguish a negative answer from an error.\<close>

datatype finished = Created create_outcome | Updated update_outcome | Printed "string list" "string list" | Exported

datatype failure =
    FStore keystore_error
  | FCreate create_error
  | FUpdate update_error
  | FLog log_error
  | FKey "string list" key_cmd_error
  | FExport key_cmd_error
  | FPopCreate create_pop_error
  | FPopVerify verify_pop_error
  | FTrust trust_cmd_error
  | FNoStatements "string list"
  | FUntrusted "string list"

fun exit_code :: "(finished, failure) result \<Rightarrow> nat" where
  "exit_code (Inr _) = 0"
| "exit_code (Inl (FTrust _)) = 2"
| "exit_code (Inl _) = 1"

section \<open>Running a command\<close>

text \<open>The world outside: generated keys and random bytes, the clock, the text of a time, the
  environment of the process with its home directory, and the network.\<close>

record ('ec, 'es, 'ps) outside =
  ou_fresh :: "('es, 'ps) fresh_keys"
  ou_random :: "u8 list"
  ou_clock :: clock
  ou_from_timestamp :: "int \<Rightarrow> string option"
  ou_vars :: process_env
  ou_home :: "path option"
  ou_web :: web
  ou_verifying_key :: "'ps \<Rightarrow> 'ec"

definition open_store :: "path option \<Rightarrow> path option \<Rightarrow> (path, keystore_error) io" where
  "open_store home keystore =
     (case keystore of
        Some p \<Rightarrow> store_open_or_create p
      | None \<Rightarrow> store_open_default home)"

text \<open>\<open>Utc::now().timestamp()\<close>\<close>

definition timestamp :: "clock \<Rightarrow> int" where "timestamp clk = clk_now clk div 1000000000"

definition lookup_result :: "(lookup_outcome \<times> string list \<times> string list, trust_cmd_error) result \<Rightarrow> (finished, failure) result" where
  "lookup_result r =
     (case r of
        Inr (Found, out, err) \<Rightarrow> Ok (Printed out err)
      | Inr (NoStatements, out, err) \<Rightarrow> Err (FNoStatements err)
      | Inl e \<Rightarrow> Err (FTrust e))"

definition trust_result :: "(verify_outcome \<times> string list, trust_cmd_error) result \<Rightarrow> (finished, failure) result" where
  "trust_result r =
     (case r of
        Inr (Trusted, out) \<Rightarrow> Ok (Printed out [])
      | Inr (Untrusted, out) \<Rightarrow> Err (FUntrusted out)
      | Inl e \<Rightarrow> Err (FTrust e))"

definition printed_result :: "key_cmd_error printed \<Rightarrow> (finished, failure) result" where
  "printed_result r = (case r of (out, Inr _) \<Rightarrow> Ok (Printed out []) | (out, Inl e) \<Rightarrow> Err (FKey out e))"

definition io_map :: "('a \<Rightarrow> 'b) \<Rightarrow> ('a, 'e) io \<Rightarrow> ('b, 'e) io" where
  "io_map f m = io_then m (\<lambda>x. io_ok (f x))"

fun run_did_command ::
  "('ed, 'ec, 'es, 'ps) env \<Rightarrow> ('ec, 'es, 'ps) outside \<Rightarrow> did_command \<Rightarrow> (finished, failure) io" where
  "run_did_command env ou (DidCreate r fmt out k1 k2 k3) =
     io_map Created (io_map_err FCreate
       (cmd_create env (ou_fresh ou) (ou_clock ou) (swiyu_creation (env_codecs env) (ou_vars ou) (ou_web ou) [])
         \<lparr>ca_url = None, ca_swiyu = True, ca_partner_id = ro_partner_id r, ca_registry_url = ro_registry_url r,
          ca_no_publish = ro_no_publish r, ca_format = fmt, ca_out = out, ca_authorized_key = k1,
          ca_authentication_key = k2, ca_assertion_key = k3\<rparr>))"
| "run_did_command env ou (DidRotate src roles k1 k2 k3 out force r) =
     io_map Updated (io_map_err FUpdate
       (cmd_rotate env (ou_fresh ou) (ou_clock ou) (swiyu_registry (env_codecs env) (ou_vars ou) (ou_web ou) [])
         \<lparr>ra_did = so_did src, ra_input = so_input src, ra_rotate = roles, ra_authorized_key = k1,
          ra_authentication_key = k2, ra_assertion_key = k3, ra_out = out, ra_force = force,
          ra_no_publish = ro_no_publish r, ra_partner_id = ro_partner_id r, ra_registry_url = ro_registry_url r\<rparr>))"
| "run_did_command env ou (DidDeactivate src out force r) =
     io_map Updated (io_map_err FUpdate
       (cmd_deactivate env (ou_clock ou) (swiyu_registry (env_codecs env) (ou_vars ou) (ou_web ou) [])
         \<lparr>da_did = so_did src, da_input = so_input src, da_out = out, da_force = force,
          da_no_publish = ro_no_publish r, da_partner_id = ro_partner_id r, da_registry_url = ro_registry_url r\<rparr>))"

fun run_didlog_command ::
  "('ed, 'ec, 'es, 'ps) env \<Rightarrow> ('ec, 'es, 'ps) outside \<Rightarrow> didlog_command \<Rightarrow> (finished, failure) io" where
  "run_didlog_command env ou (DidlogList src) =
     io_map (\<lambda>t. Printed [t] []) (io_map_err FLog (io_look (log_cmd_list env (so_did src) (so_input src))))"
| "run_didlog_command env ou (DidlogShow src out force raw pretty) =
     io_map (\<lambda>t. Printed [t] []) (io_map_err FLog
       (log_cmd_show env \<lparr>sa_did = so_did src, sa_input = so_input src, sa_out = out, sa_force = force,
          sa_raw = raw, sa_pretty = pretty\<rparr>))"
| "run_didlog_command env ou (DidlogEntry src at_sel out force raw pretty) =
     io_map (\<lambda>t. Printed [t] []) (io_map_err FLog
       (log_cmd_entry env \<lparr>sa_did = so_did src, sa_input = so_input src, sa_out = out, sa_force = force,
          sa_raw = raw, sa_pretty = pretty\<rparr> at_sel))"

fun run_key_command ::
  "('ed, 'ec, 'es, 'ps) env \<Rightarrow> ('ec, 'es, 'ps) outside \<Rightarrow> key_command \<Rightarrow> (finished, failure) io" where
  "run_key_command env ou KeyList = io_look (\<lambda>s. printed_result (key_cmd_list (env_store env) s))"
| "run_key_command env ou (KeyVersions d) = io_look (\<lambda>s. printed_result (key_cmd_versions (env_keys env) (env_store env) d s))"
| "run_key_command env ou (KeyShow d role version) =
     io_look (\<lambda>s. printed_result (key_cmd_show (env_keys env) (env_store env) d role version s))"
| "run_key_command env ou (KeyExport d role out private version) =
     io_map (\<lambda>_. Exported) (io_map_err FExport
       (key_cmd_export (env_keys env) (env_store env) d role out private version))"

fun run_pop_command ::
  "('ed, 'ec, 'es, 'ps) env \<Rightarrow> ('ec, 'es, 'ps) outside \<Rightarrow> pop_command \<Rightarrow> (finished, failure) io" where
  "run_pop_command env ou (PopCreate a) =
     io_map (\<lambda>t. Printed [t] []) (io_map_err FPopCreate
       (cmd_create_pop env (timestamp (ou_clock ou)) (ou_random ou) a))"
| "run_pop_command env ou (PopVerify jwt jwt_file src nonce allow_expired) =
     io_map (\<lambda>t. Printed [t] []) (io_map_err FPopVerify
       (io_look (cmd_verify_pop env (ou_verifying_key ou) (ou_from_timestamp ou) (timestamp (ou_clock ou))
         \<lparr>vp_jwt = jwt, vp_jwt_file = jwt_file, vp_did = so_did src, vp_input = so_input src,
          vp_nonce = nonce, vp_allow_expired = allow_expired\<rparr>)))"

fun run_trust_command ::
  "('ed, 'ec, 'es, 'ps) env \<Rightarrow> ('ec, 'es, 'ps) outside \<Rightarrow> trust_command \<Rightarrow> (finished, failure) io" where
  "run_trust_command env ou (TrustLookup d url raw) =
     io_look (\<lambda>s. lookup_result (fst (cmd_lookup env (ou_web ou) (iso8601 (ou_from_timestamp ou))
       \<lparr>la_did = d, la_trust_registry_url = url, la_raw = raw\<rparr> s [])))"
| "run_trust_command env ou (TrustVerify d url issuer) =
     io_look (\<lambda>s. trust_result (fst (cmd_trust_verify env (ou_web ou) (iso8601 (ou_from_timestamp ou))
       (timestamp (ou_clock ou)) \<lparr>ta_did = d, ta_trust_registry_url = url, ta_trust_issuer = issuer\<rparr> s [])))"

fun dispatch ::
  "('ed, 'ec, 'es, 'ps) env \<Rightarrow> ('ec, 'es, 'ps) outside \<Rightarrow> command \<Rightarrow> (finished, failure) io" where
  "dispatch env ou (CmdDid c) = run_did_command env ou c"
| "dispatch env ou (CmdDidlog c) = run_didlog_command env ou c"
| "dispatch env ou (CmdKey c) = run_key_command env ou c"
| "dispatch env ou (CmdPop c) = run_pop_command env ou c"
| "dispatch env ou (CmdTrust c) = run_trust_command env ou c"

definition run_tool ::
  "('ed, 'ec, 'es, 'ps) env \<Rightarrow> ('ec, 'es, 'ps) outside \<Rightarrow> path option \<Rightarrow> command \<Rightarrow> (finished, failure) io" where
  "run_tool env ou keystore cmd =
     io_then (io_map_err FStore (open_store (ou_home ou) keystore)) (\<lambda>root.
       dispatch (env\<lparr>env_store := root\<rparr>) ou cmd)"
section \<open>Properties\<close>

text \<open>The commands that only answer a question.\<close>

fun is_query :: "command \<Rightarrow> bool" where
  "is_query (CmdDid c) = False"
| "is_query (CmdDidlog (DidlogList src)) = True"
| "is_query (CmdDidlog (DidlogShow src out force raw pretty)) = (out = None)"
| "is_query (CmdDidlog (DidlogEntry src at_sel out force raw pretty)) = (out = None)"
| "is_query (CmdKey (KeyExport d role out private version)) = False"
| "is_query (CmdKey c) = True"
| "is_query (CmdPop (PopCreate a)) = (cp_out a = None)"
| "is_query (CmdPop (PopVerify jwt jwt_file src nonce allow_expired)) = True"
| "is_query (CmdTrust c) = True"

lemma keeps_map [keeps_intro]: "keeps P m \<Longrightarrow> keeps P (io_map f m)"
  unfolding io_map_def by (intro keeps_intro)

lemma keeps_outputs [keeps_intro]:
  "keeps P (write_body env body None force)" "keeps P (write_output env jwt None force)"
  by (auto simp: write_body_def write_output_def intro!: keeps_intro split: option.split)

text \<open>A query keeps every property of the files, in particular that they are as they were.\<close>

lemma query_keeps: "is_query cmd \<Longrightarrow> keeps P (dispatch env ou cmd)"
proof (cases cmd)
  case (CmdDidlog c)
  then show "is_query cmd \<Longrightarrow> keeps P (dispatch env ou cmd)"
    by (cases c) (auto simp: log_cmd_show_def log_cmd_entry_def Let_def intro!: keeps_intro)
next
  case (CmdPop c)
  then show "is_query cmd \<Longrightarrow> keeps P (dispatch env ou cmd)"
    by (cases c) (auto simp: cmd_create_pop_def Let_def intro!: keeps_intro)
next
  case (CmdKey c)
  then show "is_query cmd \<Longrightarrow> keeps P (dispatch env ou cmd)" by (cases c) (auto intro!: keeps_intro)
next
  case (CmdTrust c)
  then show "is_query cmd \<Longrightarrow> keeps P (dispatch env ou cmd)" by (cases c) (auto intro!: keeps_intro)
qed simp

text \<open>Where the key store of a run is: the option \<open>--keystore\<close>, or below the home directory.\<close>

definition store_path :: "path option \<Rightarrow> path option \<Rightarrow> path option" where
  "store_path home keystore =
     (case keystore of Some p \<Rightarrow> Some p | None \<Rightarrow> map_option (\<lambda>h. h @ [''.didtool'', ''keys'']) home)"

lemma open_store_path:
  "open_store home keystore s = (Inr root, s') \<Longrightarrow> store_path home keystore = Some root"
  by (auto simp: open_store_def store_path_def store_open_default_def store_open_or_create_def ok_iff
      split: option.split_asm)

lemma open_store_frame:
  assumes "open_store home keystore s = (r, s')"
  shows "fs_files s' = fs_files s \<and> fs_refuses s' = fs_refuses s \<and> fs_dirs s |\<subseteq>| fs_dirs s'
    \<and> (\<forall>q. q |\<in>| fs_dirs s' \<and> q |\<notin>| fs_dirs s \<longrightarrow>
         (\<exists>root. store_path home keystore = Some root \<and> prefix q root))"
proof -
  have make: "fs_files s' = fs_files s \<and> fs_refuses s' = fs_refuses s \<and> fs_dirs s |\<subseteq>| fs_dirs s'
      \<and> (\<forall>q. q |\<in>| fs_dirs s' \<and> q |\<notin>| fs_dirs s \<longrightarrow> prefix q p)"
    if "store_open_or_create p s = (r, s')" for p
  proof -
    obtain r1 s1 where c: "create_dir_all p s = (r1, s1)" by fastforce
    then have "s' = s1" using that by (cases r1) (auto simp: store_open_or_create_def)
    with create_dir_all_frame [OF c] show ?thesis by blast
  qed
  show ?thesis
  proof (cases keystore)
    case (Some p)
    then show ?thesis using assms make by (simp add: open_store_def store_path_def)
  next
    case None
    then show ?thesis
      using assms make by (cases home) (auto simp: open_store_def store_open_default_def store_path_def)
  qed
qed

text \<open>C30: questions change nothing. Listing or showing a log without an output file, the list, versions
  and public keys of the key store, a proof of possession on standard output or its check, and
  both trust commands leave every file as it is, whatever they answer. They remove no directory, and
  the only directories they may make are that of the key store and those above it.\<close>

theorem queries_change_nothing:
  assumes "run_tool env ou keystore cmd s = (r, s')" "is_query cmd"
  shows "fs_files s' = fs_files s \<and> fs_refuses s' = fs_refuses s \<and> fs_dirs s |\<subseteq>| fs_dirs s'
    \<and> (\<forall>q. q |\<in>| fs_dirs s' \<and> q |\<notin>| fs_dirs s \<longrightarrow>
         (\<exists>root. store_path (ou_home ou) keystore = Some root \<and> prefix q root))"
proof -
  obtain r1 s1 where open': "open_store (ou_home ou) keystore s = (r1, s1)" by fastforce
  have "s' = s1"
  proof (cases r1)
    case (Inr root)
    with assms(1) open' have "dispatch (env\<lparr>env_store := root\<rparr>) ou cmd s1 = (r, s')"
      by (simp add: run_tool_def)
    then show ?thesis using keepsD [OF query_keeps [OF assms(2), of "(=) s1"]] by blast
  qed (use assms(1) open' in \<open>auto simp: run_tool_def\<close>)
  with open_store_frame [OF open'] show ?thesis by simp
qed

definition plain_outside :: "(u8 list, string, string) outside" where
  "plain_outside = \<lparr>ou_fresh = sample_fresh, ou_random = [], ou_clock = sample_clock, ou_from_timestamp = (\<lambda>_. None),
     ou_vars = (\<lambda>_. None), ou_home = None,
     ou_web = \<lparr>web_build = (\<lambda>_. Ok ()), web_answer = (\<lambda>tr rq. Err ''down'')\<rparr>, ou_verifying_key = (\<lambda>_. [])\<rparr>"

theorem queries_change_nothing_witness:
  "fs_files (snd (run_tool (text_env plain_codecs plain_keys []) plain_outside (Some [''s'', ''t'']) (CmdKey KeyList) sample_files))
      = fs_files sample_files
   \<and> [''s'', ''u''] |\<notin>| fs_dirs (snd (run_tool (text_env plain_codecs plain_keys []) plain_outside
      (Some [''s'', ''t'']) (CmdKey KeyList) sample_files))"
proof -
  obtain r s' where run: "run_tool (text_env plain_codecs plain_keys []) plain_outside (Some [''s'', ''t'']) (CmdKey KeyList) sample_files
      = (r, s')"
    by fastforce
  have "[''s'', ''u''] |\<notin>| fs_dirs sample_files" by (simp add: sample_files_def)
  with queries_change_nothing [OF run] run show ?thesis by (auto simp: store_path_def)
qed

end
