(* ===== verification/ToolFrames.thy ===== *)
theory ToolFrames
  imports Cli FileTrees
begin

text \<open>
  What one command of the tool does to the files: it keeps the tree well formed, writes its own
  outputs, and adds to the key store without changing what is recorded there. Each store
  operation gets a frame rule, and the rules compose along the code of a command.
\<close>

section \<open>What a command may write\<close>

text \<open>
  The files of the key store a run may not change: the key files of the numbered versions, and the
  file that names the DID.
\<close>

definition recorded :: "path \<Rightarrow> path \<Rightarrow> bool" where
  "recorded root q \<longleftrightarrow> prefix root q \<and>
     (case drop (length root) q of
        [h, n] \<Rightarrow> n = ''did.txt''
      | [h, n, f] \<Rightarrow> version_of_name n \<noteq> None
      | _ \<Rightarrow> False)"

text \<open>
  The outputs of a command: the file it is told to write; for an update without one, the log it
  was read from with its temporary file, or a fallback file in the working directory.
\<close>

definition is_pending :: "path \<Rightarrow> path \<Rightarrow> bool" where
  "is_pending cwd p \<longleftrightarrow> p \<noteq> [] \<and> butlast p = cwd \<and> prefix ''did-pending-'' (last p)"

definition update_writes ::
  "('ed, 'ec, 'es, 'ps) env \<Rightarrow> string option \<Rightarrow> path option \<Rightarrow> path option \<Rightarrow> path \<Rightarrow> bool" where
  "update_writes env target input out p \<longleftrightarrow>
     (case out of
        Some q \<Rightarrow> p = q
      | None \<Rightarrow>
          if target \<noteq> None then is_pending (env_cwd env) p
          else let q = (case input of Some q \<Rightarrow> q | None \<Rightarrow> env_cwd env @ [DEFAULT_INPUT])
               in p = q \<or> p = tmp_path q)"

fun may_write :: "('ed, 'ec, 'es, 'ps) env \<Rightarrow> command \<Rightarrow> path \<Rightarrow> bool" where
  "may_write env (CmdDid (DidCreate r fmt out k1 k2 k3)) p = (p = out)"
| "may_write env (CmdDid (DidRotate src roles k1 k2 k3 out force r)) p = update_writes env (so_did src) (so_input src) out p"
| "may_write env (CmdDid (DidDeactivate src out force r)) p = update_writes env (so_did src) (so_input src) out p"
| "may_write env (CmdDidlog (DidlogList src)) p = False"
| "may_write env (CmdDidlog (DidlogShow src out force raw pretty)) p = (out = Some p)"
| "may_write env (CmdDidlog (DidlogEntry src at_sel out force raw pretty)) p = (out = Some p)"
| "may_write env (CmdKey (KeyExport d role out private version)) p = (p = out)"
| "may_write env (CmdKey c) p = False"
| "may_write env (CmdPop (PopCreate a)) p = (cp_out a = Some p)"
| "may_write env (CmdPop (PopVerify jwt jwt_file src nonce allow_expired)) p = False"
| "may_write env (CmdTrust c) p = False"

text \<open>A step of a run with the key store at \<open>root\<close> that may write the files in \<open>M\<close>.\<close>

definition frame :: "path \<Rightarrow> (path \<Rightarrow> bool) \<Rightarrow> files \<Rightarrow> files \<Rightarrow> bool" where
  "frame root M s s' \<longleftrightarrow>
     (wf_files s \<longrightarrow> wf_files s' \<and> fs_refuses s' = fs_refuses s
        \<and> (\<forall>q. \<not> M q \<and> \<not> prefix root q \<longrightarrow> fmlookup (fs_files s') q = fmlookup (fs_files s) q)
        \<and> (\<forall>q f. \<not> M q \<and> recorded root q \<and> fmlookup (fs_files s) q = Some f
             \<longrightarrow> fmlookup (fs_files s') q = Some f))"

interpretation framed: state_preorder "frame root M" for root M
  by unfold_locales (auto simp: frame_def)

named_theorems frame_intro "computations that write only where they may"

lemmas framed_rules [frame_intro] = framed.basic framed.sequence framed.mapped framed.branches

text \<open>A step that keeps trees well formed and changes nothing but a file that may be written.\<close>

lemma frame_keeps:
  assumes "keeps wf_files m"
    and "\<And>s r s'. m s = (r, s') \<Longrightarrow> wf_files s \<Longrightarrow> fs_refuses s' = fs_refuses s
      \<and> (\<forall>q. \<not> M q \<and> \<not> prefix root q \<longrightarrow> fmlookup (fs_files s') q = fmlookup (fs_files s) q)
      \<and> (\<forall>q f. \<not> M q \<and> recorded root q \<and> fmlookup (fs_files s) q = Some f
           \<longrightarrow> fmlookup (fs_files s') q = Some f)"
  shows "moves (frame root M) m"
  unfolding moves_def
proof
  fix s
  obtain r s' where m: "m s = (r, s')" by fastforce
  show "frame root M s (snd (m s))"
    using assms(2) [OF m] keepsD [OF assms(1) m] by (simp add: frame_def m)
qed

lemma frame_write [frame_intro]: "M p \<Longrightarrow> moves (frame root M) (open_and_write mode p t)"
  by (rule frame_keeps [OF wf_open_and_write])
    (use open_and_write_frame in metis)

lemma frame_fs_write [frame_intro]: "M p \<Longrightarrow> moves (frame root M) (fs_write p t)"
  unfolding fs_write_def by (rule frame_write)

lemma frame_private [frame_intro]: "M p \<Longrightarrow> moves (frame root M) (write_private_key_file p t)"
  unfolding write_private_key_file_def by (intro frame_intro)

lemma frame_create_dir_all [frame_intro]: "moves (frame root M) (create_dir_all p)"
  by (rule frame_keeps [OF wf_create_dir_all]) (simp add: create_dir_all_frame)

lemma frame_write_atomic [frame_intro]:
  assumes "M p" "M (tmp_path p)"
  shows "moves (frame root M) (write_atomic p t)"
proof (rule frame_keeps [OF wf_write_atomic])
  fix s r s' assume run: "write_atomic p t s = (r, s')"
  have "fs_refuses s' = fs_refuses s"
    using run open_and_write_frame(2) [of default_mode "tmp_path p" t s]
    by (auto simp: write_atomic_def io_then_def fs_write_def fs_rename_def
        split: prod.split_asm sum.split_asm option.split_asm if_split_asm)
  then show "fs_refuses s' = fs_refuses s
      \<and> (\<forall>q. \<not> M q \<and> \<not> prefix root q \<longrightarrow> fmlookup (fs_files s') q = fmlookup (fs_files s) q)
      \<and> (\<forall>q f. \<not> M q \<and> recorded root q \<and> fmlookup (fs_files s) q = Some f
           \<longrightarrow> fmlookup (fs_files s') q = Some f)"
    using write_atomic_spec(2) [OF run] assms by metis
qed

lemma frame_pending [frame_intro]:
  assumes "\<And>n. M (pending_path cwd n)"
  shows "moves (frame root M) (write_pending_log cwd t)"
proof -
  have "moves (frame root M) (io_then (io_map_err g (fs_write (pending_path cwd n) t)) (\<lambda>_. io_ok x))" for g n x
    by (intro frame_intro assms)
  then show ?thesis
    unfolding moves_def write_pending_log_def
    using write_pending_shape [of cwd t "[1..<Suc MAX_PENDING_INDEX]"] framed.stays by (metis snd_conv)
qed

section \<open>What the key store does\<close>

lemma recorded_cases:
  assumes "recorded root q"
  obtains h where "q = root @ [h, ''did.txt'']"
  | h n f where "q = root @ [h, n, f]" "version_of_name n \<noteq> None"
  using assms unfolding recorded_def prefix_def
  by (auto split: list.split_asm)

lemma name_of_version: "version_of_name n \<noteq> None \<Longrightarrow> n \<noteq> ''did.txt''"
  by auto

lemma read_digits_less: "read_digits a t = Some k \<Longrightarrow> k < (a + 1) * 10 ^ length t"
proof (induction t arbitrary: a)
  case (Cons ch t)
  then obtain v where v: "digit_value ch = Some v" "read_digits (10 * a + v) t = Some k"
    by (auto split: option.split_asm)
  then have "v < 10" by (auto simp: digit_value_def split: if_split_asm)
  then have "(10 * a + v + 1) * 10 ^ length t \<le> (a + 1) * 10 ^ length (ch # t)" by (simp add: algebra_simps)
  with Cons.IH [OF v(2)] show ?case by linarith
qed simp

lemma version_less: "version_of_name n = Some v \<Longrightarrow> unat v < 10000"
  using read_digits_less [of 0 n] by (auto simp: version_of_name_def read_nat_def unat_of_nat_small split: if_split_asm)

text \<open>A new version has a number above all versions that can be seen, so that it meets no file of theirs.\<close>

lemma next_version_free:
  assumes wf: "wf_files s" and latest: "latest_version e s = Ok v" and dir: "ke_dir e = root @ [h]"
    and q: "recorded root q" "fmlookup (fs_files s) q = Some f"
  shows "\<not> prefix (ke_dir e @ [show_pad4 (unat (v + 1))]) q \<and> \<not> prefix q (ke_dir e @ [show_pad4 (unat (v + 1))])"
  using q(1)
proof (cases rule: recorded_cases)
  case (1 h')
  have "read_nat ''did.txt'' = None" by (simp add: read_nat_def digit_value_def)
  then have "''did.txt'' \<noteq> show_pad4 k" "show_pad4 k \<noteq> ''did.txt''" for k
    by (metis option.distinct(1) read_show_pad4)+
  then show ?thesis by (auto simp: 1 dir prefix_def)
next
  case (2 h' n x)
  have False if "n = show_pad4 (unat (v + 1))" "h' = h"
  proof -
    let ?vs = "versions_in (dir_names (ke_dir e) s)"
    have "root @ [h, n] |\<in>| fs_dirs s" using wf_filesD(3) [OF wf q(2)] by (simp add: 2 that butlast_append)
    then have "n |\<in>| dir_names (ke_dir e) s" by (simp add: dir_names_def child_names_iff dir)
    moreover have "version_of_name n = Some (v + 1)"
      using 2(2) that(1) by (auto simp: version_of_show_pad4 split: if_split_asm)
    ultimately have new: "v + 1 |\<in>| ?vs" by (auto simp: versions_in_iff)
    have max: "v = Max (fset ?vs)" using latest by (auto simp: latest_version_def ok_iff split: if_split_asm)
    have "v \<in> fset ?vs" unfolding max by (rule Max_in) (use new in auto)
    then have "unat v < 10000" by (auto simp: versions_in_iff dest: version_less)
    then have "v < v + 1" by (simp add: word_less_nat_alt unat_word_ariths)
    moreover have "v + 1 \<le> v" unfolding max by (rule Max_ge) (use new max in auto)
    ultimately show False by simp
  qed
  then show ?thesis by (auto simp: 2 dir prefix_def)
qed

text \<open>A computation below a path at which there is nothing recorded yet.\<close>

lemma frame_touches:
  assumes run: "m s = (r, s')" and touch: "touches p m" "prefix root p" and wf: "wf_files s" "keeps wf_files m"
    and free: "\<And>q f. recorded root q \<Longrightarrow> fmlookup (fs_files s) q = Some f \<Longrightarrow> \<not> prefix p q \<and> \<not> prefix q p"
    and above: "\<And>q. \<not> prefix root q \<Longrightarrow> fmlookup (fs_files s') q = fmlookup (fs_files s) q"
  shows "frame root M s s'"
proof -
  have "same_beside p s s'" using touch(1) run unfolding touches_moves by (rule movesD)
  then show ?thesis
    using above free keepsD [OF wf(2) run wf(1)] by (auto simp: frame_def same_beside_def same_at_def)
qed

text \<open>The two operations that add to the store write below its root only.\<close>

definition same_outside :: "path \<Rightarrow> files \<Rightarrow> files \<Rightarrow> bool" where
  "same_outside p s s' \<longleftrightarrow> (\<forall>q. \<not> prefix p q \<longrightarrow> fmlookup (fs_files s') q = fmlookup (fs_files s) q)"

interpretation outside: state_preorder "same_outside p" for p
  by unfold_locales (auto simp: same_outside_def)

lemma outside_steps:
  "moves (same_outside p) (create_dir_all q)"
  "prefix p q \<Longrightarrow> moves (same_outside p) (open_and_write mode q t)"
  unfolding moves_def same_outside_def
  by (metis create_dir_all_frame(1) prod.collapse) (metis open_and_write_frame(3) prod.collapse)

lemmas outside_rules = outside.basic outside.sequence outside.mapped outside.branches outside_steps

lemma outside_writes:
  assumes "prefix p q"
  shows "moves (same_outside p) (fs_write q t)" "moves (same_outside p) (write_private_key_ecdsa ops k q)"
    "moves (same_outside p) (write_private_key_eddsa ops k' q)"
    "moves (same_outside p) (write_public_key_ecdsa ops pk q)"
    "moves (same_outside p) (write_public_key_eddsa ops pk' q)"
  unfolding fs_write_def write_private_key_file_def write_private_key_ecdsa_def
    write_private_key_eddsa_def write_public_key_ecdsa_def write_public_key_eddsa_def
  by (intro outside_rules assms)+

lemma outside_snapshot: "prefix p d \<Longrightarrow> moves (same_outside p) (write_snapshot ops st d)"
  unfolding write_snapshot_def Let_def by (intro outside_rules outside_writes) simp_all

lemma outside_store:
  "prefix p (ke_dir e) \<Longrightarrow> moves (same_outside p) (add_version ops e st)"
  "prefix p root \<Longrightarrow> moves (same_outside p) (store_commit ops root st d)"
  unfolding add_version_def store_commit_def Let_def
  by (intro outside_rules outside_writes outside_snapshot; simp)+

lemma frame_add_version [frame_intro]:
  assumes "ke_dir e = root @ [h]"
  shows "moves (frame root M) (add_version ops e st)"
  unfolding moves_def
proof
  fix s
  show "frame root M s (snd (add_version ops e st s))"
  proof (cases "wf_files s")
    case wf: True
    show ?thesis
    proof (cases "latest_version e s")
      case (Inl x)
      then show ?thesis by (simp add: add_version_def framed.stays)
    next
      case (Inr v)
      let ?d = "ke_dir e @ [show_pad4 (unat (v + 1))]"
      let ?m = "io_then (io_map_err KSIo (create_dir_all ?d)) (\<lambda>_. io_then (write_snapshot ops st ?d) (\<lambda>_. io_ok (v + 1)))"
      have run: "add_version ops e st s = ?m s" by (simp add: add_version_def Inr Let_def)
      obtain r s' where m: "?m s = (r, s')" by fastforce
      have "frame root M s s'"
      proof (rule frame_touches [where m = ?m, OF m])
        show "touches ?d ?m" by (intro touches_intro) simp_all
        show "keeps wf_files ?m" by (intro keeps_intro)
        show "prefix root ?d" by (simp add: assms)
        show "\<not> prefix ?d q \<and> \<not> prefix q ?d" if "recorded root q" "fmlookup (fs_files s) q = Some f" for q f
          by (rule next_version_free [OF wf Inr assms that])
        have "moves (same_outside root) ?m"
          by (intro outside_rules outside_snapshot) (simp add: assms)
        then show "fmlookup (fs_files s') q = fmlookup (fs_files s) q" if "\<not> prefix root q" for q
          using movesD [where m = ?m, OF _ m] that unfolding same_outside_def by blast
      qed (rule wf)
      then show ?thesis by (simp only: run m snd_conv)
    qed
  qed (simp add: frame_def)
qed

lemma frame_store_commit [frame_intro]: "moves (frame root M) (store_commit ops root st d)"
  unfolding moves_def
proof
  fix s
  let ?p = "root @ [did_to_hash ops (did_to_string d)]"
  obtain r s' where run: "store_commit ops root st d s = (r, s')" by fastforce
  show "frame root M s (snd (store_commit ops root st d s))"
  proof (cases "wf_files s \<and> \<not> path_exists s ?p")
    case True
    then have wf: "wf_files s" and new: "\<not> path_exists s ?p" by blast+
    have "frame root M s s'"
    proof (rule frame_touches [OF run touches_commit _ wf wf_store_commit])
      fix q f assume q: "recorded root q" "fmlookup (fs_files s) q = Some f"
      have "\<not> prefix ?p q" using wf_empty_below [OF wf new] q(2) by auto
      moreover have "\<not> prefix q ?p" using q(1) by (cases rule: recorded_cases) (auto simp: prefix_def)
      ultimately show "\<not> prefix ?p q \<and> \<not> prefix q ?p" ..
    next
      fix q assume "\<not> prefix root q"
      then show "fmlookup (fs_files s') q = fmlookup (fs_files s) q"
        using movesD [OF outside_store(2) [OF prefix_order.refl] run] by (simp add: same_outside_def)
    qed simp
    with run show ?thesis by simp
  next
    case False
    then show ?thesis by (auto simp: frame_def store_commit_def Let_def)
  qed
qed

section \<open>Commands\<close>

lemma frame_outputs [frame_intro]:
  "(\<And>p. out = Some p \<Longrightarrow> M p) \<Longrightarrow> moves (frame root M) (write_body env body out force)"
  "(\<And>p. out = Some p \<Longrightarrow> M p) \<Longrightarrow> moves (frame root M) (write_output env jwt out force)"
  by (auto simp: write_body_def write_output_def intro!: frame_intro split: option.split)

lemma frame_write_log [frame_intro]:
  assumes "\<And>p. out = Some p \<Longrightarrow> M p" "\<And>p. out = None \<Longrightarrow> src = Some p \<Longrightarrow> M p \<and> M (tmp_path p)"
  shows "moves (frame root M) (write_log t src out force)"
  using assms by (auto simp: write_log_def intro!: frame_intro split: option.split)

text \<open>An update writes its log to the output, or back to where it came from; only what it fetched goes
  to a fallback file.\<close>

lemma load_source:
  "load_log env target input s = Ok l \<Longrightarrow> ll_source_path l =
     (if target \<noteq> None then None
      else Some (case input of Some q \<Rightarrow> q | None \<Rightarrow> env_cwd env @ [DEFAULT_INPUT]))"
  by (auto simp: load_log_def Let_def ok_iff split: if_split_asm option.split_asm)

lemma pending_is_pending: "is_pending cwd (pending_path cwd n)"
  by (simp add: is_pending_def pending_path_def)

lemma frame_update:
  assumes may: "\<And>p. update_writes env target input out p \<Longrightarrow> M p"
    and loaded: "io_look (\<lambda>s. map_err UPLoad (load_log env target input s)) s = (Inr l, s')"
  shows "moves (frame root M) (write_log t (ll_source_path l) out force)"
    "io_map_err UPWriteLog (write_log t (ll_source_path l) out force) s1 = (Inr w, s2) \<Longrightarrow>
      moves (frame root M) (publish_update env reg np pid url d did_str log w)"
proof -
  have load: "load_log env target input s = Ok l" using loaded by (auto simp: ok_iff)
  have "out = Some p \<Longrightarrow> M p" for p using may [of p] by (simp add: update_writes_def)
  moreover have "out = None \<Longrightarrow> ll_source_path l = Some q \<Longrightarrow> M q \<and> M (tmp_path q)" for q
    using may [of q] may [of "tmp_path q"] load_source [OF load]
    by (auto simp: update_writes_def Let_def split: if_split_asm)
  ultimately show "moves (frame root M) (write_log t (ll_source_path l) out force)"
    by (rule frame_write_log)
  assume "io_map_err UPWriteLog (write_log t (ll_source_path l) out force) s1 = (Inr w, s2)"
  then have w: "w = (if out \<noteq> None then out else ll_source_path l)"
    by (simp only: io_map_err_ok write_log_ok(1))
  have "M (pending_path (env_cwd env) n)" if "w = None" for n
    using that w load_source [OF load] may [of "pending_path (env_cwd env) n"] pending_is_pending [of "env_cwd env" n]
    by (cases out; cases target) (simp_all add: update_writes_def)
  then show "moves (frame root M) (publish_update env reg np pid url d did_str log w)"
    by (auto simp: publish_update_def publish_failed_def intro!: frame_intro split: sum.split option.split)
qed

lemma target_entry:
  assumes "io_look (update_target env log) s = (Inr x, s')"
  obtains h where "ke_dir (fst (snd (snd x))) = env_store env @ [h]"
  using assms that
  by (cases x) (auto simp: update_target_ok store_lookup_def Let_def ok_iff split: if_split_asm)

lemma frame_create [frame_intro]:
  "M (ca_out args) \<Longrightarrow> moves (frame (env_store env) M) (cmd_create env fresh clk reg args)"
  unfolding cmd_create_def Let_def
  by (intro frame_intro; auto intro!: frame_intro split: prod.split)

lemma frame_rotate [frame_intro]:
  assumes "\<And>p. update_writes env (ra_did args) (ra_input args) (ra_out args) p \<Longrightarrow> M p"
  shows "moves (frame (env_store env) M) (cmd_rotate env fresh clk reg args)"
  unfolding cmd_rotate_def Let_def case_prod_beta
proof (intro framed.after_step framed.branches framed.basic framed.mapped, goal_cases)
  case 1
  then show ?case using frame_update(1) [where M = M, OF assms] by blast
next
  case 2
  then show ?case using target_entry frame_add_version by metis
next
  case 3
  then show ?case using frame_update(2) [where M = M, OF assms] by blast
qed

lemma frame_deactivate [frame_intro]:
  assumes "\<And>p. update_writes env (da_did args) (da_input args) (da_out args) p \<Longrightarrow> M p"
  shows "moves (frame (env_store env) M) (cmd_deactivate env clk reg args)"
  unfolding cmd_deactivate_def Let_def case_prod_beta
proof (intro framed.after_step framed.branches framed.basic framed.mapped, goal_cases)
  case 1
  then show ?case using frame_update(1) [where M = M, OF assms] by blast
next
  case 2
  then show ?case using frame_update(2) [where M = M, OF assms] by blast
qed

lemma frame_dispatch:
  "moves (frame (env_store env) (may_write env cmd)) (dispatch env ou cmd)"
proof (cases cmd)
  case (CmdDid c)
  then show ?thesis by (cases c) (auto simp: io_map_def intro!: frame_intro)
next
  case (CmdDidlog c)
  then show ?thesis
    by (cases c) (auto simp: io_map_def log_cmd_show_def log_cmd_entry_def Let_def intro!: frame_intro)
next
  case (CmdKey c)
  then show ?thesis
    by (cases c) (auto simp: io_map_def key_cmd_export_def export_private_key_def export_public_key_def
        intro!: frame_intro)
next
  case (CmdPop c)
  then show ?thesis by (cases c) (auto simp: io_map_def cmd_create_pop_def Let_def intro!: frame_intro)
next
  case (CmdTrust c)
  then show ?thesis by (cases c) (auto intro!: frame_intro)
qed

end
