(* ===== verification/ToolRuns.thy ===== *)
theory ToolRuns
  imports ToolFrames
begin

text \<open>
  Runs of the whole tool, \<open>main.rs\<close> down to the files: a command writes to its own outputs and to
  the key store only; and in the key store it adds but never changes or removes, so that no
  sequence of commands, failed ones included, loses a key.
\<close>

section \<open>Runs\<close>

lemma may_write_store: "may_write (env\<lparr>env_store := root\<rparr>) cmd = may_write env cmd"
proof
  fix p
  have "update_writes (env\<lparr>env_store := root\<rparr>) target input out p = update_writes env target input out p"
    for target input out
    by (cases out; cases input) (simp_all add: update_writes_def)
  then show "may_write (env\<lparr>env_store := root\<rparr>) cmd p = may_write env cmd p"
    by (cases "(env, cmd, p)" rule: may_write.cases) simp_all
qed

lemma frame_run:
  assumes "store_path (ou_home ou) keystore = Some root"
  shows "moves (frame root (may_write env cmd)) (run_tool env ou keystore cmd)"
  unfolding run_tool_def
proof (rule framed.after_step)
  show "moves (frame root (may_write env cmd)) (io_map_err FStore (open_store (ou_home ou) keystore))"
    by (auto simp: open_store_def store_open_default_def store_open_or_create_def intro!: frame_intro
        split: option.split)
  fix s r s' assume "io_map_err FStore (open_store (ou_home ou) keystore) s = (Inr r, s')"
  then have "r = root" using assms open_store_path by (fastforce simp: io_map_err_ok)
  then show "moves (frame root (may_write env cmd)) (dispatch (env\<lparr>env_store := r\<rparr>) ou cmd)"
    using frame_dispatch [of "env\<lparr>env_store := root\<rparr>" cmd ou] by (simp add: may_write_store)
qed

text \<open>C11: a run writes its outputs and new files of the key store, and nothing else. A file that
  is not one of the outputs of the command stays byte for byte what it was if it lies outside the
  key store, and also if it lies in it and is a key file of a version or the name of a DID; this
  also holds of a run that fails half-way.\<close>

theorem tool_writes_outputs:
  assumes run: "run_tool env ou keystore cmd s = (r, s')"
    and store: "store_path (ou_home ou) keystore = Some root" and wf: "wf_files s"
    and q: "\<not> may_write env cmd q"
  shows "(\<not> prefix root q \<longrightarrow> fmlookup (fs_files s') q = fmlookup (fs_files s) q)
    \<and> (recorded root q \<and> fmlookup (fs_files s) q = Some f \<longrightarrow> fmlookup (fs_files s') q = Some f)"
  using movesD [OF frame_run [OF store] run] wf q unfolding frame_def by blast

text \<open>
  A sequence of runs, by different people: with any commands, networks, working directories and
  times, but with one key store, and with outputs that are none of its files.
\<close>

inductive tool_runs :: "('ed, 'ec, 'es, 'ps) env \<Rightarrow> path \<Rightarrow> files \<Rightarrow> files \<Rightarrow> bool" for env root where
  none: "tool_runs env root s s"
| run: "tool_runs env root s s1 \<Longrightarrow>
    run_tool (env\<lparr>env_http := http, env_cwd := cwd\<rparr>) ou keystore cmd s1 = (r, s2) \<Longrightarrow>
    store_path (ou_home ou) keystore = Some root \<Longrightarrow>
    (\<And>q. may_write (env\<lparr>env_http := http, env_cwd := cwd\<rparr>) cmd q \<Longrightarrow> \<not> recorded root q) \<Longrightarrow>
    tool_runs env root s s2"

lemma runs_keep_records:
  assumes "tool_runs env root s s'" "wf_files s"
  shows "wf_files s'" "fs_refuses s' = fs_refuses s"
    "recorded root q \<Longrightarrow> fmlookup (fs_files s) q = Some f \<Longrightarrow> fmlookup (fs_files s') q = Some f"
proof -
  have "wf_files s' \<and> fs_refuses s' = fs_refuses s
    \<and> (\<forall>q f. recorded root q \<and> fmlookup (fs_files s) q = Some f \<longrightarrow> fmlookup (fs_files s') q = Some f)"
    using assms
  proof (induction rule: tool_runs.induct)
    case (run s s1 http cwd ou keystore cmd r s2)
    from movesD [OF frame_run [OF run.hyps(3)] run.hyps(2)] run.IH [OF run.prems] run.hyps(4) show ?case
      unfolding frame_def by metis
  qed simp
  then show "wf_files s'" "fs_refuses s' = fs_refuses s"
    "recorded root q \<Longrightarrow> fmlookup (fs_files s) q = Some f \<Longrightarrow> fmlookup (fs_files s') q = Some f"
    by blast+
qed

text \<open>The key files of an entry and the name of its DID are recorded.\<close>

lemma recorded_key: "ke_dir e = root @ [h] \<Longrightarrow> unat v < 10000 \<Longrightarrow> recorded root (key_path e v role private)"
  by (simp add: recorded_def key_path_def version_of_show_pad4)

lemma recorded_did: "recorded root (root @ [h, ''did.txt''])"
  by (simp add: recorded_def)

text \<open>C7: no sequence of runs of the tool loses a key. Whatever commands are run one after the other
  on one key store, with any network, succeeding or failing, as long as no output is directed
  onto a file of the store: a DID that was found in the store is found there still, and each key
  file of each of its versions reads as before.\<close>

theorem keys_never_lost:
  assumes runs: "tool_runs env root s s'" and wf: "wf_files s"
    and entry: "store_lookup (env_keys env) root d s = Ok (Some e)"
    and key: "read_key_file e role private (Some v) s = Ok pem" "unat v < 10000"
  shows "store_lookup (env_keys env) root d s' = Ok (Some e)
    \<and> read_key_file e role private (Some v) s' = Ok pem"
proof -
  let ?dir = "root @ [did_to_hash (env_keys env) (did_to_string d)]"
  note kept = runs_keep_records [OF runs wf]
  obtain m t where e: "ke_dir e = ?dir" "refusal (fs_refuses s (?dir @ [''did.txt''])) = None"
      "fmlookup (fs_files s) (?dir @ [''did.txt'']) = Some (m, t)" "trim t = did_to_string d"
    using entry by (auto simp: store_lookup_def Let_def ok_iff split: if_split_asm)
  have named: "fmlookup (fs_files s') (?dir @ [''did.txt'']) = Some (m, t)"
    using kept(3) [OF recorded_did] e(3) by simp
  then have "path_exists s' ?dir"
    using wf_filesD(3) [OF kept(1) named] by (simp add: path_exists_def path_is_dir_def butlast_append)
  then have "store_lookup (env_keys env) root d s' = Ok (Some e)"
    using entry e named by (auto simp: store_lookup_def Let_def ok_iff kept(2) split: if_split_asm)
  moreover obtain m' where "refusal (fs_refuses s (key_path e v role private)) = None"
      "fmlookup (fs_files s) (key_path e v role private) = Some (m', pem)"
    using key(1) by (auto simp: read_key_file_def Let_def ok_iff split: if_split_asm)
  then have "read_key_file e role private (Some v) s' = Ok pem"
    using kept(3) [OF recorded_key [OF e(1) key(2)]]
    by (auto simp: read_key_file_def Let_def ok_iff kept(2) path_exists_def)
  ultimately show ?thesis ..
qed

section \<open>Instance\<close>

text \<open>The sample store, from which a private key is exported.\<close>

abbreviation export_env :: "(u8 list, u8 list, string, string) env" where
  "export_env \<equiv> text_env plain_codecs sample_keys []"

definition sample_export :: command where
  "sample_export = CmdKey (KeyExport (did_to_string sample_did) Authorized [''out''] True None)"

lemma sample_current: "current_did sample_log = Some (did_to_string sample_did)"
  by (simp add: sample_log_def sample_entry_def entry_new_tdw_def current_did_def json_obj_def)

lemma sample_wf: "wf_files sample_files"
  unfolding wf_files_def
proof (intro conjI allI impI)
  fix q assume "fmlookup (fs_files sample_files) q \<noteq> None"
  then have "q \<in> fset (fmdom (fs_files sample_files))" by (rule contrapos_np) (rule fmdom_notD)
  then have "q \<in> {[''r'', ''00'', ''did.txt''], [''r'', ''00'', ''0001'', ''authorized-private.pem''],
      [''r'', ''00'', ''0001'', ''authentication-private.pem''], [''r'', ''00'', ''0001'', ''assertion-private.pem'']}"
    by (simp add: sample_files_def)
  then show "q |\<notin>| fs_dirs sample_files" "butlast q |\<in>| fs_dirs sample_files"
    by (elim insertE emptyE; simp add: sample_files_def)+
qed (auto simp: sample_files_def)

lemma export_beside: "may_write env sample_export q \<longleftrightarrow> q = [''out'']" "\<not> recorded [''r''] [''out'']"
  by (simp_all add: sample_export_def recorded_def)

lemma export_store: "store_path home (Some root) = Some root"
  by (simp add: store_path_def)

theorem tool_writes_outputs_witness:
  "fmlookup (fs_files (snd (run_tool export_env plain_outside (Some [''r'']) sample_export sample_files)))
     [''r'', ''00'', ''did.txt''] = Some (default_mode, did_to_string sample_did)"
proof -
  obtain r s' where run: "run_tool export_env plain_outside (Some [''r'']) sample_export sample_files = (r, s')"
    by fastforce
  have "recorded [''r''] [''r'', ''00'', ''did.txt'']" by (simp add: recorded_def)
  moreover have "fmlookup (fs_files sample_files) [''r'', ''00'', ''did.txt''] = Some (default_mode, did_to_string sample_did)"
    by (simp add: sample_files_def)
  ultimately show ?thesis
    using tool_writes_outputs [OF run export_store sample_wf] run by (simp add: export_beside(1))
qed

theorem keys_never_lost_witness:
  "read_key_file sample_vault_entry Authorized True (Some 1)
     (snd (run_tool export_env plain_outside (Some [''r'']) sample_export sample_files)) = Ok sample_key"
proof -
  obtain r s' where run: "run_tool export_env plain_outside (Some [''r'']) sample_export sample_files = (r, s')"
    by fastforce
  have "tool_runs export_env [''r''] sample_files s'"
  proof (rule tool_runs.run [OF tool_runs.none])
    show "run_tool (export_env\<lparr>env_http := env_http export_env, env_cwd := env_cwd export_env\<rparr>) plain_outside
        (Some [''r'']) sample_export sample_files = (r, s')"
      using run by (simp add: text_env_def)
  qed (simp_all add: export_store export_beside)
  moreover have "store_lookup (env_keys export_env) [''r''] sample_did sample_files = Ok (Some sample_vault_entry)"
    "load_eddsa sample_keys sample_vault_entry Authorized (Some 1) sample_files = Ok sample_key"
    using sample_target [of sample_log export_env] sample_current by (simp_all add: update_target_ok)
  moreover from this(2) have "read_key_file sample_vault_entry Authorized True (Some 1) sample_files = Ok sample_key"
    by (auto simp: load_eddsa_def ok_iff parse_private_key_eddsa_def sample_pem)
  ultimately show ?thesis
    using keys_never_lost [of export_env, OF _ sample_wf, of "[''r'']" s' sample_did] run by simp
qed

end
