(* ===== verification/Spec2Isabelle.thy ===== *)
theory Spec2Isabelle
  imports LogVerify IntegrityProof DidJwk StatusList SdJwt TrustVerify Oid4vci DidUpdates PopSound RegistrySound DidEnd ToolRuns
begin

text \<open>
  A model of \<open>swiyu-rs\<close>: libraries and a command line tool for decentralized identifiers (DIDs),
  their logs, status lists and trust statements of the Swiss e-ID trust infrastructure. A DID of
  method \<open>did:tdw\<close> is a log of entries published at a web address; every entry is hashed onto
  the one before and signed by a key that earlier entries put in force. The core library parses,
  builds and verifies these objects; the registry clients exchange them with the SWIYU
  registries; the tool creates, rotates and deactivates DIDs, keeps their private keys in a store
  on disk, signs and checks proofs of possession, and checks trust statements.

  \<^bold>\<open>Parts, theories and code\<close> (paths under \<open>src/\<close>; a definition has the name of the function it
  models, fields have a prefix for their type):

  \<^item> Library: \<open>Prelude\<close> (results, word conversions, hint collections), \<open>StrLib\<close> (\<open>str\<close> methods on
    byte strings), \<open>Json\<close> (\<open>serde_json::Value\<close> with the locale \<open>json_codec\<close> of a type that is
    written and read back), \<open>Externals\<close> (the crates as records of functions, with their laws),
    \<open>DocFields\<close> (shared field readers), \<open>Files\<close> (\<open>std::fs\<close> as an explicit map with errors, and
    the fallible computations over a state that all commands are written in).
  \<^item> Identifiers and documents: \<open>Did\<close> (\<open>swiyu-core/src/did\<close>), \<open>PublicKeys\<close> and \<open>DidDoc\<close>
    (\<open>diddoc\<close>), \<open>DidJwk\<close> (\<open>didjwk\<close>).
  \<^item> Logs: \<open>DidLog\<close> (\<open>didlog/mod.rs\<close>, \<open>scid.rs\<close>, \<open>entry_edits.rs\<close>), \<open>LogVerify\<close>
    (\<open>didlog/verify.rs\<close>), \<open>IntegrityProof\<close> (\<open>proof.rs\<close>).
  \<^item> Credentials: \<open>Jws\<close> (\<open>jws.rs\<close>), \<open>SdJwt\<close> (\<open>sd_jwt.rs\<close>), \<open>StatusList\<close> (\<open>statuslist\<close>),
    \<open>TrustStatement\<close> (\<open>truststatement\<close>), \<open>Oid4vci\<close> (\<open>oid4vci\<close>).
  \<^item> Registries (\<open>swiyu-registries/src\<close>): \<open>Registries\<close> (the three clients), with its proofs in
    \<open>RegistrySound\<close>; \<open>SwiyuAuth\<close> (\<open>oauth2.rs\<close> and \<open>swiyu.rs\<close> of the tool).
  \<^item> The tool (\<open>swiyu-didtool/src\<close>): \<open>KeyFiles\<close> (\<open>crypto.rs\<close>), \<open>KeyStore\<close> and its proofs in
    \<open>KeyVault\<close> (\<open>keystore.rs\<close>), \<open>Http\<close> (\<open>cmd/http.rs\<close>), \<open>Commands\<close> (\<open>cmd/mod.rs\<close>, \<open>cmd/file.rs\<close>),
    \<open>KeyCmds\<close> (\<open>cmd/key.rs\<close>), \<open>LogCmds\<close> (\<open>cmd/didlog.rs\<close>), \<open>DidCmds\<close> (\<open>cmd/did\<close>) with its proofs
    in \<open>DidLife\<close>, \<open>DidGenesis\<close>, \<open>DidHistory\<close>, \<open>DidUpdates\<close> and \<open>DidEnd\<close>, \<open>PopCmds\<close> (\<open>cmd/pop\<close>) with its
    proofs in \<open>PopSound\<close>, \<open>TrustVerify\<close> and \<open>TrustCmds\<close> (\<open>cmd/trust\<close>), \<open>Cli\<close> (\<open>main.rs\<close>).
  \<^item> The tool on its files: \<open>FileTrees\<close> (well-formed trees of files and directories), \<open>ToolFrames\<close>
    (what each command may write), \<open>ToolRuns\<close> (single runs and sequences of runs of the tool).

  \<^bold>\<open>State and effects.\<close> A pure function of the code is a function of the model; an error is the
  left side of a sum, with the constructors of the code's error type. A command with effects is a
  function from the files to a result and the files it leaves, in the order the code has its
  effects, so that a failing command shows what it did before. The files are a map from paths to
  permission bits and texts, a set of directories, and the paths the operating system denies: it
  refuses to open some for a reason of its own, and breaks off a write to others after a number of
  bytes (a full disk), which leaves a torn file with the first bytes of the text; so a file written in
  place and one replaced by a rename differ after a failure. Asking whether a path exists is never
  refused. A call to a registry is a function from the requests sent so far to a
  result and the requests sent then, one for each that the program hands to its HTTP client; the
  redirects a client follows on its own are a relation between requests, with \<open>redirect_law\<close> for what
  its policy promises (\<open>RegistrySound\<close>). What a command prints is in its result.

  \<^bold>\<open>Interfaces.\<close> \<open>json_codec\<close> and \<open>json_parser\<close>: a type and its JSON form, for every type that
  is read and written. \<open>state_preorder\<close> (\<open>Files\<close>): a relation between the states before and after,
  which a sequence of effects has if its steps have it; its instances are what a command keeps,
  what it does not touch (beside an entry of the key store, outside it), and the frame of a run.
  \<open>slot_store\<close> (\<open>StatusList\<close>): reading and writing numbered slots.
  \<open>versioned_keys\<close> (\<open>KeyVault\<close>): the entry of the key store as the commands that sign see it.
  \<open>log_registry\<close> (\<open>DidLife\<close>): the registry as the commands on DIDs see it, provided by
  \<open>RegistrySound\<close> for updates and for creations.

  \<^bold>\<open>What the lemmas show.\<close>

  \<^item> Texts and objects: parsing accepts exactly the texts of well-formed values and gives back
    the value that was written (DIDs, keys, documents, log entries, status lists).
  \<^item> Verification: \<open>verify_log\<close> accepts exactly the chains its comment describes; signing
    authority comes only from earlier entries, the head fixes the history, an empty list of keys
    ends it; and which changes to the last entry it does not notice.
  \<^item> Life of a DID: what creation, rotation and deactivation write verifies exactly if the stored
    key was in force, any history of creation and rotations keeps log and key store in step and
    can be ended by a deactivation, after which nothing follows (for logs in the format did:tdw 0.3,
    the only one \<open>verify_log\<close> supports); a rotation changes exactly the
    roles it is asked to change, the times go up, and the two ways in which it destroys a DID.
  \<^item> The whole tool: every run writes its outputs and new files of the key store only; no sequence of runs, failed ones included, loses a key. For this
    each command is followed down to the file operations once, by the rules in \<open>frame_intro\<close>.
  \<^item> Key store: it refines a map from DIDs to lists of key sets; commits succeed where they
    should; what a failed commit and the version after 9999 leave; what the list of versions says.
  \<^item> Checks: what acceptance of a proof of possession, a trust statement, an embedded key and a
    status list slot means, and what it does not mean.
  \<^item> Network: where secrets are sent, what a published log is, that a DID resolves to the place
    that was allocated for it, and the limits on fetched texts.

  \<^bold>\<open>Parameters and laws.\<close> Third-party crates are records of functions: encodings, hashes, JSON
  texts and signatures in \<open>Externals\<close>, key pairs and PEM in \<open>KeyFiles\<close>, the HTTP clients in
  \<open>Http\<close> and \<open>Registries\<close>, time and its text in \<open>DidCmds\<close> and \<open>Commands\<close>. A theorem that relies
  on documented behaviour names it as a hypothesis (\<open>bs58_law\<close>, \<open>ed_sound\<close>, \<open>json_text_law\<close>,
  \<open>clock_law\<close> for the years 1970 to 9999, \<open>redirect_law\<close>, no collision on the inputs at hand), and its witness runs it on plain instances
  where the law holds. Generated keys and nonces are arguments. Strings are lists of UTF-8 bytes.

  \<^bold>\<open>Bounds.\<close> Integers have the width of the code: \<open>u64\<close> sums wrap (the expiry of a proof of
  possession), \<open>u32\<close> version numbers and counters, \<open>u8\<close> slots of status lists. Searches end
  without fuel: fallback files are tried from 1 to 9999, version directories have four digits, a
  fetched body has at most 1 MiB, of which one byte more is read to detect the excess.

  \<^bold>\<open>Not modelled.\<close> The parser of the command line (generated by \<open>clap\<close>), log output of
  \<open>tracing\<close>, key generation from the operating system's randomness, the async runtime, zeroizing of
  memory and the masking of tokens in debug output, symbolic links and concurrent processes on the
  same files. The accessors of fields are the fields of the records, and the texts of errors
  (\<open>Display\<close>) are left out, except where a command prints them as its answer. Every run of the tool starts with no request
  sent: what one run sends is not passed on to the next, and the network that answers is an
  argument of each.
\<close>

end
